(* ===== verification/WCN_Prelude.thy ===== *)
theory WCN_Prelude
  imports Main "HOL-Library.Word"
begin

text \<open>
  Shared vocabulary of the development: the machine integer types of the Rust code, the
  three-way outcome of a Rust call (a value, an \<open>Err\<close>, a panic) with the \<open>?\<close> operator, early
  returning loops over collections, big-endian byte conversion, and the generic lemmas on
  lists, options and words that the component theories use.
\<close>

section \<open>Machine integers\<close>

type_synonym u8 = "8 word"
type_synonym u16 = "16 word"
type_synonym u32 = "32 word"
type_synonym u64 = "64 word"
type_synonym u128 = "128 word"
type_synonym usize = "64 word"

section \<open>Outcomes of Rust calls\<close>

text \<open>
  \<open>Ok\<close> and \<open>Err\<close> are the constructors of \<open>Result\<close>; \<open>Panic\<close> is an unwinding call (an
  out-of-range index, \<open>unwrap\<close> on \<open>None\<close>, \<open>unreachable!\<close>).
\<close>

datatype (outcome_err: 'e, outcome_ok: 'a) outcome = Ok 'a | Err 'e | Panic

named_theorems outcome_simps \<open>inversion of the outcome combinators\<close>

text \<open>The \<open>?\<close> operator.\<close>

fun and_then :: "('e, 'a) outcome \<Rightarrow> ('a \<Rightarrow> ('e, 'b) outcome) \<Rightarrow> ('e, 'b) outcome" where
  "and_then (Ok a) f = f a"
| "and_then (Err e) f = Err e"
| "and_then Panic f = Panic"

text \<open>\<open>Result::map_err\<close>; with an injection as its argument it is the \<open>From\<close> conversion of \<open>?\<close>.\<close>

fun map_err :: "('e \<Rightarrow> 'f) \<Rightarrow> ('e, 'a) outcome \<Rightarrow> ('f, 'a) outcome" where
  "map_err g (Ok a) = Ok a"
| "map_err g (Err e) = Err (g e)"
| "map_err g Panic = Panic"

text \<open>\<open>Option::ok_or\<close> and \<open>Option::unwrap\<close>.\<close>

definition ok_or :: "'e \<Rightarrow> 'a option \<Rightarrow> ('e, 'a) outcome" where
  "ok_or e x = (case x of Some a \<Rightarrow> Ok a | None \<Rightarrow> Err e)"

definition unwrap :: "'a option \<Rightarrow> ('e, 'a) outcome" where
  "unwrap x = (case x of Some a \<Rightarrow> Ok a | None \<Rightarrow> Panic)"

text \<open>A guard: \<open>if !b { return Err(e) }\<close>.\<close>

definition guard_oc :: "bool \<Rightarrow> 'e \<Rightarrow> ('e, unit) outcome" where
  "guard_oc b e = (if b then Ok () else Err e)"

text \<open>\<open>for x in xs\<close> with \<open>?\<close> in the body, and \<open>map\<close> followed by collecting the outcomes.\<close>

fun try_fold :: "('a \<Rightarrow> 's \<Rightarrow> ('e, 's) outcome) \<Rightarrow> 'a list \<Rightarrow> 's \<Rightarrow> ('e, 's) outcome" where
  "try_fold f [] s = Ok s"
| "try_fold f (x # xs) s = and_then (f x s) (try_fold f xs)"

fun try_map :: "('a \<Rightarrow> ('e, 'b) outcome) \<Rightarrow> 'a list \<Rightarrow> ('e, 'b list) outcome" where
  "try_map f [] = Ok []"
| "try_map f (x # xs) = and_then (f x) (\<lambda>y. and_then (try_map f xs) (\<lambda>ys. Ok (y # ys)))"

lemma and_then_eq_Ok [outcome_simps]:
  "and_then m f = Ok b \<longleftrightarrow> (\<exists>a. m = Ok a \<and> f a = Ok b)"
  by (cases m) auto

lemma and_then_eq_Err [outcome_simps]:
  "and_then m f = Err e \<longleftrightarrow> m = Err e \<or> (\<exists>a. m = Ok a \<and> f a = Err e)"
  by (cases m) auto

lemma and_then_eq_Panic [outcome_simps]:
  "and_then m f = Panic \<longleftrightarrow> m = Panic \<or> (\<exists>a. m = Ok a \<and> f a = Panic)"
  by (cases m) auto

lemma map_err_eq_Ok [outcome_simps]: "map_err g m = Ok a \<longleftrightarrow> m = Ok a"
  by (cases m) auto

lemma map_err_eq_Err [outcome_simps]: "map_err g m = Err e \<longleftrightarrow> (\<exists>e'. m = Err e' \<and> e = g e')"
  by (cases m) auto

lemma map_err_eq_Panic [outcome_simps]: "map_err g m = Panic \<longleftrightarrow> m = Panic"
  by (cases m) auto

lemma ok_or_eq_Ok [outcome_simps]: "ok_or e x = Ok a \<longleftrightarrow> x = Some a"
  by (auto simp: ok_or_def split: option.splits)

lemma ok_or_eq_Err [outcome_simps]: "ok_or e x = Err e' \<longleftrightarrow> x = None \<and> e' = e"
  by (auto simp: ok_or_def split: option.splits)

lemma ok_or_neq_Panic [outcome_simps]: "ok_or e x \<noteq> Panic"
  by (auto simp: ok_or_def split: option.splits)

lemma unwrap_eq_Ok [outcome_simps]: "unwrap x = Ok a \<longleftrightarrow> x = Some a"
  by (auto simp: unwrap_def split: option.splits)

lemma unwrap_neq_Err [outcome_simps]: "unwrap x \<noteq> Err e"
  by (auto simp: unwrap_def split: option.splits)

lemma unwrap_eq_Panic [outcome_simps]: "unwrap x = Panic \<longleftrightarrow> x = None"
  by (auto simp: unwrap_def split: option.splits)

lemma guard_oc_eq_Ok [outcome_simps]: "guard_oc b e = Ok u \<longleftrightarrow> b"
  by (auto simp: guard_oc_def)

lemma guard_oc_eq_Err [outcome_simps]: "guard_oc b e = Err e' \<longleftrightarrow> \<not> b \<and> e' = e"
  by (auto simp: guard_oc_def)

lemma guard_oc_neq_Panic [outcome_simps]: "guard_oc b e \<noteq> Panic"
  by (auto simp: guard_oc_def)

lemma try_map_eq_Ok [outcome_simps]:
  "try_map f xs = Ok ys \<longleftrightarrow> list_all2 (\<lambda>x y. f x = Ok y) xs ys"
  by (induction xs arbitrary: ys) (auto simp: and_then_eq_Ok list_all2_Cons1)

lemma try_map_total: "(\<And>x. x \<in> set xs \<Longrightarrow> f x = Ok (g x)) \<Longrightarrow> try_map f xs = Ok (map g xs)"
  by (induction xs) auto

lemma try_map_neq_Err: "(\<And>x e. x \<in> set xs \<Longrightarrow> f x \<noteq> Err e) \<Longrightarrow> try_map f xs \<noteq> Err e"
  by (induction xs) (auto simp: and_then_eq_Err)

lemma try_fold_invariant:
  assumes "try_fold f xs s = Ok t" and "P s"
    and "\<And>x s s'. x \<in> set xs \<Longrightarrow> P s \<Longrightarrow> f x s = Ok s' \<Longrightarrow> P s'"
  shows "P t"
  using assms by (induction xs arbitrary: s) (auto simp: and_then_eq_Ok)

section \<open>Big-endian bytes\<close>

text \<open>\<open>to_be_bytes\<close> and \<open>from_be_bytes\<close> of the Rust integer types, for a width of \<open>n\<close> bytes.\<close>

definition to_be_bytes :: "nat \<Rightarrow> 'a::len word \<Rightarrow> u8 list" where
  "to_be_bytes n w = map (\<lambda>i. ucast (drop_bit (8 * (n - 1 - i)) w)) [0..<n]"

definition from_be_bytes :: "u8 list \<Rightarrow> 'a::len word" where
  "from_be_bytes bs = word_of_int (horner_sum uint 256 (rev bs))"

lemma length_to_be_bytes [simp]: "length (to_be_bytes n w) = n"
  by (simp add: to_be_bytes_def)

lemma rev_to_be_bytes: "rev (to_be_bytes n w) = map (\<lambda>i. ucast (drop_bit (8 * i) w)) [0..<n]"
  by (rule nth_equalityI) (auto simp: to_be_bytes_def rev_nth)

lemma horner_sum_bytes:
  "horner_sum uint 256 (map (\<lambda>i. (ucast (drop_bit (8 * i) w) :: u8)) [0..<n])
   = uint (w :: 'a::len word) mod 2 ^ (8 * n)"
proof (induction n)
  case 0
  then show ?case by simp
next
  case (Suc n)
  have byte: "uint (ucast (drop_bit (8 * n) w) :: u8) = uint w div 2 ^ (8 * n) mod 256"
    by (simp add: unsigned_ucast_eq unsigned_drop_bit_eq) (simp add: drop_bit_eq_div take_bit_eq_mod)
  have pow: "(256 :: int) ^ n = 2 ^ (8 * n)" "(2 :: int) ^ (8 + 8 * n) = 2 ^ (8 * n) * 256"
    by (simp_all add: power_mult power_add)
  have "uint w mod (2 ^ (8 * n) * 256)
      = 2 ^ (8 * n) * (uint w div 2 ^ (8 * n) mod 256) + uint w mod 2 ^ (8 * n)"
    by (rule zmod_zmult2_eq) simp
  with Suc.IH byte show ?case
    by (simp add: horner_sum_append pow)
qed

lemma uint_from_be_bytes_to_be_bytes:
  "uint (from_be_bytes (to_be_bytes n w) :: 'b::len word)
   = uint (w :: 'a::len word) mod 2 ^ (8 * n) mod 2 ^ LENGTH('b)"
  by (simp add: from_be_bytes_def rev_to_be_bytes horner_sum_bytes uint_word_of_int)

text \<open>The two conversions are inverse at the width of the type.\<close>

lemma from_be_bytes_to_be_bytes [simp]:
  assumes "LENGTH('a) = 8 * n"
  shows "from_be_bytes (to_be_bytes n w) = (w :: 'a::len word)"
proof (rule word_uint_eqI)
  show "uint (from_be_bytes (to_be_bytes n w) :: 'a word) = uint w"
    using assms unsigned_less [of w, where 'a = int]
    by (simp add: uint_from_be_bytes_to_be_bytes)
qed

lemma horner_sum_bounds: "0 \<le> horner_sum uint 256 (ds :: u8 list) \<and> horner_sum uint 256 ds < 256 ^ length ds"
proof (induction ds)
  case Nil
  then show ?case by simp
next
  case (Cons d ds)
  have "uint d \<le> 255" "0 \<le> uint d"
    using unsigned_less [of d, where 'a = int] by simp_all
  with Cons show ?case
    by simp
qed

lemma horner_sum_digit:
  "k < length ds \<Longrightarrow> horner_sum uint 256 (ds :: u8 list) div 256 ^ k mod 256 = uint (ds ! k)"
proof (induction ds arbitrary: k)
  case Nil
  then show ?case by simp
next
  case (Cons d ds)
  have d: "0 \<le> uint d" "uint d < 256"
    using unsigned_less [of d, where 'a = int] by simp_all
  then have shift: "(uint d + 256 * m) div 256 = m" for m :: int
    by simp
  show ?case
  proof (cases k)
    case 0
    with d show ?thesis by simp
  next
    case (Suc k')
    have "(uint d + 256 * horner_sum uint 256 ds) div (256 * 256 ^ k')
        = horner_sum uint 256 ds div 256 ^ k'"
      using shift by (simp add: zdiv_zmult2_eq)
    with Suc Cons show ?thesis by simp
  qed
qed

lemma to_be_bytes_from_be_bytes [simp]:
  assumes "LENGTH('a) = 8 * n" and "length bs = n"
  shows "to_be_bytes n (from_be_bytes bs :: 'a::len word) = bs"
proof (rule nth_equalityI)
  fix i
  assume "i < length (to_be_bytes n (from_be_bytes bs :: 'a word))"
  then have i: "i < n" by simp
  let ?w = "from_be_bytes bs :: 'a word" and ?k = "n - 1 - i"
  have pow: "(2 :: int) ^ LENGTH('a) = 256 ^ n" "(2 :: int) ^ (8 * m) = 256 ^ m" for m
    by (simp_all add: assms(1) power_mult)
  have small: "horner_sum uint 256 (rev bs) mod 256 ^ n = horner_sum uint 256 (rev bs)"
    using horner_sum_bounds [of "rev bs"] assms(2) by simp
  then have "uint ?w = horner_sum uint 256 (rev bs)"
    by (simp add: from_be_bytes_def uint_word_of_int pow)
  then have "uint (ucast (drop_bit (8 * ?k) ?w) :: u8) = uint (rev bs ! ?k)"
    using i assms(2) horner_sum_digit [of ?k "rev bs"]
    by (simp add: unsigned_ucast_eq unsigned_drop_bit_eq) (simp add: drop_bit_eq_div take_bit_eq_mod pow small)
  moreover have "rev bs ! ?k = bs ! i"
    using i assms(2) by (simp add: rev_nth)
  ultimately show "to_be_bytes n ?w ! i = bs ! i"
    using i by (simp add: to_be_bytes_def word_uint_eqI)
qed (simp add: assms)

section \<open>Lists\<close>

text \<open>Position of the first element satisfying a predicate: \<open>Iterator::position\<close>.\<close>

fun position :: "('a \<Rightarrow> bool) \<Rightarrow> 'a list \<Rightarrow> nat option" where
  "position P [] = None"
| "position P (x # xs) = (if P x then Some 0 else map_option Suc (position P xs))"

lemma position_eq_None [simp]: "position P xs = None \<longleftrightarrow> (\<forall>x \<in> set xs. \<not> P x)"
  by (induction xs) auto

lemma position_eq_Some:
  "position P xs = Some i \<longleftrightarrow> i < length xs \<and> P (xs ! i) \<and> (\<forall>j < i. \<not> P (xs ! j))"
proof (induction xs arbitrary: i)
  case Nil
  then show ?case by simp
next
  case (Cons x xs)
  show ?case
    by (cases i) (auto simp: Cons.IH less_Suc_eq_0_disj split: if_splits)
qed

lemma in_set_take_iff: "y \<in> set (take k xs) \<longleftrightarrow> (\<exists>j < length xs. j < k \<and> xs ! j = y)"
  by (force simp: in_set_conv_nth)

text \<open>Indexed read: \<open>Vec::get\<close>.\<close>

definition list_get :: "'a list \<Rightarrow> nat \<Rightarrow> 'a option" where
  "list_get xs i = (if i < length xs then Some (xs ! i) else None)"

lemma list_get_eq_Some [simp]: "list_get xs i = Some x \<longleftrightarrow> i < length xs \<and> xs ! i = x"
  by (auto simp: list_get_def)

lemma list_get_eq_None [simp]: "list_get xs i = None \<longleftrightarrow> length xs \<le> i"
  by (auto simp: list_get_def)

lemma list_get_update:
  "list_get (xs[i := v]) j = (if i = j \<and> j < length xs then Some v else list_get xs j)"
  by (auto simp: list_get_def)

section \<open>Words as indices\<close>

lemma unat_u8_less [simp]: "unat (x :: u8) < 256"
  using unsigned_less [of x] by simp

lemma unat_of_nat_u8 [simp]: "n < 256 \<Longrightarrow> unat (of_nat n :: u8) = n"
  by (simp add: unat_of_nat)

lemma unat_of_nat_u16 [simp]: "n < 65536 \<Longrightarrow> unat (of_nat n :: u16) = n"
  by (simp add: unat_of_nat)

lemma unat_u16_less [simp]: "unat (x :: u16) < 65536"
  using unsigned_less [of x] by simp

lemma unat_ucast_mod: "unat (ucast (x :: 'a::len word) :: 'b::len word) = unat x mod 2 ^ LENGTH('b)"
  by (simp only: unsigned_ucast_eq take_bit_eq_mod)

section \<open>Time\<close>

text \<open>
  \<open>std::time::Duration\<close> is a number of nanoseconds; \<open>time::OffsetDateTime\<close> is the number of
  nanoseconds since the UNIX epoch. Adding a duration is exact (the \<open>time\<close> crate panics outside
  the years -9999 to 9999, which the model leaves out).
\<close>

type_synonym duration = nat
type_synonym datetime = int

definition duration_from_secs :: "nat \<Rightarrow> duration" where
  "duration_from_secs n = n * 1000000000"

definition duration_from_millis :: "nat \<Rightarrow> duration" where
  "duration_from_millis n = n * 1000000"

definition as_millis :: "duration \<Rightarrow> nat" where
  "as_millis d = d div 1000000"

lemma as_millis_from_millis [simp]: "as_millis (duration_from_millis n) = n"
  by (simp add: as_millis_def duration_from_millis_def)

section \<open>Third-party codecs\<close>

text \<open>
  A serialiser and its deserialiser (\<open>postcard\<close>), as a pair of functions with the text of the
  error. What the code relies on is that a serialised value is read back.
\<close>

record 'a codec =
  codec_ser :: "'a \<Rightarrow> (string, u8 list) outcome"
  codec_de :: "u8 list \<Rightarrow> (string, 'a) outcome"

definition codec_reads_back :: "'a codec \<Rightarrow> 'a \<Rightarrow> bool" where
  "codec_reads_back c x \<longleftrightarrow> (case codec_ser c x of Ok bs \<Rightarrow> codec_de c bs = Ok x | _ \<Rightarrow> False)"

lemma codec_reads_backE:
  assumes "codec_reads_back c x"
  obtains bs where "codec_ser c x = Ok bs" and "codec_de c bs = Ok x"
  using assms by (auto simp: codec_reads_back_def split: outcome.splits)

end
