(* ===== verification/Sharding.thy ===== *)
theory Sharding
  imports WCN_Prelude "HOL-Library.Product_Lexorder"
begin

text \<open>
  Model of \<open>crates/sharding\<close>: the mapping of 64-bit keys to shards (\<open>ShardId\<close>) and the
  assignment of replicas to shards by rendezvous hashing (\<open>Keyspace::new\<close>). The hasher
  (\<open>build_hasher.hash_one\<close>, a third-party hash) is the parameter \<open>hash_one\<close>; a replication
  strategy is its \<open>is_suitable_replica\<close> as a function on the strategy's own state.
\<close>

section \<open>Shard identifiers\<close>

datatype ShardId = ShardId u16

definition from_key :: "u64 \<Rightarrow> ShardId" where
  "from_key key = ShardId (from_be_bytes (take 2 (to_be_bytes 8 key)))"

fun key_range :: "ShardId \<Rightarrow> u64 \<times> u64" where
  "key_range (ShardId s) =
     (let lo = push_bit 48 (ucast s);
          hi = (if s = 65535 then 18446744073709551615 else push_bit 48 (ucast s + 1) - 1)
      in (lo, hi))"

text \<open>\<open>RangeInclusive::contains\<close>.\<close>

definition in_range :: "'a::linorder \<times> 'a \<Rightarrow> 'a \<Rightarrow> bool" where
  "in_range r x \<longleftrightarrow> fst r \<le> x \<and> x \<le> snd r"

section \<open>Keyspaces\<close>

record 'n Shard =
  replicas :: "'n list"

record 'n ShardingKeyspace =
  nodes_count :: nat
  shards :: "'n Shard list"

datatype ShardingError = InvalidNodesCount nat | IncompleteReplicaSet

text \<open>
  The inner \<open>loop\<close>: starting at the cursor, the next node of the priority queue that the
  strategy accepts, with the strategy's new state and the queue behind the new cursor.
\<close>

fun next_suitable ::
  "('n \<Rightarrow> 's \<Rightarrow> bool \<times> 's) \<Rightarrow> 's \<Rightarrow> (u64 \<times> 'n) list \<Rightarrow> ('n \<times> 's \<times> (u64 \<times> 'n) list) option" where
  "next_suitable suit s [] = None"
| "next_suitable suit s ((score, node) # queue) =
     (let (ok, s') = suit node s in
      if ok then Some (node, s', queue) else next_suitable suit s' queue)"

text \<open>The loop over the replica slots of one shard.\<close>

fun fill_replicas ::
  "('n \<Rightarrow> 's \<Rightarrow> bool \<times> 's) \<Rightarrow> 's \<Rightarrow> (u64 \<times> 'n) list \<Rightarrow> nat \<Rightarrow> (ShardingError, 'n list) outcome" where
  "fill_replicas suit s queue 0 = Ok []"
| "fill_replicas suit s queue (Suc k) =
     (case next_suitable suit s queue of
        None \<Rightarrow> Err IncompleteReplicaSet
      | Some (node, s', queue') \<Rightarrow>
          and_then (fill_replicas suit s' queue' k) (\<lambda>rest. Ok (node # rest)))"

text \<open>
  The loop over the shards. The priority queue is shared by all iterations: each one
  rewrites the scores in place and sorts it again.
\<close>

definition rescore ::
  "('n::linorder \<times> nat \<Rightarrow> u64) \<Rightarrow> nat \<Rightarrow> (u64 \<times> 'n) list \<Rightarrow> (u64 \<times> 'n) list" where
  "rescore hash_one shard_idx queue =
     sort (map (\<lambda>(score, node). (hash_one (node, shard_idx), node)) queue)"

fun fill_shards ::
  "nat \<Rightarrow> ('n::linorder \<times> nat \<Rightarrow> u64) \<Rightarrow> ('n \<Rightarrow> 's \<Rightarrow> bool \<times> 's) \<Rightarrow> 's \<Rightarrow> (u64 \<times> 'n) list \<Rightarrow> nat list
   \<Rightarrow> (ShardingError, 'n Shard list) outcome" where
  "fill_shards RF hash_one suit s0 queue [] = Ok []"
| "fill_shards RF hash_one suit s0 queue (shard_idx # idxs) =
     (let queue' = rescore hash_one shard_idx queue in
      and_then (fill_replicas suit s0 queue' RF)
        (\<lambda>reps. and_then (fill_shards RF hash_one suit s0 queue' idxs)
          (\<lambda>rest. Ok (\<lparr>replicas = reps\<rparr> # rest))))"

text \<open>\<open>u16::MAX as usize + 1\<close>.\<close>

definition n_shards :: nat where
  "n_shards = unat (65535 :: u16) + 1"

definition ShardingKeyspace_new ::
  "nat \<Rightarrow> 'n::linorder list \<Rightarrow> ('n \<times> nat \<Rightarrow> u64) \<Rightarrow> ('n \<Rightarrow> 's \<Rightarrow> bool \<times> 's) \<Rightarrow> 's
   \<Rightarrow> (ShardingError, 'n ShardingKeyspace) outcome" where
  "ShardingKeyspace_new RF nodes hash_one suit s0 =
     (let nodes = remdups nodes; count = length nodes in
      if count < RF then Err (InvalidNodesCount RF)
      else and_then (fill_shards RF hash_one suit s0 (map (\<lambda>n. (0, n)) nodes) [0..<n_shards])
             (\<lambda>shs. Ok \<lparr>nodes_count = count, shards = shs\<rparr>))"

definition shard_replicas :: "'n ShardingKeyspace \<Rightarrow> ShardId \<Rightarrow> ('e, 'n list) outcome" where
  "shard_replicas ks sid =
     (case sid of ShardId i \<Rightarrow>
        and_then (unwrap (list_get (shards ks) (unat i))) (\<lambda>sh. Ok (replicas sh)))"

definition ShardingKeyspace_shards :: "'n ShardingKeyspace \<Rightarrow> (ShardId \<times> 'n list) list" where
  "ShardingKeyspace_shards ks =
     map (\<lambda>(idx, sh). (ShardId (of_nat idx), replicas sh)) (enumerate 0 (shards ks))"

text \<open>\<open>DefaultReplicationStrategy\<close> is a unit struct: its state is \<open>()\<close>.\<close>

definition default_is_suitable_replica :: "'n \<Rightarrow> unit \<Rightarrow> bool \<times> unit" where
  "default_is_suitable_replica node s = (True, s)"

section \<open>The key space is partitioned by the shards\<close>

lemma n_shards_eq: "n_shards = 65536"
  by (simp add: n_shards_def)

lemma shard_less_n_shards [simp]: "unat (s :: u16) < n_shards"
  by (simp add: n_shards_eq)

lemma take_2_to_be_bytes:
  "take 2 (to_be_bytes 8 (key :: u64)) = to_be_bytes 2 (drop_bit 48 key)"
  by (simp add: to_be_bytes_def take_map upt_rec numeral_2_eq_2 drop_bit_drop_bit)

lemma unat_drop_48: "unat (drop_bit 48 (key :: u64)) = unat key div 2 ^ 48"
  by (subst unat_drop_bit_eq) (rule drop_bit_eq_div)

lemma unat_key_div_less: "unat (key :: u64) div 2 ^ 48 < 2 ^ 16"
  using unsigned_less [of key, where 'a = nat] by (simp add: less_mult_imp_div_less)

lemma from_key_eq: "from_key key = ShardId s \<longleftrightarrow> unat s = unat key div 2 ^ 48"
proof -
  have "uint (drop_bit 48 key) = int (unat key div 2 ^ 48)"
    by (simp only: uint_nat unat_drop_48)
  moreover have "int (unat key div 2 ^ 48) mod 2 ^ 16 = int (unat key div 2 ^ 48)"
    using unat_key_div_less [of key] by (intro mod_pos_pos_trivial) simp_all
  ultimately have "uint (from_be_bytes (take 2 (to_be_bytes 8 key)) :: u16) = int (unat key div 2 ^ 48)"
    by (simp add: take_2_to_be_bytes uint_from_be_bytes_to_be_bytes)
  then have "unat (from_be_bytes (take 2 (to_be_bytes 8 key)) :: u16) = unat key div 2 ^ 48"
    by (simp only: unat_eq_nat_uint nat_int)
  then show ?thesis
    by (auto simp: from_key_def word_unat_eq_iff)
qed

lemma unat_shift_48: "unat w < 2 ^ 16 \<Longrightarrow> unat (push_bit 48 (w :: u64)) = unat w * 2 ^ 48"
  by (subst unsigned_push_bit_eq) (simp add: push_bit_eq_mult take_bit_eq_mod)

lemma unat_shard_as_u64: "unat (ucast (s :: u16) :: u64) = unat s"
  by (simp add: unsigned_ucast_eq take_bit_eq_mod less_le_trans [OF unat_u16_less])

lemma unat_key_range_lo: "unat (fst (key_range (ShardId s))) = unat s * 2 ^ 48"
  by (simp add: Let_def unat_shift_48 unat_shard_as_u64)

lemma unat_key_range_hi: "unat (snd (key_range (ShardId s))) = unat s * 2 ^ 48 + (2 ^ 48 - 1)"
proof (cases "s = 65535")
  case True
  then show ?thesis by simp
next
  case False
  then have "unat s \<noteq> 65535"
    by (simp add: word_unat_eq_iff)
  with unat_u16_less [of s] have less: "unat s + 1 < 65536"
    by arith
  then have suc: "unat (ucast s + 1 :: u64) = unat s + 1"
    by (simp add: unat_word_ariths unat_shard_as_u64)
  then have shifted: "unat (push_bit 48 (ucast s + 1 :: u64)) = (unat s + 1) * 2 ^ 48"
    using less by (simp add: unat_shift_48)
  then have "(1 :: u64) \<le> push_bit 48 (ucast s + 1)"
    by (simp add: word_le_nat_alt)
  with False shifted show ?thesis
    by (simp add: Let_def unat_sub)
qed

lemma in_key_range_iff: "in_range (key_range sid) key \<longleftrightarrow> from_key key = sid"
proof (cases sid)
  case (ShardId s)
  have "in_range (key_range sid) key
      \<longleftrightarrow> unat s * 2 ^ 48 \<le> unat key \<and> unat key \<le> unat s * 2 ^ 48 + (2 ^ 48 - 1)"
    unfolding ShardId in_range_def word_le_nat_alt unat_key_range_lo unat_key_range_hi ..
  also have "\<dots> \<longleftrightarrow> unat key div 2 ^ 48 = unat s"
    by (auto simp: div_nat_eqI)
  finally show ?thesis
    unfolding ShardId from_key_eq by (simp only: eq_commute)
qed

text \<open>
  C20. Shards partition the key space: a key lies in the key range of a shard exactly when
  \<open>ShardId::from_key\<close> maps it to that shard. So every 64-bit key is in the range of one and only
  one of the 65536 shards, the last shard (whose end is \<open>u64::MAX\<close>) included.
\<close>

theorem key_range_partition:
  "in_range (key_range sid) key \<longleftrightarrow> sid = from_key key"
  by (auto simp: in_key_range_iff)

section \<open>Rendezvous hashing\<close>

text \<open>
  Reference definition: the nodes in the order of their pairs of score and node. It depends on
  the set of nodes only.
\<close>

definition scored :: "('n \<times> nat \<Rightarrow> u64) \<Rightarrow> nat \<Rightarrow> 'n \<Rightarrow> u64 \<times> 'n" where
  "scored hash_one shard_idx node = (hash_one (node, shard_idx), node)"

definition rendezvous :: "('n::linorder \<times> nat \<Rightarrow> u64) \<Rightarrow> 'n set \<Rightarrow> nat \<Rightarrow> 'n list" where
  "rendezvous hash_one nodes shard_idx =
     map snd (sorted_list_of_set (scored hash_one shard_idx ` nodes))"

lemma inj_scored: "inj_on (scored h i) A"
  by (auto simp: inj_on_def scored_def)

lemma snd_scored [simp]: "snd (scored h i n) = n"
  by (simp add: scored_def)

lemma rescore_eq:
  assumes "distinct (map snd queue)"
  shows "rescore h i queue = sorted_list_of_set (scored h i ` set (map snd queue))"
proof -
  have eq: "map (\<lambda>(score, node). (h (node, i), node)) queue = map (scored h i) (map snd queue)"
    by (auto simp: scored_def)
  have "distinct (map (scored h i) (map snd queue))"
    using assms inj_scored by (subst distinct_map) auto
  then show ?thesis
    unfolding rescore_def eq
    by (simp add: sorted_list_of_set_sort_remdups distinct_remdups_id flip: set_map del: set_map map_map)
qed

lemma map_snd_rescore:
  assumes "distinct (map snd queue)"
  shows "map snd (rescore h i queue) = rendezvous h (set (map snd queue)) i"
  by (simp add: rescore_eq [OF assms] rendezvous_def)

lemma set_rendezvous [simp]: "finite N \<Longrightarrow> set (rendezvous h N i) = N"
  by (simp add: rendezvous_def image_image)

lemma length_rendezvous [simp]: "length (rendezvous h N i) = card N"
  by (simp add: rendezvous_def card_image inj_scored)

lemma distinct_rendezvous [simp]: "distinct (rendezvous h N i)"
proof (cases "finite N")
  case True
  then show ?thesis
    by (intro card_distinct) simp
next
  case False
  then have "infinite (scored h i ` N)"
    by (simp add: finite_image_iff inj_scored)
  then show ?thesis
    by (simp add: rendezvous_def)
qed

text \<open>
  What the code relies on in a replication strategy: that it accepts every node it is asked
  about. The trait allows others; the one the cluster uses is the default one.
\<close>

locale accepting_strategy =
  fixes suit :: "'n::linorder \<Rightarrow> 's \<Rightarrow> bool \<times> 's"
  assumes accepts: "fst (suit node s)"
begin

lemma next_suitable_accepts:
  "next_suitable suit s ((score, node) # queue) = Some (node, snd (suit node s), queue)"
  using accepts [of node s] by (simp add: case_prod_beta)

lemma fill_replicas_accepts:
  "k \<le> length queue \<Longrightarrow> fill_replicas suit s queue k = Ok (take k (map snd queue))"
proof (induction k arbitrary: s queue)
  case 0
  then show ?case by simp
next
  case (Suc k)
  then obtain score node rest where "queue = (score, node) # rest"
    by (cases queue) auto
  with Suc show ?case
    by (simp add: next_suitable_accepts del: next_suitable.simps)
qed

lemma fill_replicas_short:
  "length queue < k \<Longrightarrow> fill_replicas suit s queue k = Err IncompleteReplicaSet"
proof (induction k arbitrary: s queue)
  case 0
  then show ?case by simp
next
  case (Suc k)
  show ?case
  proof (cases queue)
    case Nil
    then show ?thesis by simp
  next
    case (Cons e rest)
    with Suc show ?thesis
      by (cases e) (simp add: next_suitable_accepts del: next_suitable.simps)
  qed
qed

lemma fill_shards_accepts:
  assumes "distinct (map snd queue)" and "RF \<le> length queue"
  shows "fill_shards RF h suit s queue idxs
    = Ok (map (\<lambda>i. \<lparr>replicas = take RF (rendezvous h (set (map snd queue)) i)\<rparr>) idxs)"
  using assms
proof (induction idxs arbitrary: queue)
  case Nil
  then show ?case by simp
next
  case (Cons i idxs)
  let ?q = "rescore h i queue"
  note snd_q = map_snd_rescore [OF Cons.prems(1), of h i]
  have distinct: "distinct (map snd ?q)" and set: "set (map snd ?q) = set (map snd queue)"
    unfolding snd_q by simp_all
  have len: "RF \<le> length ?q"
    using Cons.prems(2) by (simp add: rescore_def)
  show ?case
    using Cons.IH [OF distinct len] fill_replicas_accepts [OF len, of s]
    by (simp add: Let_def snd_q set del: set_map)
qed

lemma new_accepts:
  assumes "RF \<le> card (set nodes)"
  shows "ShardingKeyspace_new RF nodes h suit s
    = Ok \<lparr>nodes_count = card (set nodes),
          shards = map (\<lambda>i. \<lparr>replicas = take RF (rendezvous h (set nodes) i)\<rparr>) [0..<n_shards]\<rparr>"
proof -
  have "map snd (map (\<lambda>n. (0 :: u64, n)) (remdups nodes)) = remdups nodes"
    by (simp add: comp_def)
  with assms show ?thesis
    by (simp add: ShardingKeyspace_new_def Let_def fill_shards_accepts length_remdups_card_conv
        image_image)
qed

lemma new_too_few:
  "card (set nodes) < RF \<Longrightarrow> ShardingKeyspace_new RF nodes h suit s = Err (InvalidNodesCount RF)"
  by (simp add: ShardingKeyspace_new_def Let_def length_remdups_card_conv)

end

interpretation default_strategy: accepting_strategy default_is_suitable_replica
  by unfold_locales (simp add: default_is_suitable_replica_def)

text \<open>
  C21. \<open>Keyspace::new\<close> with the default strategy computes the reference assignment: it fails
  exactly when there are fewer distinct nodes than the replication factor, and otherwise gives
  each of the 65536 shards the first \<open>RF\<close> nodes in the order of their (hash, node) pairs. The
  result is a function of the set of nodes: neither the iteration order of the hash set nor the
  reuse of one priority queue for all shards shows in it.
\<close>

theorem sharding_new_spec:
  "ShardingKeyspace_new RF nodes h default_is_suitable_replica s =
     (if card (set nodes) < RF then Err (InvalidNodesCount RF)
      else Ok \<lparr>nodes_count = card (set nodes),
               shards = map (\<lambda>i. \<lparr>replicas = take RF (rendezvous h (set nodes) i)\<rparr>) [0..<n_shards]\<rparr>)"
  using default_strategy.new_accepts [of RF nodes h s] default_strategy.new_too_few [of nodes RF h s]
  by simp

lemma shard_replicas_new:
  assumes "ShardingKeyspace_new RF nodes h default_is_suitable_replica s = Ok ks"
  shows "shard_replicas ks (ShardId i) = Ok (take RF (rendezvous h (set nodes) (unat i)))"
    and "RF \<le> card (set nodes)"
proof -
  have "\<not> card (set nodes) < RF"
    using assms default_strategy.new_too_few [of nodes RF h s] by auto
  then show "RF \<le> card (set nodes)"
    by simp
  then have "shards ks = map (\<lambda>i. \<lparr>replicas = take RF (rendezvous h (set nodes) i)\<rparr>) [0..<n_shards]"
    using assms default_strategy.new_accepts [of RF nodes h s] by auto
  then show "shard_replicas ks (ShardId i) = Ok (take RF (rendezvous h (set nodes) (unat i)))"
    by (simp add: shard_replicas_def list_get_def unwrap_def)
qed

lemma replicas_of_rendezvous:
  assumes "finite N" and "RF \<le> card N"
  shows "distinct (take RF (rendezvous h N i))" and "length (take RF (rendezvous h N i)) = RF"
    and "set (take RF (rendezvous h N i)) \<subseteq> N"
    and "card (set (take RF (rendezvous h N i))) = RF"
proof -
  show "distinct (take RF (rendezvous h N i))"
    by simp
  moreover show "length (take RF (rendezvous h N i)) = RF"
    using assms by simp
  ultimately show "card (set (take RF (rendezvous h N i))) = RF"
    using distinct_card by fastforce
  show "set (take RF (rendezvous h N i)) \<subseteq> N"
    using set_take_subset set_rendezvous [OF assms(1)] by fast
qed

text \<open>
  C22. Every key has a full replica set: in a keyspace built by \<open>Keyspace::new\<close>, looking up the
  replicas of the shard of any key never indexes out of range, and the answer is \<open>RF\<close> different
  nodes of the node set the keyspace was built from.
\<close>

theorem sharding_replica_set_complete:
  assumes "ShardingKeyspace_new RF nodes h default_is_suitable_replica s = Ok ks"
  shows "\<exists>rs. shard_replicas ks (from_key key) = (Ok rs :: ('e, _) outcome)
           \<and> distinct rs \<and> length rs = RF \<and> set rs \<subseteq> set nodes"
proof -
  obtain i where "from_key key = ShardId i"
    by (cases "from_key key")
  then show ?thesis
    using replicas_of_rendezvous [of "set nodes" RF h "unat i"] shard_replicas_new(2) [OF assms]
    by (simp add: shard_replicas_new(1) [OF assms])
qed

theorem sharding_replica_set_complete_witness:
  "\<exists>ks rs. ShardingKeyspace_new 2 [7, 3, 9 :: nat] (\<lambda>(n, i). of_nat (n * i)) default_is_suitable_replica () = Ok ks
     \<and> shard_replicas ks (from_key 42) = (Ok rs :: (unit, _) outcome) \<and> distinct rs \<and> length rs = 2 \<and> set rs \<subseteq> {3, 7, 9}"
proof -
  obtain ks where "ShardingKeyspace_new 2 [7, 3, 9 :: nat] (\<lambda>(n, i). of_nat (n * i))
      default_is_suitable_replica () = Ok ks"
    using default_strategy.new_accepts [of 2 "[7, 3, 9 :: nat]"] by simp
  from this sharding_replica_set_complete [where ?'e = unit, OF this, of 42] show ?thesis
    by auto
qed

section \<open>Minimal disruption\<close>

lemma less_nth_eq_take:
  fixes xs :: "'a::linorder list"
  assumes "sorted_wrt (<) xs" and "i < length xs"
  shows "{y \<in> set xs. y < xs ! i} = set (take i xs)"
proof (rule set_eqI)
  fix y
  have mono: "xs ! j < xs ! k" if "j < k" "k < length xs" for j k
    using assms(1) that by (simp add: sorted_wrt_iff_nth_less)
  have "xs ! j < xs ! i \<longleftrightarrow> j < i" if "j < length xs" for j
    using mono [of j i] mono [of i j] assms(2) that by (cases j i rule: linorder_cases) auto
  then have "y \<in> set xs \<and> y < xs ! i \<longleftrightarrow> (\<exists>j < length xs. j < i \<and> xs ! j = y)"
    by (metis in_set_conv_nth)
  also have "\<dots> \<longleftrightarrow> y \<in> set (take i xs)"
    by (simp add: in_set_take_iff)
  finally show "y \<in> {y \<in> set xs. y < xs ! i} \<longleftrightarrow> y \<in> set (take i xs)"
    by simp
qed

lemma in_take_sorted_iff:
  fixes xs :: "'a::linorder list"
  assumes "sorted_wrt (<) xs"
  shows "x \<in> set (take k xs) \<longleftrightarrow> x \<in> set xs \<and> card {y \<in> set xs. y < x} < k"
proof -
  have distinct: "distinct xs"
    using assms by (simp only: strict_sorted_iff)
  show ?thesis
  proof (cases "x \<in> set xs")
    case True
    then obtain i where i: "i < length xs" "x = xs ! i"
      unfolding in_set_conv_nth by blast
    have "card {y \<in> set xs. y < x} = i"
      using i distinct by (simp only: less_nth_eq_take [OF assms] distinct_card distinct_take length_take)
    moreover have "x \<in> set (take k xs) \<longleftrightarrow> i < k"
      using i distinct by (auto simp: in_set_take_iff nth_eq_iff_index_eq)
    ultimately show ?thesis
      using True by simp
  next
    case False
    then show ?thesis
      using set_take_subset [of k xs] by blast
  qed
qed

text \<open>The nodes that come before a node in the order of one shard.\<close>

definition closer :: "('n::linorder \<times> nat \<Rightarrow> u64) \<Rightarrow> nat \<Rightarrow> 'n set \<Rightarrow> 'n \<Rightarrow> 'n set" where
  "closer h i N n = {m \<in> N. scored h i m < scored h i n}"

lemma in_snd_scored:
  assumes "A \<subseteq> scored h i ` N"
  shows "n \<in> snd ` A \<longleftrightarrow> scored h i n \<in> A"
proof
  assume "n \<in> snd ` A"
  then obtain e where "e \<in> A" and "n = snd e"
    by blast
  moreover from this assms obtain m where "e = scored h i m"
    by blast
  ultimately show "scored h i n \<in> A"
    by simp
next
  assume "scored h i n \<in> A"
  then show "n \<in> snd ` A"
    by (metis image_eqI snd_scored)
qed

lemma replicas_rank:
  assumes "finite N"
  shows "n \<in> set (take RF (rendezvous h N i)) \<longleftrightarrow> n \<in> N \<and> card (closer h i N n) < RF"
proof -
  let ?xs = "sorted_list_of_set (scored h i ` N)"
  have set: "set ?xs = scored h i ` N"
    using assms by simp
  have "set (take RF ?xs) \<subseteq> scored h i ` N"
    using set set_take_subset [of RF ?xs] by simp
  then have "n \<in> set (take RF (rendezvous h N i)) \<longleftrightarrow> scored h i n \<in> set (take RF ?xs)"
    by (simp only: rendezvous_def take_map set_map in_snd_scored)
  also have "\<dots> \<longleftrightarrow> scored h i n \<in> scored h i ` N \<and> card {y \<in> scored h i ` N. y < scored h i n} < RF"
    by (subst in_take_sorted_iff) (simp_all only: set strict_sorted_list_of_set)
  also have "{y \<in> scored h i ` N. y < scored h i n} = scored h i ` closer h i N n"
    by (auto simp: closer_def)
  finally show ?thesis
    by (simp add: card_image inj_scored inj_on_image_mem_iff [OF inj_scored [of h i UNIV]])
qed

lemma replicas_insert_subset:
  assumes "finite N"
  shows "set (take RF (rendezvous h (insert x N) i)) \<subseteq> insert x (set (take RF (rendezvous h N i)))"
proof
  fix n
  assume n: "n \<in> set (take RF (rendezvous h (insert x N) i))"
  have "card (closer h i N n) \<le> card (closer h i (insert x N) n)"
    using assms by (intro card_mono) (auto simp: closer_def)
  with n assms show "n \<in> insert x (set (take RF (rendezvous h N i)))"
    by (auto simp: replicas_rank)
qed

lemma card_Diff_sym:
  assumes "finite A" "finite B" "card A = card B"
  shows "card (A - B) = card (B - A)"
  using assms by (metis card_Diff_subset_Int finite_Int inf_commute)

text \<open>
  C23. Rendezvous hashing moves as little as possible: when one node joins a node set, a shard's
  new replicas are its old ones and at most the joining node, and at most one old replica leaves
  the shard (read backwards: when a node leaves, only it is replaced).
\<close>

theorem sharding_minimal_disruption:
  assumes "ShardingKeyspace_new RF nodes h default_is_suitable_replica s = Ok old"
    and "ShardingKeyspace_new RF (x # nodes) h default_is_suitable_replica s = Ok new"
    and "shard_replicas old sid = (Ok rs :: ('e, _) outcome)" and "shard_replicas new sid = (Ok rs' :: ('e, _) outcome)"
  shows "set rs' - set rs \<subseteq> {x} \<and> card (set rs - set rs') \<le> 1"
proof -
  obtain i where sid: "sid = ShardId i"
    by (cases sid)
  have rs: "rs = take RF (rendezvous h (set nodes) (unat i))" and "RF \<le> card (set nodes)"
    using shard_replicas_new(2) [OF assms(1)] assms(3) sid by (auto simp: shard_replicas_new(1) [OF assms(1)])
  moreover have rs': "rs' = take RF (rendezvous h (insert x (set nodes)) (unat i))"
    and "RF \<le> card (insert x (set nodes))"
    using shard_replicas_new(2) [OF assms(2)] assms(4) sid by (auto simp: shard_replicas_new(1) [OF assms(2)])
  ultimately have "card (set rs) = card (set rs')"
    using replicas_of_rendezvous(4) [of "set nodes" RF h "unat i"]
      replicas_of_rendezvous(4) [of "insert x (set nodes)" RF h "unat i"] by simp
  then have card: "card (set rs - set rs') = card (set rs' - set rs)"
    by (intro card_Diff_sym) simp_all
  have sub: "set rs' - set rs \<subseteq> {x}"
    using replicas_insert_subset [of "set nodes" RF h x "unat i"] rs rs' by auto
  then have "card (set rs' - set rs) \<le> 1"
    using card_mono [of "{x}" "set rs' - set rs"] by simp
  with sub card show ?thesis
    by simp
qed

theorem sharding_minimal_disruption_witness:
  "\<exists>old new rs rs'.
     ShardingKeyspace_new 2 [7, 3, 9 :: nat] (\<lambda>(n, i). of_nat (n * i)) default_is_suitable_replica () = Ok old
     \<and> ShardingKeyspace_new 2 [4, 7, 3, 9] (\<lambda>(n, i). of_nat (n * i)) default_is_suitable_replica () = Ok new
     \<and> shard_replicas old (ShardId 5) = (Ok rs :: (unit, _) outcome)
     \<and> shard_replicas new (ShardId 5) = (Ok rs' :: (unit, _) outcome)
     \<and> set rs' - set rs \<subseteq> {4} \<and> card (set rs - set rs') \<le> 1"
proof -
  let ?h = "\<lambda>(n, i). of_nat (n * i) :: u64"
  obtain old where old: "ShardingKeyspace_new 2 [7, 3, 9 :: nat] ?h default_is_suitable_replica () = Ok old"
    using default_strategy.new_accepts [of 2 "[7, 3, 9 :: nat]"] by simp
  obtain new where new: "ShardingKeyspace_new 2 [4, 7, 3, 9 :: nat] ?h default_is_suitable_replica () = Ok new"
    using default_strategy.new_accepts [of 2 "[4, 7, 3, 9 :: nat]"] by simp
  from old new sharding_minimal_disruption [where ?'e = unit, OF old new, of "ShardId 5"] show ?thesis
    by (auto simp: shard_replicas_new(1) [OF old] shard_replicas_new(1) [OF new])
qed

end
