(* ===== verification/Smart_Contract.thy ===== *)
theory Smart_Contract
  imports WCN_Prelude
begin

text \<open>
  Model of the data types of \<open>crates/cluster/src/smart_contract\<close>: the on-chain representation of
  the cluster (\<open>mod.rs\<close>) and the events it emits (\<open>event.rs\<close>). A \<open>HashSet\<close> is a set; an
  account address (20 bytes) is the 160-bit word with these bytes.
\<close>

section \<open>On-chain representation\<close>

type_synonym AccountAddress = "160 word"
type_synonym operator_id = AccountAddress
type_synonym operator_idx = u8
type_synonym migration_ident = u64
type_synonym cluster_version = u128
type_synonym keyspace_version = u64

record ScSettings =
  sc_max_node_operator_data_bytes :: u16
  sc_extra :: "u8 list"

record ScNodeOperator =
  sc_operator_id :: operator_id
  sc_operator_data :: "u8 list"

record ScKeyspace =
  sc_keyspace_operators :: "operator_idx set"
  sc_replication_strategy :: u8

record ScMigration =
  sc_migration_id :: u64
  sc_pulling_operators :: "operator_idx set"
  sc_started_at :: u64
  sc_aborted_at :: "u64 option"

record ScMaintenance =
  sc_slot :: "AccountAddress option"

record ScClusterView =
  sc_owner :: AccountAddress
  sc_settings :: ScSettings
  sc_node_operators :: "ScNodeOperator option list"
  sc_keyspaces :: "ScKeyspace \<times> ScKeyspace"
  sc_keyspace_version :: u64
  sc_migration :: ScMigration
  sc_maintenance :: ScMaintenance
  sc_cluster_version :: u128

section \<open>Events\<close>

record MigrationStarted =
  ms_migration_id :: migration_ident
  ms_new_keyspace :: ScKeyspace
  ms_at :: u64
  ms_cluster_version :: cluster_version

record MigrationDataPullCompleted =
  mp_migration_id :: migration_ident
  mp_operator_id :: operator_id
  mp_cluster_version :: cluster_version

record MigrationCompleted =
  mc_migration_id :: migration_ident
  mc_operator_id :: operator_id
  mc_cluster_version :: cluster_version

record MigrationAborted =
  ma_migration_id :: migration_ident
  ma_at :: u64
  ma_cluster_version :: cluster_version

record MaintenanceStarted =
  mts_by :: AccountAddress
  mts_cluster_version :: cluster_version

record MaintenanceFinished =
  mtf_cluster_version :: cluster_version

record NodeOperatorAdded =
  noa_idx :: operator_idx
  noa_operator :: ScNodeOperator
  noa_cluster_version :: cluster_version

record NodeOperatorUpdated =
  nou_operator :: ScNodeOperator
  nou_cluster_version :: cluster_version

record NodeOperatorRemoved =
  nor_id :: operator_id
  nor_cluster_version :: cluster_version

record SettingsUpdated =
  su_settings :: ScSettings
  su_cluster_version :: cluster_version

datatype Event =
    EvMigrationStarted MigrationStarted
  | EvMigrationDataPullCompleted MigrationDataPullCompleted
  | EvMigrationCompleted MigrationCompleted
  | EvMigrationAborted MigrationAborted
  | EvMaintenanceStarted MaintenanceStarted
  | EvMaintenanceFinished MaintenanceFinished
  | EvNodeOperatorAdded NodeOperatorAdded
  | EvNodeOperatorUpdated NodeOperatorUpdated
  | EvNodeOperatorRemoved NodeOperatorRemoved
  | EvSettingsUpdated SettingsUpdated

fun event_cluster_version :: "Event \<Rightarrow> cluster_version" where
  "event_cluster_version (EvMigrationStarted evt) = ms_cluster_version evt"
| "event_cluster_version (EvMigrationDataPullCompleted evt) = mp_cluster_version evt"
| "event_cluster_version (EvMigrationCompleted evt) = mc_cluster_version evt"
| "event_cluster_version (EvMigrationAborted evt) = ma_cluster_version evt"
| "event_cluster_version (EvMaintenanceStarted evt) = mts_cluster_version evt"
| "event_cluster_version (EvMaintenanceFinished evt) = mtf_cluster_version evt"
| "event_cluster_version (EvNodeOperatorAdded evt) = noa_cluster_version evt"
| "event_cluster_version (EvNodeOperatorUpdated evt) = nou_cluster_version evt"
| "event_cluster_version (EvNodeOperatorRemoved evt) = nor_cluster_version evt"
| "event_cluster_version (EvSettingsUpdated evt) = su_cluster_version evt"

section \<open>Errors of smart-contract calls\<close>

datatype DeploymentError = DeploymentError string
datatype ConnectionError = UnknownContract | WrongContract | ConnectionOther string
datatype WriteError = WriteTransport string | Revert string | WriteOther string
datatype ReadError = ReadTransport string | InvalidData string | ReadOther string

end
