(* ===== verification/Cluster_Settings.thy ===== *)
theory Cluster_Settings
  imports Smart_Contract
begin

text \<open>
  Model of \<open>crates/cluster/src/settings.rs\<close>: the cluster settings, the propagation and skew
  windows derived from them, and their versioned on-chain encoding. The \<open>postcard\<close> codecs of
  \<open>ExtraV0\<close> and \<open>ExtraV1\<close> are parameters.
\<close>

record Settings =
  max_node_operator_data_bytes :: u16
  event_propagation_latency :: duration
  clock_skew :: duration
  migration_concurrency :: u16
  migration_tx_bandwidth :: u32
  migration_rx_bandwidth :: u32

definition DEFAULT_MIGRATION_CONCURRENCY :: u16 where
  "DEFAULT_MIGRATION_CONCURRENCY = 10"

definition DEFAULT_MIGRATION_TX_BANDWIDTH :: u32 where
  "DEFAULT_MIGRATION_TX_BANDWIDTH = 10000000"

definition DEFAULT_MIGRATION_RX_BANDWIDTH :: u32 where
  "DEFAULT_MIGRATION_RX_BANDWIDTH = 10000000"

definition Settings_default :: Settings where
  "Settings_default =
     \<lparr>max_node_operator_data_bytes = 4096,
      event_propagation_latency = duration_from_secs 5,
      clock_skew = duration_from_millis 500,
      migration_concurrency = DEFAULT_MIGRATION_CONCURRENCY,
      migration_tx_bandwidth = DEFAULT_MIGRATION_TX_BANDWIDTH,
      migration_rx_bandwidth = DEFAULT_MIGRATION_RX_BANDWIDTH\<rparr>"

section \<open>Time windows\<close>

definition event_propagation_time :: "Settings \<Rightarrow> datetime \<Rightarrow> datetime" where
  "event_propagation_time s emitted_at = emitted_at + int (event_propagation_latency s)"

text \<open>The argument \<open>now\<close> is \<open>OffsetDateTime::now_utc()\<close>.\<close>

definition has_event_propagated :: "Settings \<Rightarrow> datetime \<Rightarrow> datetime \<Rightarrow> bool" where
  "has_event_propagated s now emitted_at \<longleftrightarrow> event_propagation_time s emitted_at \<le> now"

definition clock_skew_time_frame :: "Settings \<Rightarrow> datetime \<Rightarrow> datetime \<times> datetime" where
  "clock_skew_time_frame s time = (time - int (clock_skew s), time + int (clock_skew s))"

section \<open>Extra settings\<close>

datatype Setting =
    EventPropagationLatency duration
  | ClockSkew duration
  | MigrationConcurrency u16
  | MigrationTxBandwidth u32
  | MigrationRxBandwidth u32

datatype SettingId =
    IdEventPropagationLatency | IdClockSkew | IdMigrationConcurrency | IdMigrationTxBandwidth
  | IdMigrationRxBandwidth

fun discriminant :: "Setting \<Rightarrow> nat" where
  "discriminant (EventPropagationLatency _) = 0"
| "discriminant (ClockSkew _) = 1"
| "discriminant (MigrationConcurrency _) = 2"
| "discriminant (MigrationTxBandwidth _) = 3"
| "discriminant (MigrationRxBandwidth _) = 4"

text \<open>\<open>from_repr\<close> of the \<open>u8\<close> discriminant; an index that is no \<open>u8\<close> has none.\<close>

definition SettingId_from_idx :: "nat \<Rightarrow> SettingId option" where
  "SettingId_from_idx idx =
     (if 256 \<le> idx then None
      else if idx = 0 then Some IdEventPropagationLatency
      else if idx = 1 then Some IdClockSkew
      else if idx = 2 then Some IdMigrationConcurrency
      else if idx = 3 then Some IdMigrationTxBandwidth
      else if idx = 4 then Some IdMigrationRxBandwidth
      else None)"

definition extra :: "Settings \<Rightarrow> Setting list" where
  "extra s =
     [EventPropagationLatency (event_propagation_latency s),
      ClockSkew (clock_skew s),
      MigrationConcurrency (migration_concurrency s),
      MigrationTxBandwidth (migration_tx_bandwidth s),
      MigrationRxBandwidth (migration_rx_bandwidth s)]"

fun apply_extra_setting :: "Settings \<Rightarrow> Setting \<Rightarrow> Settings" where
  "apply_extra_setting s (EventPropagationLatency d) = s\<lparr>event_propagation_latency := d\<rparr>"
| "apply_extra_setting s (ClockSkew d) = s\<lparr>clock_skew := d\<rparr>"
| "apply_extra_setting s (MigrationConcurrency c) = s\<lparr>migration_concurrency := c\<rparr>"
| "apply_extra_setting s (MigrationTxBandwidth b) = s\<lparr>migration_tx_bandwidth := b\<rparr>"
| "apply_extra_setting s (MigrationRxBandwidth b) = s\<lparr>migration_rx_bandwidth := b\<rparr>"

text \<open>\<open>u32::try_from(d.as_millis()).unwrap_or(u32::MAX)\<close>.\<close>

definition millis_u32 :: "duration \<Rightarrow> u32" where
  "millis_u32 d = (if as_millis d < 2 ^ 32 then of_nat (as_millis d) else 4294967295)"

fun Setting_encode :: "Setting \<Rightarrow> u8 list" where
  "Setting_encode (EventPropagationLatency d) = to_be_bytes 4 (millis_u32 d)"
| "Setting_encode (ClockSkew d) = to_be_bytes 4 (millis_u32 d)"
| "Setting_encode (MigrationConcurrency c) = to_be_bytes 2 c"
| "Setting_encode (MigrationTxBandwidth b) = to_be_bytes 4 b"
| "Setting_encode (MigrationRxBandwidth b) = to_be_bytes 4 b"

definition decode_u16 :: "u8 list \<Rightarrow> u16 option" where
  "decode_u16 v = (if length v = 2 then Some (from_be_bytes v) else None)"

definition decode_u32 :: "u8 list \<Rightarrow> u32 option" where
  "decode_u32 v = (if length v = 4 then Some (from_be_bytes v) else None)"

definition decode_duration :: "u8 list \<Rightarrow> duration option" where
  "decode_duration v = map_option (\<lambda>ms. duration_from_millis (unat ms)) (decode_u32 v)"

fun Setting_decode :: "SettingId \<Rightarrow> u8 list \<Rightarrow> Setting option" where
  "Setting_decode IdEventPropagationLatency v = map_option EventPropagationLatency (decode_duration v)"
| "Setting_decode IdClockSkew v = map_option ClockSkew (decode_duration v)"
| "Setting_decode IdMigrationConcurrency v = map_option MigrationConcurrency (decode_u16 v)"
| "Setting_decode IdMigrationTxBandwidth v = map_option MigrationTxBandwidth (decode_u32 v)"
| "Setting_decode IdMigrationRxBandwidth v = map_option MigrationRxBandwidth (decode_u32 v)"

section \<open>Schema versions\<close>

record ExtraV0 =
  event_propagation_latency_ms :: u32
  clock_skew_ms :: u32

record ExtraV1 =
  encoded :: "u8 list list"

definition ExtraV0_from_Settings :: "Settings \<Rightarrow> ExtraV0" where
  "ExtraV0_from_Settings s =
     \<lparr>event_propagation_latency_ms = millis_u32 (event_propagation_latency s),
      clock_skew_ms = millis_u32 (clock_skew s)\<rparr>"

definition Settings_from_ExtraV0 :: "ExtraV0 \<Rightarrow> Settings" where
  "Settings_from_ExtraV0 e =
     \<lparr>max_node_operator_data_bytes = 0,
      event_propagation_latency = duration_from_millis (unat (event_propagation_latency_ms e)),
      clock_skew = duration_from_millis (unat (clock_skew_ms e)),
      migration_concurrency = DEFAULT_MIGRATION_CONCURRENCY,
      migration_tx_bandwidth = DEFAULT_MIGRATION_TX_BANDWIDTH,
      migration_rx_bandwidth = DEFAULT_MIGRATION_RX_BANDWIDTH\<rparr>"

definition ExtraV1_from_Settings :: "Settings \<Rightarrow> ExtraV1" where
  "ExtraV1_from_Settings s =
     (let highest_idx = fold max (map discriminant (extra s)) 0
      in \<lparr>encoded = fold (\<lambda>setting enc. enc[discriminant setting := Setting_encode setting])
                     (extra s) (replicate (highest_idx + 1) [])\<rparr>)"

text \<open>One iteration of the decoding loop: unknown ids and undecodable values are skipped.\<close>

definition apply_encoded :: "nat \<times> u8 list \<Rightarrow> Settings \<Rightarrow> Settings" where
  "apply_encoded iv s =
     (case SettingId_from_idx (fst iv) of
        None \<Rightarrow> s
      | Some id' \<Rightarrow>
          (case Setting_decode id' (snd iv) of
             None \<Rightarrow> s
           | Some setting \<Rightarrow> apply_extra_setting s setting))"

definition Settings_from_ExtraV1 :: "ExtraV1 \<Rightarrow> Settings" where
  "Settings_from_ExtraV1 e = fold apply_encoded (enumerate 0 (encoded e)) Settings_default"

section \<open>On-chain conversion\<close>

datatype SettingsTryFromError = SettingsEmptyBuffer | SettingsCodec string | SettingsUnknownSchemaVersion u8
datatype SettingsTryIntoError = SettingsIntoCodec string

definition Settings_try_into_sc :: "ExtraV1 codec \<Rightarrow> Settings \<Rightarrow> (SettingsTryIntoError, ScSettings) outcome" where
  "Settings_try_into_sc pc1 s =
     and_then (map_err SettingsIntoCodec (codec_ser pc1 (ExtraV1_from_Settings s)))
       (\<lambda>bytes. Ok \<lparr>sc_max_node_operator_data_bytes = max_node_operator_data_bytes s,
                    sc_extra = 1 # bytes\<rparr>)"

definition Settings_try_from_sc ::
  "ExtraV0 codec \<Rightarrow> ExtraV1 codec \<Rightarrow> ScSettings \<Rightarrow> (SettingsTryFromError, Settings) outcome" where
  "Settings_try_from_sc pc0 pc1 sc =
     (case sc_extra sc of
        [] \<Rightarrow> Err SettingsEmptyBuffer
      | schema_version # bytes \<Rightarrow>
          and_then
            (if schema_version = 0 then
               map_err SettingsCodec (and_then (codec_de pc0 bytes) (\<lambda>e. Ok (Settings_from_ExtraV0 e)))
             else if schema_version = 1 then
               map_err SettingsCodec (and_then (codec_de pc1 bytes) (\<lambda>e. Ok (Settings_from_ExtraV1 e)))
             else Err (SettingsUnknownSchemaVersion schema_version))
            (\<lambda>s. Ok (s\<lparr>max_node_operator_data_bytes := sc_max_node_operator_data_bytes sc\<rparr>)))"

section \<open>Round trips\<close>

text \<open>What a duration is after it has been written on chain: whole milliseconds, at most
  \<open>u32::MAX\<close> of them.\<close>

definition on_chain_duration :: "duration \<Rightarrow> duration" where
  "on_chain_duration d = duration_from_millis (min (as_millis d) (2 ^ 32 - 1))"

lemma unat_millis_u32: "unat (millis_u32 d) = min (as_millis d) (2 ^ 32 - 1)"
  by (auto simp: millis_u32_def unat_of_nat min_def)

lemma decode_u32_to_be [simp]: "decode_u32 (to_be_bytes 4 w) = Some w"
  by (simp add: decode_u32_def)

lemma decode_u16_to_be [simp]: "decode_u16 (to_be_bytes 2 w) = Some w"
  by (simp add: decode_u16_def)

lemma decode_duration_encode [simp]: "decode_duration (to_be_bytes 4 (millis_u32 d)) = Some (on_chain_duration d)"
  by (simp add: decode_duration_def on_chain_duration_def unat_millis_u32)

lemma encoded_ExtraV1_from_Settings:
  "encoded (ExtraV1_from_Settings s) = map Setting_encode (extra s)"
  by (simp add: ExtraV1_from_Settings_def extra_def numeral_eq_Suc)

lemma Settings_from_ExtraV1_prefix:
  assumes "length es = 5"
  shows "Settings_from_ExtraV1 \<lparr>encoded = es @ rest\<rparr> = Settings_from_ExtraV1 \<lparr>encoded = es\<rparr>"
proof -
  have skip: "fold apply_encoded (enumerate n rest) s = s" if "5 \<le> n" for n s
    using that
  proof (induction rest arbitrary: n s)
    case Nil
    then show ?case by simp
  next
    case (Cons v rest)
    then have "apply_encoded (n, v) s = s"
      by (auto simp: apply_encoded_def SettingId_from_idx_def)
    with Cons show ?case by simp
  qed
  show ?thesis
    using assms by (simp add: Settings_from_ExtraV1_def enumerate_append_eq skip)
qed

lemma Settings_from_ExtraV1_from_Settings:
  "Settings_from_ExtraV1 (ExtraV1_from_Settings s)
   = s\<lparr>max_node_operator_data_bytes := max_node_operator_data_bytes Settings_default,
       event_propagation_latency := on_chain_duration (event_propagation_latency s),
       clock_skew := on_chain_duration (clock_skew s)\<rparr>"
  by (simp add: Settings_from_ExtraV1_def encoded_ExtraV1_from_Settings extra_def apply_encoded_def
      SettingId_from_idx_def Settings_default_def)

text \<open>
  C40. Settings survive the round trip through the chain: writing settings in the on-chain form
  and reading them back succeeds and gives the same settings, with the two durations cut to whole
  milliseconds and capped at \<open>u32::MAX\<close> milliseconds (so settings whose durations are such
  values come back unchanged). The hypothesis is that \<open>postcard\<close> reads back what it wrote.
\<close>

theorem settings_on_chain_roundtrip:
  assumes "codec_reads_back pc1 (ExtraV1_from_Settings s)"
  shows "\<exists>sc. Settings_try_into_sc pc1 s = Ok sc
     \<and> Settings_try_from_sc pc0 pc1 sc
       = Ok (s\<lparr>event_propagation_latency := on_chain_duration (event_propagation_latency s),
               clock_skew := on_chain_duration (clock_skew s)\<rparr>)"
proof -
  obtain bs where "codec_ser pc1 (ExtraV1_from_Settings s) = Ok bs"
    and "codec_de pc1 bs = Ok (ExtraV1_from_Settings s)"
    using assms by (rule codec_reads_backE)
  then show ?thesis
    by (simp add: Settings_try_into_sc_def Settings_try_from_sc_def Settings_from_ExtraV1_from_Settings)
qed

text \<open>A concrete codec for the witnesses: the five values one after the other at fixed widths.\<close>

definition fixed_width_codec :: "ExtraV1 codec" where
  "fixed_width_codec =
     \<lparr>codec_ser = (\<lambda>e. Ok (concat (encoded e))),
      codec_de = (\<lambda>bs. Ok \<lparr>encoded = [take 4 bs, take 4 (drop 4 bs), take 2 (drop 8 bs),
                                     take 4 (drop 10 bs), take 4 (drop 14 bs)]\<rparr>)\<rparr>"

lemma fixed_width_codec_reads_back: "codec_reads_back fixed_width_codec (ExtraV1_from_Settings s)"
proof -
  have "encoded (ExtraV1_from_Settings s) = map Setting_encode (extra s)"
    by (rule encoded_ExtraV1_from_Settings)
  then show ?thesis
    by (cases "ExtraV1_from_Settings s") (simp add: codec_reads_back_def fixed_width_codec_def extra_def)
qed

theorem settings_on_chain_roundtrip_witness:
  "codec_reads_back fixed_width_codec (ExtraV1_from_Settings Settings_default)
   \<and> (\<exists>sc. Settings_try_into_sc fixed_width_codec Settings_default = Ok sc
       \<and> Settings_try_from_sc \<lparr>codec_ser = (\<lambda>_. Panic), codec_de = (\<lambda>_. Panic)\<rparr> fixed_width_codec sc
         = Ok Settings_default)"
proof -
  have d: "on_chain_duration 5000000000 = 5000000000" "on_chain_duration 500000000 = 500000000"
    by (simp_all add: on_chain_duration_def as_millis_def duration_from_millis_def)
  show ?thesis
    using fixed_width_codec_reads_back [of Settings_default]
      settings_on_chain_roundtrip [OF fixed_width_codec_reads_back [of Settings_default],
        of "\<lparr>codec_ser = (\<lambda>_. Panic), codec_de = (\<lambda>_. Panic)\<rparr>"]
    by (simp add: Settings_default_def duration_from_secs_def duration_from_millis_def d)
qed

text \<open>
  Newer nodes may add settings: entries of an \<open>ExtraV1\<close> after the five known ones do not
  change what is decoded, and a known entry that cannot be decoded leaves the default in place.
\<close>

theorem settings_extra_forward_compatible:
  "Settings_from_ExtraV1 \<lparr>encoded = map Setting_encode (extra s) @ rest\<rparr>
     = Settings_from_ExtraV1 \<lparr>encoded = map Setting_encode (extra s)\<rparr>
   \<and> Settings_from_ExtraV1 \<lparr>encoded = replicate n []\<rparr> = Settings_default"
proof
  show "Settings_from_ExtraV1 \<lparr>encoded = map Setting_encode (extra s) @ rest\<rparr>
      = Settings_from_ExtraV1 \<lparr>encoded = map Setting_encode (extra s)\<rparr>"
    by (rule Settings_from_ExtraV1_prefix) (simp add: extra_def)
  have empty: "apply_encoded (i, []) t = t" for i t
  proof -
    have "Setting_decode sid [] = None" for sid
      by (cases sid) (simp_all add: decode_duration_def decode_u16_def decode_u32_def)
    then show ?thesis
      by (simp add: apply_encoded_def split: option.splits)
  qed
  have "fold apply_encoded (enumerate m (replicate n [])) t = t" for m t
    by (induction n arbitrary: m) (simp_all add: empty)
  then show "Settings_from_ExtraV1 \<lparr>encoded = replicate n []\<rparr> = Settings_default"
    by (simp add: Settings_from_ExtraV1_def)
qed

end
