(* ===== verification/Round_Robin.thy ===== *)
theory Round_Robin
  imports WCN_Prelude
begin

text \<open>
  The round-robin scans of \<open>NodeOperator::find_next_node\<close> and
  \<open>NodeOperators::find_next_operator\<close>: both read an atomic \<open>usize\<close> counter that wraps and visit
  the positions \<open>idx.wrapping_add(offset) % num\<close> for \<open>idx\<close> in \<open>0..num\<close>.
\<close>

text \<open>\<open>fetch_add(1)\<close>: the old value and the new counter.\<close>

definition fetch_add_1 :: "usize \<Rightarrow> usize \<times> usize" where
  "fetch_add_1 c = (c, c + 1)"

definition rr_index :: "usize \<Rightarrow> nat \<Rightarrow> nat \<Rightarrow> nat" where
  "rr_index offset num idx = unat (of_nat idx + offset) mod num"

text \<open>A \<open>for\<close> loop that returns the first \<open>Some\<close>.\<close>

fun find_some :: "('a \<Rightarrow> 'r option) \<Rightarrow> 'a list \<Rightarrow> 'r option" where
  "find_some f [] = None"
| "find_some f (x # xs) = (case f x of Some r \<Rightarrow> Some r | None \<Rightarrow> find_some f xs)"

lemma find_some_eq_None [simp]: "find_some f xs = None \<longleftrightarrow> (\<forall>x \<in> set xs. f x = None)"
  by (induction xs) (auto split: option.splits)

lemma find_some_SomeD: "find_some f xs = Some r \<Longrightarrow> \<exists>x \<in> set xs. f x = Some r"
  by (induction xs) (auto split: option.splits)

lemma find_some_cong [fundef_cong]:
  "xs = ys \<Longrightarrow> (\<And>x. x \<in> set ys \<Longrightarrow> f x = g x) \<Longrightarrow> find_some f xs = find_some g ys"
  by (induction ys arbitrary: xs) (auto split: option.splits)

text \<open>
  The scan reaches every position when the sum does not wrap around during it, and also when
  the number of positions divides \<open>2 ^ 64\<close>.
\<close>

lemma mod_window_surj:
  fixes k n :: nat
  assumes "i < n"
  shows "\<exists>j < n. (k + j) mod n = i"
proof -
  let ?j = "(i + (n - k mod n)) mod n"
  have "(k + ?j) mod n = (k mod n + (i + (n - k mod n))) mod n"
    by (simp add: mod_simps)
  also have "k mod n + (i + (n - k mod n)) = i + n"
    using mod_less_divisor [of n k] assms by linarith
  finally have "(k + ?j) mod n = i"
    using assms by simp
  moreover have "?j < n"
    using assms by simp
  ultimately show ?thesis by blast
qed

lemma rr_index_eq:
  assumes "idx < num" and "unat offset + num \<le> 2 ^ 64 \<or> num dvd 2 ^ 64"
  shows "rr_index offset num idx = (unat offset + idx) mod num"
proof -
  have sum: "unat (of_nat idx + offset) = (unat offset + idx) mod 2 ^ 64"
    by (simp add: unat_word_ariths(1) unat_of_nat mod_add_left_eq) (simp only: add.commute)
  from assms(2) show ?thesis
  proof
    assume "unat offset + num \<le> 2 ^ 64"
    with assms(1) have "(unat offset + idx) mod 2 ^ 64 = unat offset + idx"
      by (intro mod_less) linarith
    then show ?thesis
      by (simp only: rr_index_def sum)
  next
    assume "num dvd 2 ^ 64"
    then show ?thesis
      unfolding rr_index_def sum by (rule mod_mod_cancel)
  qed
qed

lemma rr_index_surj:
  assumes "i < num" and "unat offset + num \<le> 2 ^ 64 \<or> num dvd 2 ^ 64"
  shows "\<exists>idx < num. rr_index offset num idx = i"
proof -
  obtain idx where "idx < num" and "(unat offset + idx) mod num = i"
    using mod_window_surj [OF assms(1)] by blast
  with rr_index_eq [OF _ assms(2), of idx] show ?thesis
    by auto
qed

lemma rr_index_less: "idx < num \<Longrightarrow> rr_index offset num idx < num"
  by (simp add: rr_index_def)

end
