(* ===== verification/Node_Operator.thy ===== *)
theory Node_Operator
  imports Cluster_Settings Round_Robin
begin

text \<open>
  Model of \<open>crates/cluster/src/node.rs\<close>, \<open>client.rs\<close> and \<open>node_operator.rs\<close>: nodes with their
  encrypted addresses, clients, and node operators with their load-balancing counter and their
  versioned on-chain data. Parameters (record \<open>third_party\<close>): format-preserving encryption over
  numeral strings of radix 256, the digest of a peer id, the \<open>postcard\<close> codecs and the source of
  random peer ids.
\<close>

section \<open>Nodes and clients\<close>

text \<open>A peer id is its multihash bytes; an IPv4 address is the word with its four octets.\<close>

type_synonym PeerId = "u8 list"
type_synonym Ipv4Addr = u32
type_synonym SocketAddrV4 = "Ipv4Addr \<times> u16"
type_synonym EncryptionKey = "256 word"

record Node =
  node_peer_id :: PeerId
  ipv4_addr :: Ipv4Addr
  private_ipv4_addr :: "Ipv4Addr option"
  primary_port :: u16
  secondary_port :: u16

record NodeV0 =
  v0_peer_id :: PeerId
  v0_ipv4_addr :: Ipv4Addr
  v0_primary_port :: u16
  v0_secondary_port :: u16

record NodeV1 =
  v1_peer_id :: PeerId
  v1_ipv4_addr :: Ipv4Addr
  v1_private_ipv4_addr :: "Ipv4Addr option"
  v1_primary_port :: u16
  v1_secondary_port :: u16

record Client =
  client_peer_id :: PeerId
  authorized_namespaces :: "u8 list"

record ClientV0 =
  clientv0_peer_id :: PeerId
  clientv0_authorized_namespaces :: "u8 list"

datatype Name = Name string

record DataV0 =
  dv0_name :: Name
  dv0_nodes :: "NodeV0 list"
  dv0_clients :: "ClientV0 list"

record DataV1 =
  dv1_name :: Name
  dv1_nodes :: "NodeV1 list"
  dv1_clients :: "ClientV0 list"

record third_party =
  tp_encrypt :: "EncryptionKey \<Rightarrow> u8 list \<Rightarrow> u16 list \<Rightarrow> u16 list option"
  tp_decrypt :: "EncryptionKey \<Rightarrow> u8 list \<Rightarrow> u16 list \<Rightarrow> u16 list option"
  tp_digest :: "PeerId \<Rightarrow> u8 list"
  tp_random_peer_id :: "nat \<Rightarrow> PeerId"
  tp_data_v0 :: "DataV0 codec"
  tp_data_v1 :: "DataV1 codec"
  tp_extra_v0 :: "ExtraV0 codec"
  tp_extra_v1 :: "ExtraV1 codec"

definition primary_socket_addr :: "Node \<Rightarrow> SocketAddrV4" where
  "primary_socket_addr n = (ipv4_addr n, primary_port n)"

definition secondary_socket_addr :: "Node \<Rightarrow> SocketAddrV4" where
  "secondary_socket_addr n = (ipv4_addr n, secondary_port n)"

definition primary_socket_addr_private :: "Node \<Rightarrow> SocketAddrV4 option" where
  "primary_socket_addr_private n = map_option (\<lambda>addr. (addr, primary_port n)) (private_ipv4_addr n)"

definition secondary_socket_addr_private :: "Node \<Rightarrow> SocketAddrV4 option" where
  "secondary_socket_addr_private n = map_option (\<lambda>addr. (addr, secondary_port n)) (private_ipv4_addr n)"

definition NodeV0_from_Node :: "Node \<Rightarrow> NodeV0" where
  "NodeV0_from_Node n =
     \<lparr>v0_peer_id = node_peer_id n, v0_ipv4_addr = ipv4_addr n,
      v0_primary_port = primary_port n, v0_secondary_port = secondary_port n\<rparr>"

definition Node_from_NodeV0 :: "NodeV0 \<Rightarrow> Node" where
  "Node_from_NodeV0 n =
     \<lparr>node_peer_id = v0_peer_id n, ipv4_addr = v0_ipv4_addr n, private_ipv4_addr = None,
      primary_port = v0_primary_port n, secondary_port = v0_secondary_port n\<rparr>"

definition NodeV1_from_Node :: "Node \<Rightarrow> NodeV1" where
  "NodeV1_from_Node n =
     \<lparr>v1_peer_id = node_peer_id n, v1_ipv4_addr = ipv4_addr n,
      v1_private_ipv4_addr = private_ipv4_addr n,
      v1_primary_port = primary_port n, v1_secondary_port = secondary_port n\<rparr>"

definition Node_from_NodeV1 :: "NodeV1 \<Rightarrow> Node" where
  "Node_from_NodeV1 n =
     \<lparr>node_peer_id = v1_peer_id n, ipv4_addr = v1_ipv4_addr n,
      private_ipv4_addr = v1_private_ipv4_addr n,
      primary_port = v1_primary_port n, secondary_port = v1_secondary_port n\<rparr>"

definition ClientV0_from_Client :: "Client \<Rightarrow> ClientV0" where
  "ClientV0_from_Client c =
     \<lparr>clientv0_peer_id = client_peer_id c, clientv0_authorized_namespaces = authorized_namespaces c\<rparr>"

definition Client_from_ClientV0 :: "ClientV0 \<Rightarrow> Client" where
  "Client_from_ClientV0 c =
     \<lparr>client_peer_id = clientv0_peer_id c, authorized_namespaces = clientv0_authorized_namespaces c\<rparr>"

subsection \<open>Address encryption\<close>

text \<open>\<open>Ipv4AddrNumeral\<close>: the octets as a numeral string of radix 256.\<close>

definition numeral_from_ip :: "Ipv4Addr \<Rightarrow> u16 list" where
  "numeral_from_ip addr = map ucast (to_be_bytes 4 addr)"

text \<open>\<open>octets[idx] as u8\<close> for the four indices; a shorter string would panic.\<close>

definition ip_from_numeral :: "u16 list \<Rightarrow> ('e, Ipv4Addr) outcome" where
  "ip_from_numeral ns =
     and_then (try_map (\<lambda>idx. unwrap (list_get ns idx)) [0..<4])
       (\<lambda>octets. Ok (from_be_bytes (map ucast octets)))"

definition encrypt_ip :: "third_party \<Rightarrow> EncryptionKey \<Rightarrow> PeerId \<Rightarrow> Ipv4Addr \<Rightarrow> ('e, Ipv4Addr) outcome" where
  "encrypt_ip tp key peer_id ip =
     and_then (unwrap (tp_encrypt tp key (tp_digest tp peer_id) (numeral_from_ip ip))) ip_from_numeral"

definition decrypt_ip :: "third_party \<Rightarrow> EncryptionKey \<Rightarrow> PeerId \<Rightarrow> Ipv4Addr \<Rightarrow> ('e, Ipv4Addr) outcome" where
  "decrypt_ip tp key peer_id ip =
     and_then (unwrap (tp_decrypt tp key (tp_digest tp peer_id) (numeral_from_ip ip))) ip_from_numeral"

text \<open>\<open>Option::map\<close> with a call that may panic.\<close>

fun map_opt_oc :: "('a \<Rightarrow> ('e, 'b) outcome) \<Rightarrow> 'a option \<Rightarrow> ('e, 'b option) outcome" where
  "map_opt_oc f None = Ok None"
| "map_opt_oc f (Some x) = and_then (f x) (\<lambda>y. Ok (Some y))"

definition Node_encrypt :: "third_party \<Rightarrow> EncryptionKey \<Rightarrow> Node \<Rightarrow> ('e, Node) outcome" where
  "Node_encrypt tp key n =
     and_then (encrypt_ip tp key (node_peer_id n) (ipv4_addr n)) (\<lambda>ip.
     and_then (map_opt_oc (encrypt_ip tp key (node_peer_id n)) (private_ipv4_addr n)) (\<lambda>pip.
     Ok (n\<lparr>ipv4_addr := ip, private_ipv4_addr := pip\<rparr>)))"

definition Node_decrypt :: "third_party \<Rightarrow> EncryptionKey \<Rightarrow> Node \<Rightarrow> ('e, Node) outcome" where
  "Node_decrypt tp key n =
     and_then (decrypt_ip tp key (node_peer_id n) (ipv4_addr n)) (\<lambda>ip.
     and_then (map_opt_oc (decrypt_ip tp key (node_peer_id n)) (private_ipv4_addr n)) (\<lambda>pip.
     Ok (n\<lparr>ipv4_addr := ip, private_ipv4_addr := pip\<rparr>)))"

section \<open>Node operators\<close>

definition MIN_NODES :: nat where
  "MIN_NODES = 2"

definition Name_MAX_LENGTH :: nat where
  "Name_MAX_LENGTH = 32"

definition Name_new :: "string \<Rightarrow> Name option" where
  "Name_new s = (if length s \<le> Name_MAX_LENGTH then Some (Name s) else None)"

record 'n NodeOperator =
  operator_id :: operator_id
  operator_name :: Name
  operator_clients :: "Client list"
  operator_nodes :: "'n list"
  operator_counter :: usize

datatype TooFewNodesError = TooFewNodesError nat

datatype NodeOperatorCreationError = TooFewNodes TooFewNodesError

datatype NodeOperatorTryFromError =
  OperatorEmptyBuffer | OperatorCodec string | OperatorUnknownSchemaVersion u8
| OperatorConstructor NodeOperatorCreationError

datatype NodeOperatorTryIntoError = OperatorIntoCodec string

record DataTooLargeError =
  dtl_value :: nat
  dtl_limit :: nat

text \<open>\<open>usize::MAX\<close>, the initial counter.\<close>

definition initial_counter :: usize where
  "initial_counter = 18446744073709551615"

definition NodeOperator_new ::
  "operator_id \<Rightarrow> Name \<Rightarrow> 'n list \<Rightarrow> Client list \<Rightarrow> (NodeOperatorCreationError, 'n NodeOperator) outcome" where
  "NodeOperator_new id' name nodes clients =
     (if length nodes < MIN_NODES then Err (TooFewNodes (TooFewNodesError (length nodes)))
      else Ok \<lparr>operator_id = id', operator_name = name, operator_clients = clients,
               operator_nodes = nodes, operator_counter = initial_counter\<rparr>)"

text \<open>
  The load-balancing calls read and bump the shared counter: they return their result with the
  operator after the call. \<open>n % 0\<close> and an index out of range panic.
\<close>

definition next_node :: "'n NodeOperator \<Rightarrow> ('e, 'n) outcome \<times> 'n NodeOperator" where
  "next_node op =
     (let (n, counter) = fetch_add_1 (operator_counter op); len = length (operator_nodes op)
      in (if len = 0 then Panic else unwrap (list_get (operator_nodes op) (unat n mod len)),
          op\<lparr>operator_counter := counter\<rparr>))"

definition find_next_node :: "'n NodeOperator \<Rightarrow> ('n \<Rightarrow> 'r option) \<Rightarrow> 'r option \<times> 'n NodeOperator" where
  "find_next_node op cb =
     (let num_nodes = length (operator_nodes op); (offset, counter) = fetch_add_1 (operator_counter op)
      in (find_some (\<lambda>idx. cb (operator_nodes op ! rr_index offset num_nodes idx)) [0..<num_nodes],
          op\<lparr>operator_counter := counter\<rparr>))"

definition nodes_lb_iter :: "'n NodeOperator \<Rightarrow> ('e, 'n list) outcome \<times> 'n NodeOperator" where
  "nodes_lb_iter op =
     (let (n, counter) = fetch_add_1 (operator_counter op); nodes = operator_nodes op
      in (if nodes = [] then Panic
          else let k = unat n mod length nodes in Ok (drop k nodes @ take k nodes),
          op\<lparr>operator_counter := counter\<rparr>))"

definition add_node :: "'n \<Rightarrow> 'n NodeOperator \<Rightarrow> 'n NodeOperator" where
  "add_node node op = op\<lparr>operator_nodes := operator_nodes op @ [node]\<rparr>"

definition update_node :: "nat \<Rightarrow> 'n \<Rightarrow> 'n NodeOperator \<Rightarrow> 'n NodeOperator" where
  "update_node idx updated op =
     (if idx < length (operator_nodes op) then op\<lparr>operator_nodes := (operator_nodes op)[idx := updated]\<rparr>
      else op)"

text \<open>
  \<open>self.nodes.len() - 1\<close> wraps to \<open>usize::MAX\<close> on an empty list (release profile), which passes
  the check and removes nothing.
\<close>

definition remove_node :: "nat \<Rightarrow> 'n NodeOperator \<Rightarrow> (TooFewNodesError, 'n NodeOperator) outcome" where
  "remove_node idx op =
     (if operator_nodes op \<noteq> [] \<and> length (operator_nodes op) - 1 < MIN_NODES
      then Err (TooFewNodesError (length (operator_nodes op)))
      else if idx < length (operator_nodes op)
      then Ok (op\<lparr>operator_nodes := take idx (operator_nodes op) @ drop (Suc idx) (operator_nodes op)\<rparr>)
      else Ok op)"

subsection \<open>On-chain data\<close>

text \<open>
  The application's \<open>Config\<close>: the encryption key, the constructor of application nodes, and the
  settings last pushed with \<open>update_settings\<close>.
\<close>

record 'n config =
  cfg_encryption_key :: EncryptionKey
  cfg_new_node :: "operator_id \<Rightarrow> Node \<Rightarrow> 'n"
  cfg_settings :: "Settings option"

definition update_settings :: "Settings \<Rightarrow> 'n config \<Rightarrow> 'n config" where
  "update_settings s cfg = cfg\<lparr>cfg_settings := Some s\<rparr>"

text \<open>The serialised part of a node operator, its node addresses encrypted.\<close>

definition NodeOperator_into_data ::
  "third_party \<Rightarrow> EncryptionKey \<Rightarrow> Node NodeOperator \<Rightarrow> ('e, DataV1) outcome" where
  "NodeOperator_into_data tp key op =
     and_then (try_map (\<lambda>n. and_then (Node_encrypt tp key n) (\<lambda>n. Ok (NodeV1_from_Node n))) (operator_nodes op)) (\<lambda>nodes.
     Ok \<lparr>dv1_name = operator_name op, dv1_nodes = nodes,
         dv1_clients = map ClientV0_from_Client (operator_clients op)\<rparr>)"

definition NodeOperator_try_into_sc ::
  "third_party \<Rightarrow> EncryptionKey \<Rightarrow> Node NodeOperator \<Rightarrow> (NodeOperatorTryIntoError, ScNodeOperator) outcome" where
  "NodeOperator_try_into_sc tp key op =
     and_then (NodeOperator_into_data tp key op) (\<lambda>data.
     and_then (map_err OperatorIntoCodec (codec_ser (tp_data_v1 tp) data)) (\<lambda>bytes.
     Ok \<lparr>sc_operator_id = operator_id op, sc_operator_data = 1 # bytes\<rparr>))"

definition new_nodes ::
  "third_party \<Rightarrow> 'n config \<Rightarrow> operator_id \<Rightarrow> Node list \<Rightarrow> ('e, 'n list) outcome" where
  "new_nodes tp cfg id' nodes =
     try_map (\<lambda>n. and_then (Node_decrypt tp (cfg_encryption_key cfg) n) (\<lambda>n. Ok (cfg_new_node cfg id' n))) nodes"

definition NodeOperator_try_from_sc ::
  "third_party \<Rightarrow> 'n config \<Rightarrow> ScNodeOperator \<Rightarrow> (NodeOperatorTryFromError, 'n NodeOperator) outcome" where
  "NodeOperator_try_from_sc tp cfg op =
     (case sc_operator_data op of
        [] \<Rightarrow> Err OperatorEmptyBuffer
      | schema_version # bytes \<Rightarrow>
          if schema_version = 0 then
            and_then (map_err OperatorCodec (codec_de (tp_data_v0 tp) bytes)) (\<lambda>data.
            and_then (new_nodes tp cfg (sc_operator_id op) (map Node_from_NodeV0 (dv0_nodes data))) (\<lambda>nodes.
            map_err OperatorConstructor
              (NodeOperator_new (sc_operator_id op) (dv0_name data) nodes (map Client_from_ClientV0 (dv0_clients data)))))
          else if schema_version = 1 then
            and_then (map_err OperatorCodec (codec_de (tp_data_v1 tp) bytes)) (\<lambda>data.
            and_then (new_nodes tp cfg (sc_operator_id op) (map Node_from_NodeV1 (dv1_nodes data))) (\<lambda>nodes.
            map_err OperatorConstructor
              (NodeOperator_new (sc_operator_id op) (dv1_name data) nodes (map Client_from_ClientV0 (dv1_clients data)))))
          else Err (OperatorUnknownSchemaVersion schema_version))"

definition new_corrupted :: "third_party \<Rightarrow> 'n config \<Rightarrow> operator_id \<Rightarrow> 'n NodeOperator" where
  "new_corrupted tp cfg id' =
     \<lparr>operator_id = id', operator_name = Name ''CORRUPTED_DATA'', operator_clients = [],
      operator_nodes = map (\<lambda>i. cfg_new_node cfg id'
         \<lparr>node_peer_id = tp_random_peer_id tp i, ipv4_addr = 0, private_ipv4_addr = None,
          primary_port = 0, secondary_port = 0\<rparr>) [0..<MIN_NODES],
      operator_counter = 0\<rparr>"

definition NodeOperator_from_sc ::
  "third_party \<Rightarrow> 'n config \<Rightarrow> ScNodeOperator \<Rightarrow> ('e, 'n NodeOperator) outcome" where
  "NodeOperator_from_sc tp cfg op =
     (case NodeOperator_try_from_sc tp cfg op of
        Ok x \<Rightarrow> Ok x
      | Err _ \<Rightarrow> Ok (new_corrupted tp cfg (sc_operator_id op))
      | Panic \<Rightarrow> Panic)"

definition validate_data :: "u8 list \<Rightarrow> Settings \<Rightarrow> (DataTooLargeError, unit) outcome" where
  "validate_data data s =
     (let value = length data; limit = unat (max_node_operator_data_bytes s)
      in if limit < value then Err \<lparr>dtl_value = value, dtl_limit = limit\<rparr> else Ok ())"

section \<open>Well-formed operators\<close>

definition operator_wf :: "'n NodeOperator \<Rightarrow> bool" where
  "operator_wf op \<longleftrightarrow> MIN_NODES \<le> length (operator_nodes op)"

named_theorems operator_defs \<open>definitions of the node operator operations\<close>

lemmas [operator_defs] = operator_wf_def MIN_NODES_def NodeOperator_new_def add_node_def
  update_node_def remove_node_def next_node_def find_next_node_def nodes_lb_iter_def fetch_add_1_def

lemma operator_wf_new: "NodeOperator_new i n nodes cs = Ok op \<Longrightarrow> operator_wf op"
  by (auto simp: operator_defs split: if_splits)

lemma operator_wf_new_corrupted: "operator_wf (new_corrupted tp cfg i)"
  by (simp add: operator_defs new_corrupted_def)

lemma NodeOperator_try_from_sc_OkD:
  assumes "NodeOperator_try_from_sc tp cfg sc = Ok op"
  shows "operator_wf op" and "operator_id op = sc_operator_id sc"
proof -
  obtain name nodes cs where new: "NodeOperator_new (sc_operator_id sc) name nodes cs = Ok op"
    using assms
    by (auto simp: NodeOperator_try_from_sc_def outcome_simps split: list.splits if_splits)
  then show "operator_wf op"
    by (rule operator_wf_new)
  show "operator_id op = sc_operator_id sc"
    using new by (auto simp: NodeOperator_new_def split: if_splits)
qed

text \<open>
  Whatever the bytes on chain are, reading a node operator gives a well-formed one with the
  same id: undecodable data is replaced by a placeholder.
\<close>

lemma NodeOperator_from_sc_OkD:
  assumes "NodeOperator_from_sc tp cfg sc = Ok op"
  shows "operator_wf op" and "operator_id op = sc_operator_id sc"
  using assms NodeOperator_try_from_sc_OkD [of tp cfg sc op]
  by (auto simp: NodeOperator_from_sc_def operator_wf_new_corrupted split: outcome.splits)
    (simp_all add: new_corrupted_def)

lemma NodeOperator_from_sc_neq_Err [simp]: "NodeOperator_from_sc tp cfg sc \<noteq> Err e"
  by (simp add: NodeOperator_from_sc_def split: outcome.splits)


definition sample_operator :: "nat list \<Rightarrow> nat NodeOperator" where
  "sample_operator nodes =
     \<lparr>operator_id = 7, operator_name = Name ''op'', operator_clients = [], operator_nodes = nodes,
      operator_counter = initial_counter\<rparr>"


text \<open>
  Retrying over \<open>nodes_lb_iter\<close> tries every node exactly once: the iterator is a rotation of
  the operator's nodes.
\<close>

theorem nodes_lb_iter_rotation:
  assumes "operator_wf op"
  shows "\<exists>k. fst (nodes_lb_iter op) = Ok (rotate k (operator_nodes op))"
proof -
  let ?nodes = "operator_nodes op"
  let ?k = "unat (operator_counter op) mod length ?nodes"
  have "?nodes \<noteq> []"
    using assms by (auto simp: operator_defs)
  then have "fst (nodes_lb_iter op) = Ok (rotate ?k ?nodes)"
    by (simp add: operator_defs Let_def rotate_drop_take)
  then show ?thesis by blast
qed

theorem nodes_lb_iter_rotation_witness:
  "operator_wf (sample_operator [1, 2, 3])
   \<and> (\<exists>k. fst (nodes_lb_iter (sample_operator [1, 2, 3])) = Ok (rotate k [1, 2, 3]))"
proof -
  have wf: "operator_wf (sample_operator [1, 2, 3])"
    by (simp add: operator_defs sample_operator_def)
  with nodes_lb_iter_rotation [OF wf] show ?thesis
    by (simp add: sample_operator_def)
qed

text \<open>
  A scan for the next usable node finds one if there is one, as long as the counter does not
  overflow during the scan (or the number of nodes divides \<open>2 ^ 64\<close>): \<open>find_next_node\<close> gives
  \<open>None\<close> exactly when the predicate rejects every node.
\<close>

theorem find_next_node_complete:
  assumes "unat (operator_counter op) + length (operator_nodes op) \<le> 2 ^ 64
    \<or> length (operator_nodes op) dvd 2 ^ 64"
  shows "fst (find_next_node op cb) = None \<longleftrightarrow> (\<forall>n \<in> set (operator_nodes op). cb n = None)"
proof -
  let ?nodes = "operator_nodes op" and ?off = "operator_counter op"
  have "fst (find_next_node op cb) = None
      \<longleftrightarrow> (\<forall>idx < length ?nodes. cb (?nodes ! rr_index ?off (length ?nodes) idx) = None)"
    by (auto simp: operator_defs Let_def)
  also have "\<dots> \<longleftrightarrow> (\<forall>i < length ?nodes. cb (?nodes ! i) = None)"
    using rr_index_surj [OF _ assms] rr_index_less [of _ "length ?nodes" ?off] by metis
  finally show ?thesis
    by (simp add: all_set_conv_all_nth)
qed

theorem find_next_node_complete_witness:
  "fst (find_next_node (sample_operator [1, 2]) (\<lambda>n. if n = 2 then Some n else None)) \<noteq> None"
proof -
  let ?op = "sample_operator [1, 2]"
  have "unat (operator_counter ?op) + length (operator_nodes ?op) \<le> 2 ^ 64
      \<or> length (operator_nodes ?op) dvd 2 ^ 64"
    by (simp add: sample_operator_def flip: numeral_2_eq_2)
  from find_next_node_complete [OF this, of "\<lambda>n. if n = 2 then Some n else None"] show ?thesis
    by (auto simp: sample_operator_def)
qed

text \<open>
  The condition is needed, and a fresh operator violates it: the counter starts at
  \<open>usize::MAX\<close> and \<open>fetch_add\<close> returns that old value, so the first scan over three nodes visits
  the first node twice and never the third.
\<close>

theorem find_next_node_first_scan_skips:
  "NodeOperator_new 7 (Name ''op'') [1, 2, 3 :: nat] [] = Ok (sample_operator [1, 2, 3])
   \<and> fst (find_next_node (sample_operator [1, 2, 3]) (\<lambda>n. if n = 3 then Some n else None)) = None"
  by (simp add: sample_operator_def operator_defs initial_counter_def rr_index_def upt_rec)

section \<open>On-chain round trip\<close>

text \<open>
  What format-preserving encryption promises for a key: four numerals of radix 256 are encrypted
  to four numerals of radix 256, and decryption with the same key and tweak undoes it.
\<close>

definition fpe_inverse :: "third_party \<Rightarrow> EncryptionKey \<Rightarrow> bool" where
  "fpe_inverse tp key \<longleftrightarrow> (\<forall>tweak xs. length xs = 4 \<and> (\<forall>x \<in> set xs. x < 256) \<longrightarrow>
     (\<exists>ys. tp_encrypt tp key tweak xs = Some ys \<and> length ys = 4 \<and> (\<forall>y \<in> set ys. y < 256)
           \<and> tp_decrypt tp key tweak ys = Some xs))"

lemma numeral_from_ip_wf: "length (numeral_from_ip ip) = 4" "\<forall>x \<in> set (numeral_from_ip ip). x < 256"
proof -
  have "(ucast (b :: u8) :: u16) < 256" for b
    using unat_u8_less [of b]
    by (simp add: word_less_nat_alt unsigned_ucast_eq take_bit_eq_mod del: unat_u8_less)
  then show "\<forall>x \<in> set (numeral_from_ip ip). x < 256"
    by (auto simp: numeral_from_ip_def)
qed (simp add: numeral_from_ip_def)

lemma ip_from_numeral_eq:
  assumes "length ns = 4"
  shows "(ip_from_numeral ns :: ('e, _) outcome) = Ok (from_be_bytes (map ucast ns))"
proof -
  have "(try_map (\<lambda>idx. unwrap (list_get ns idx)) [0..<4] :: ('e, _) outcome)
      = Ok (map (\<lambda>idx. ns ! idx) [0..<4])"
    using assms by (intro try_map_total) (simp add: unwrap_def list_get_def)
  also have "map (\<lambda>idx. ns ! idx) [0..<4] = ns"
    using map_nth [of ns] assms by simp
  finally show ?thesis
    by (simp add: ip_from_numeral_def)
qed

lemma ip_numeral_inverse:
  assumes "length ns = 4" and "\<forall>x \<in> set ns. x < (256 :: u16)"
  shows "numeral_from_ip (from_be_bytes (map ucast ns)) = ns"
proof -
  have "(ucast (ucast x :: u8) :: u16) = x" if "x < 256" for x :: u16
    using that by (simp only: word_unat_eq_iff word_less_nat_alt unat_ucast_mod) simp
  with assms show ?thesis
    by (simp add: numeral_from_ip_def map_idI)
qed

lemma ip_from_numeral_from_ip: "ip_from_numeral (numeral_from_ip ip) = Ok ip"
proof -
  have "(ucast (ucast x :: u16) :: u8) = x" for x :: u8
    using unat_u8_less [of x]
    by (simp only: word_unat_eq_iff unat_ucast_mod) (simp del: unat_u8_less)
  then have "map ucast (numeral_from_ip ip) = to_be_bytes 4 ip"
    by (simp add: numeral_from_ip_def map_idI)
  then show ?thesis
    by (simp add: ip_from_numeral_eq numeral_from_ip_wf)
qed

lemma decrypt_encrypt_ip:
  assumes "fpe_inverse tp key"
  obtains c where "encrypt_ip tp key peer ip = Ok c" and "decrypt_ip tp key peer c = Ok ip"
proof -
  obtain ys where enc: "tp_encrypt tp key (tp_digest tp peer) (numeral_from_ip ip) = Some ys"
    and ys: "length ys = 4" "\<forall>y \<in> set ys. y < 256"
    and dec: "tp_decrypt tp key (tp_digest tp peer) ys = Some (numeral_from_ip ip)"
    using assms numeral_from_ip_wf [of ip] unfolding fpe_inverse_def by blast
  show ?thesis
  proof
    show "encrypt_ip tp key peer ip = Ok (from_be_bytes (map ucast ys))"
      by (simp add: encrypt_ip_def enc unwrap_def ip_from_numeral_eq [OF ys(1)])
    show "decrypt_ip tp key peer (from_be_bytes (map ucast ys)) = Ok ip"
      by (simp add: decrypt_ip_def ip_numeral_inverse [OF ys] dec unwrap_def ip_from_numeral_from_ip)
  qed
qed

lemma Node_decrypt_encrypt:
  assumes "fpe_inverse tp key"
  obtains m where "(Node_encrypt tp key n :: ('e, _) outcome) = Ok m"
    and "(Node_decrypt tp key m :: ('f, _) outcome) = Ok n" and "node_peer_id m = node_peer_id n"
proof -
  let ?enc = "encrypt_ip tp key (node_peer_id n) :: _ \<Rightarrow> ('e, _) outcome"
  let ?dec = "decrypt_ip tp key (node_peer_id n) :: _ \<Rightarrow> ('f, _) outcome"
  obtain c where c: "?enc (ipv4_addr n) = Ok c" "?dec c = Ok (ipv4_addr n)"
    using assms by (rule decrypt_encrypt_ip)
  obtain d where d: "map_opt_oc ?enc (private_ipv4_addr n) = Ok d"
    "map_opt_oc ?dec d = Ok (private_ipv4_addr n)"
  proof (cases "private_ipv4_addr n")
    case None
    then show ?thesis by (auto intro: that)
  next
    case (Some ip)
    obtain e where "?enc ip = Ok e" "?dec e = Ok ip"
      using assms by (rule decrypt_encrypt_ip)
    with Some show ?thesis by (intro that [of "Some e"]) simp_all
  qed
  show ?thesis
    by (rule that [of "n\<lparr>ipv4_addr := c, private_ipv4_addr := d\<rparr>"])
      (simp_all add: Node_encrypt_def Node_decrypt_def c d)
qed

text \<open>
  C38. What an operator publishes is what every node reads: a node operator written to the chain
  (addresses encrypted, data serialised behind schema version 1) and read back with the same
  encryption key has the same id, name, clients and nodes.
\<close>

theorem operator_on_chain_roundtrip:
  assumes "fpe_inverse tp (cfg_encryption_key cfg)"
    and "\<And>d. (NodeOperator_into_data tp (cfg_encryption_key cfg) op :: (NodeOperatorTryIntoError, _) outcome) = Ok d \<Longrightarrow> codec_reads_back (tp_data_v1 tp) d"
    and "operator_wf op"
  shows "\<exists>sc. NodeOperator_try_into_sc tp (cfg_encryption_key cfg) op = Ok sc \<and> sc_operator_id sc = operator_id op
    \<and> (NodeOperator_from_sc tp cfg sc :: ('e, 'n NodeOperator) outcome)
      = Ok \<lparr>operator_id = operator_id op, operator_name = operator_name op,
            operator_clients = operator_clients op,
            operator_nodes = map (cfg_new_node cfg (operator_id op)) (operator_nodes op),
            operator_counter = initial_counter\<rparr>"
proof -
  let ?key = "cfg_encryption_key cfg"
  let ?enc = "\<lambda>n. and_then (Node_encrypt tp ?key n) (\<lambda>n. Ok (NodeV1_from_Node n)) :: (NodeOperatorTryIntoError, _) outcome"
  have "\<exists>m. ?enc n = Ok m \<and> (Node_decrypt tp ?key (Node_from_NodeV1 m) :: (NodeOperatorTryFromError, _) outcome) = Ok n" for n
  proof -
    obtain m where "(Node_encrypt tp ?key n :: (NodeOperatorTryIntoError, _) outcome) = Ok m"
      and "(Node_decrypt tp ?key m :: (NodeOperatorTryFromError, _) outcome) = Ok n"
      using assms(1) by (rule Node_decrypt_encrypt)
    moreover have "Node_from_NodeV1 (NodeV1_from_Node m) = m"
      by (simp add: Node_from_NodeV1_def NodeV1_from_Node_def)
    ultimately show ?thesis
      by (intro exI [of _ "NodeV1_from_Node m"]) simp
  qed
  then obtain g where g: "?enc n = Ok (g n)"
    "(Node_decrypt tp ?key (Node_from_NodeV1 (g n)) :: (NodeOperatorTryFromError, _) outcome) = Ok n" for n
    by metis
  define data where "data = \<lparr>dv1_name = operator_name op, dv1_nodes = map g (operator_nodes op),
      dv1_clients = map ClientV0_from_Client (operator_clients op)\<rparr>"
  have "try_map ?enc (operator_nodes op) = Ok (map g (operator_nodes op))"
    using g(1) by (rule try_map_total)
  then have enc: "NodeOperator_into_data tp ?key op = (Ok data :: (NodeOperatorTryIntoError, _) outcome)"
    by (simp add: NodeOperator_into_data_def data_def)
  obtain bs where bs: "codec_ser (tp_data_v1 tp) data = Ok bs" "codec_de (tp_data_v1 tp) bs = Ok data"
    using assms(2) [OF enc] by (rule codec_reads_backE)
  have dec: "(new_nodes tp cfg (operator_id op) (map Node_from_NodeV1 (dv1_nodes data)) :: (NodeOperatorTryFromError, _) outcome)
      = Ok (map (cfg_new_node cfg (operator_id op)) (operator_nodes op))"
  proof -
    have "(new_nodes tp cfg i (map Node_from_NodeV1 (map g ns)) :: (NodeOperatorTryFromError, _) outcome)
        = Ok (map (cfg_new_node cfg i) ns)" for i ns
      by (induction ns) (simp_all add: new_nodes_def g(2))
    then show ?thesis by (simp add: data_def)
  qed
  have clients: "map Client_from_ClientV0 (dv1_clients data) = operator_clients op"
    by (simp add: data_def Client_from_ClientV0_def ClientV0_from_Client_def map_idI)
  show ?thesis
  proof (intro exI conjI)
    show "NodeOperator_try_into_sc tp ?key op = Ok \<lparr>sc_operator_id = operator_id op, sc_operator_data = 1 # bs\<rparr>"
      using enc bs(1) by (simp add: NodeOperator_try_into_sc_def)
  next
    have "\<not> length (operator_nodes op) < MIN_NODES"
      using assms(3) by (simp add: operator_wf_def)
    then show "(NodeOperator_from_sc tp cfg \<lparr>sc_operator_id = operator_id op, sc_operator_data = 1 # bs\<rparr> :: ('e, 'n NodeOperator) outcome)
      = Ok \<lparr>operator_id = operator_id op, operator_name = operator_name op,
            operator_clients = operator_clients op,
            operator_nodes = map (cfg_new_node cfg (operator_id op)) (operator_nodes op),
            operator_counter = initial_counter\<rparr>"
      using bs(2) dec clients
      by (simp add: NodeOperator_from_sc_def NodeOperator_try_from_sc_def NodeOperator_new_def data_def)
  qed simp
qed

text \<open>
  A concrete instance of the third-party functions: the identity as cipher, an empty digest and
  codecs that know one value.
\<close>

definition single_codec :: "'a \<Rightarrow> 'a codec" where
  "single_codec x = \<lparr>codec_ser = (\<lambda>_. Ok []), codec_de = (\<lambda>_. Ok x)\<rparr>"

definition sample_third_party :: "DataV1 \<Rightarrow> third_party" where
  "sample_third_party d =
     \<lparr>tp_encrypt = (\<lambda>_ _. Some), tp_decrypt = (\<lambda>_ _. Some), tp_digest = (\<lambda>_. []),
      tp_random_peer_id = (\<lambda>_. []),
      tp_data_v0 = single_codec \<lparr>dv0_name = Name [], dv0_nodes = [], dv0_clients = []\<rparr>,
      tp_data_v1 = single_codec d,
      tp_extra_v0 = single_codec (ExtraV0_from_Settings Settings_default),
      tp_extra_v1 = single_codec (ExtraV1_from_Settings Settings_default)\<rparr>"

definition sample_node :: "u8 \<Rightarrow> Node" where
  "sample_node i = \<lparr>node_peer_id = [i], ipv4_addr = 167772160 + ucast i, private_ipv4_addr = Some 1,
     primary_port = 3010, secondary_port = 3011\<rparr>"

definition sample_node_operator :: "Node NodeOperator" where
  "sample_node_operator =
     \<lparr>operator_id = 7, operator_name = Name ''op'', operator_clients = [\<lparr>client_peer_id = [9], authorized_namespaces = [0]\<rparr>],
      operator_nodes = [sample_node 1, sample_node 2], operator_counter = initial_counter\<rparr>"

definition sample_data :: DataV1 where
  "sample_data = \<lparr>dv1_name = Name ''op'', dv1_nodes = map NodeV1_from_Node [sample_node 1, sample_node 2],
     dv1_clients = [ClientV0_from_Client \<lparr>client_peer_id = [9], authorized_namespaces = [0]\<rparr>]\<rparr>"

definition sample_config :: "Node config" where
  "sample_config = \<lparr>cfg_encryption_key = 5, cfg_new_node = (\<lambda>_ n. n), cfg_settings = None\<rparr>"

lemma sample_fpe_inverse: "fpe_inverse (sample_third_party d) key"
  by (simp add: fpe_inverse_def sample_third_party_def)

lemma sample_Node_encrypt: "Node_encrypt (sample_third_party d) key (sample_node i) = Ok (sample_node i)"
  by (simp add: Node_encrypt_def encrypt_ip_def sample_third_party_def sample_node_def
      unwrap_def ip_from_numeral_from_ip)

lemma sample_into_data:
  "NodeOperator_into_data (sample_third_party d) key sample_node_operator = Ok sample_data"
  by (simp add: NodeOperator_into_data_def sample_node_operator_def sample_Node_encrypt sample_data_def)

theorem operator_on_chain_roundtrip_witness:
  "fpe_inverse (sample_third_party sample_data) (cfg_encryption_key sample_config)
   \<and> operator_wf sample_node_operator
   \<and> (\<exists>sc. NodeOperator_try_into_sc (sample_third_party sample_data) 5 sample_node_operator = Ok sc
        \<and> NodeOperator_from_sc (sample_third_party sample_data) sample_config sc = (Ok sample_node_operator :: (unit, _) outcome))"
proof -
  have wf: "operator_wf sample_node_operator"
    by (simp add: operator_defs sample_node_operator_def)
  have "codec_reads_back (tp_data_v1 (sample_third_party sample_data)) sample_data"
    by (simp add: codec_reads_back_def sample_third_party_def single_codec_def)
  then have reads: "codec_reads_back (tp_data_v1 (sample_third_party sample_data)) d"
    if "(NodeOperator_into_data (sample_third_party sample_data) (cfg_encryption_key sample_config) sample_node_operator
          :: (NodeOperatorTryIntoError, _) outcome) = Ok d" for d
    using that by (simp add: sample_into_data)
  have "map (cfg_new_node sample_config i) ns = ns" for i ns
    by (simp add: sample_config_def map_idI)
  moreover have "\<lparr>operator_id = operator_id sample_node_operator, operator_name = operator_name sample_node_operator,
      operator_clients = operator_clients sample_node_operator, operator_nodes = operator_nodes sample_node_operator,
      operator_counter = initial_counter\<rparr> = sample_node_operator"
    by (simp add: sample_node_operator_def)
  moreover have "cfg_encryption_key sample_config = 5"
    by (simp add: sample_config_def)
  ultimately show ?thesis
    using wf sample_fpe_inverse operator_on_chain_roundtrip
      [where ?'e = unit and cfg = sample_config, OF sample_fpe_inverse [of sample_data] reads wf]
    by auto
qed

end
