(* ===== verification/Node_Operators.thy ===== *)
theory Node_Operators
  imports Node_Operator "HOL-Library.AList"
begin

text \<open>
  Model of \<open>crates/cluster/src/node_operators.rs\<close>: the slot map of node operators. The ordered
  \<open>IndexMap\<close> from ids to slot indices is an association list in insertion order
  (\<open>AList.update\<close> is its \<open>insert\<close>, \<open>AList.delete\<close> its \<open>shift_remove\<close>).
\<close>

definition MAX_OPERATORS :: nat where
  "MAX_OPERATORS = 256"

definition REPLICATION_FACTOR :: nat where
  "REPLICATION_FACTOR = 5"

definition MIN_OPERATORS :: nat where
  "MIN_OPERATORS = REPLICATION_FACTOR"

record 'n NodeOperators =
  id_to_idx :: "(operator_id \<times> operator_idx) list"
  slots :: "'n NodeOperator option list"
  operators_counter :: usize

datatype NodeOperatorsCreationError =
  TooManyOperatorSlots nat | TooFewOperators nat | OperatorDuplicate operator_id

datatype OperatorNotFoundError = OperatorNotFoundError operator_id
datatype OperatorAlreadyExistsError = OperatorAlreadyExistsError operator_id
datatype SlotOccupiedError = SlotOccupiedError operator_idx
datatype NoAvailableSlotsError = NoAvailableSlotsError

section \<open>Construction\<close>

text \<open>One iteration of the loop over the slots: \<open>insert\<close> must not replace an earlier entry.\<close>

definition insert_slot ::
  "nat \<times> 'n NodeOperator option \<Rightarrow> (operator_id \<times> operator_idx) list
   \<Rightarrow> (NodeOperatorsCreationError, (operator_id \<times> operator_idx) list) outcome" where
  "insert_slot is m =
     (case snd is of
        None \<Rightarrow> Ok m
      | Some op \<Rightarrow>
          (if map_of m (operator_id op) \<noteq> None then Err (OperatorDuplicate (operator_id op))
           else Ok (AList.update (operator_id op) (of_nat (fst is)) m)))"

definition from_slots ::
  "'n NodeOperator option list \<Rightarrow> (NodeOperatorsCreationError, 'n NodeOperators) outcome" where
  "from_slots slts =
     (if length slts < MIN_OPERATORS then Err (TooFewOperators (length slts))
      else if length slts > MAX_OPERATORS then Err (TooManyOperatorSlots (length slts))
      else and_then (try_fold insert_slot (enumerate 0 slts) []) (\<lambda>m.
           Ok \<lparr>id_to_idx = m, slots = slts, operators_counter = initial_counter\<rparr>))"

section \<open>Lookups\<close>

definition get_by_idx :: "'n NodeOperators \<Rightarrow> operator_idx \<Rightarrow> 'n NodeOperator option" where
  "get_by_idx m idx = Option.bind (list_get (slots m) (unat idx)) (\<lambda>slot. slot)"

definition get_idx :: "'n NodeOperators \<Rightarrow> operator_id \<Rightarrow> operator_idx option" where
  "get_idx m id' = map_of (id_to_idx m) id'"

definition get_operator :: "'n NodeOperators \<Rightarrow> operator_id \<Rightarrow> 'n NodeOperator option" where
  "get_operator m id' = Option.bind (get_idx m id') (get_by_idx m)"

definition contains :: "'n NodeOperators \<Rightarrow> operator_id \<Rightarrow> bool" where
  "contains m id' \<longleftrightarrow> get_idx m id' \<noteq> None"

definition contains_idx :: "'n NodeOperators \<Rightarrow> operator_idx \<Rightarrow> bool" where
  "contains_idx m idx \<longleftrightarrow> get_by_idx m idx \<noteq> None"

text \<open>The first argument is \<open>AsRef<PeerId>\<close> of the application's node type.\<close>

definition contains_node :: "('n \<Rightarrow> PeerId) \<Rightarrow> 'n NodeOperators \<Rightarrow> PeerId \<Rightarrow> bool" where
  "contains_node peer_of m peer =
     list_ex (\<lambda>slot. case slot of
         Some op \<Rightarrow> list_ex (\<lambda>node. peer_of node = peer) (operator_nodes op)
       | None \<Rightarrow> False) (slots m)"

definition contains_client :: "'n NodeOperators \<Rightarrow> PeerId \<Rightarrow> bool" where
  "contains_client m peer =
     list_ex (\<lambda>slot. case slot of
         Some op \<Rightarrow> list_ex (\<lambda>client. client_peer_id client = peer) (operator_clients op)
       | None \<Rightarrow> False) (slots m)"

definition is_authorized_client :: "'n NodeOperators \<Rightarrow> PeerId \<Rightarrow> operator_id \<Rightarrow> u8 \<Rightarrow> bool" where
  "is_authorized_client m peer id' namespace_idx =
     (case get_operator m id' of
        Some op \<Rightarrow> list_ex (\<lambda>client. client_peer_id client = peer
                              \<and> namespace_idx \<in> set (authorized_namespaces client)) (operator_clients op)
      | None \<Rightarrow> False)"

definition require_idx :: "'n NodeOperators \<Rightarrow> operator_id \<Rightarrow> (OperatorNotFoundError, operator_idx) outcome" where
  "require_idx m id' = ok_or (OperatorNotFoundError id') (get_idx m id')"

definition require_not_exists :: "'n NodeOperators \<Rightarrow> operator_id \<Rightarrow> (OperatorAlreadyExistsError, unit) outcome" where
  "require_not_exists m id' = guard_oc (\<not> contains m id') (OperatorAlreadyExistsError id')"

definition require_not_full :: "'n NodeOperators \<Rightarrow> (NoAvailableSlotsError, unit) outcome" where
  "require_not_full m =
     guard_oc (length (slots m) < MAX_OPERATORS \<or> list_ex (\<lambda>slot. slot = None) (slots m)) NoAvailableSlotsError"

definition require_free_slot :: "'n NodeOperators \<Rightarrow> operator_idx \<Rightarrow> (SlotOccupiedError, unit) outcome" where
  "require_free_slot m idx = guard_oc (\<not> contains_idx m idx) (SlotOccupiedError idx)"

section \<open>Update\<close>

definition expand :: "operator_idx \<Rightarrow> 'n NodeOperator option list \<Rightarrow> 'n NodeOperator option list" where
  "expand idx slts = (let desired_len = unat idx + 1 in slts @ replicate (desired_len - length slts) None)"

text \<open>The last statement indexes the slots and panics out of range.\<close>

definition set_slot ::
  "operator_idx \<Rightarrow> 'n NodeOperator option \<Rightarrow> 'n NodeOperators \<Rightarrow> ('e, 'n NodeOperators) outcome" where
  "set_slot idx slot m =
     (let ids = (case get_by_idx m idx of
                   Some op \<Rightarrow> AList.delete (operator_id op) (id_to_idx m)
                 | None \<Rightarrow> id_to_idx m);
          slts = (if length (slots m) \<ge> unat idx then expand idx (slots m) else slots m);
          ids = (case slot of Some op \<Rightarrow> AList.update (operator_id op) idx ids | None \<Rightarrow> ids)
      in if unat idx < length slts
         then Ok (m\<lparr>id_to_idx := ids, slots := slts[unat idx := slot]\<rparr>)
         else Panic)"

section \<open>Round-robin\<close>

text \<open>\<open>self.id_to_idx[i]\<close> by position, then \<open>self.slots[idx].as_ref().unwrap()\<close>.\<close>

definition operator_at :: "'n NodeOperators \<Rightarrow> nat \<Rightarrow> ('e, 'n NodeOperator) outcome" where
  "operator_at m i =
     and_then (unwrap (list_get (id_to_idx m) i)) (\<lambda>(_, idx).
     and_then (unwrap (list_get (slots m) (unat idx))) unwrap)"

fun find_some_oc :: "('a \<Rightarrow> ('e, 'b) outcome) \<Rightarrow> ('b \<Rightarrow> 'r option) \<Rightarrow> 'a list \<Rightarrow> ('e, 'r option) outcome" where
  "find_some_oc g cb [] = Ok None"
| "find_some_oc g cb (x # xs) =
     and_then (g x) (\<lambda>b. case cb b of Some r \<Rightarrow> Ok (Some r) | None \<Rightarrow> find_some_oc g cb xs)"

definition find_next_operator ::
  "'n NodeOperators \<Rightarrow> ('n NodeOperator \<Rightarrow> 'r option) \<Rightarrow> ('e, 'r option) outcome \<times> 'n NodeOperators" where
  "find_next_operator m cb =
     (let num_operators = length (id_to_idx m); (offset, counter) = fetch_add_1 (operators_counter m)
      in (find_some_oc (\<lambda>idx. operator_at m (rr_index offset num_operators idx)) cb [0..<num_operators],
          m\<lparr>operators_counter := counter\<rparr>))"

definition next_operator :: "'n NodeOperators \<Rightarrow> ('e, 'n NodeOperator) outcome \<times> 'n NodeOperators" where
  "next_operator m =
     (let (n, counter) = fetch_add_1 (operators_counter m); len = length (id_to_idx m)
      in (if len = 0 then Panic else operator_at m (unat n mod len), m\<lparr>operators_counter := counter\<rparr>))"

section \<open>The interface of the slot map\<close>

text \<open>
  What the cluster view relies on: ids and slot indices determine each other, and writing a slot
  changes that slot only. \<open>fits\<close> says which indices may be written.
\<close>

locale slot_map =
  fixes wf :: "'m \<Rightarrow> bool"
    and lookup :: "'m \<Rightarrow> operator_idx \<Rightarrow> 'o option"
    and index_of :: "'m \<Rightarrow> operator_id \<Rightarrow> operator_idx option"
    and ident :: "'o \<Rightarrow> operator_id"
    and fits :: "'m \<Rightarrow> operator_idx \<Rightarrow> bool"
    and put :: "operator_idx \<Rightarrow> 'o option \<Rightarrow> 'm \<Rightarrow> ('e, 'm) outcome"
  assumes index_iff: "wf m \<Longrightarrow> index_of m k = Some i \<longleftrightarrow> (\<exists>op. lookup m i = Some op \<and> ident op = k)"
    and occupied_fits: "lookup m i \<noteq> None \<Longrightarrow> fits m i"
    and put_ok: "wf m \<Longrightarrow> fits m i \<Longrightarrow> (\<forall>op j. slot = Some op \<longrightarrow> index_of m (ident op) = Some j \<longrightarrow> j = i)
      \<Longrightarrow> \<exists>m'. put i slot m = Ok m' \<and> wf m' \<and> (\<forall>j. lookup m' j = (if j = i then slot else lookup m j))"
begin

lemma ident_inj: "wf m \<Longrightarrow> lookup m i = Some a \<Longrightarrow> lookup m j = Some b \<Longrightarrow> ident a = ident b \<Longrightarrow> i = j"
  using index_iff [of m "ident a" i] index_iff [of m "ident a" j] by auto

lemma index_occupied: "wf m \<Longrightarrow> index_of m k = Some i \<Longrightarrow> lookup m i \<noteq> None"
  by (auto simp: index_iff)

text \<open>Adding under a new id, replacing under the same id, removing.\<close>

lemma put_new:
  assumes "wf m" and "fits m i" and "index_of m (ident op) = None"
  obtains m' where "put i (Some op) m = Ok m'" and "wf m'"
    and "\<And>j. lookup m' j = (if j = i then Some op else lookup m j)"
proof -
  have "\<forall>op' j. Some op = Some op' \<longrightarrow> index_of m (ident op') = Some j \<longrightarrow> j = i"
    using assms(3) by simp
  from put_ok [OF assms(1,2) this] that show thesis by blast
qed

lemma put_same:
  assumes "wf m" and "index_of m (ident op) = Some i"
  obtains m' where "put i (Some op) m = Ok m'" and "wf m'"
    and "\<And>j. lookup m' j = (if j = i then Some op else lookup m j)"
proof -
  have "\<forall>op' j. Some op = Some op' \<longrightarrow> index_of m (ident op') = Some j \<longrightarrow> j = i"
    using assms(2) by simp
  from put_ok [OF assms(1) occupied_fits [OF index_occupied [OF assms]] this] that show thesis by blast
qed

lemma put_none:
  assumes "wf m" and "fits m i"
  obtains m' where "put i None m = Ok m'" and "wf m'"
    and "\<And>j. lookup m' j = (if j = i then None else lookup m j)"
proof -
  have "\<forall>op' j. None = Some op' \<longrightarrow> index_of m (ident op') = Some j \<longrightarrow> j = i"
    by simp
  from put_ok [OF assms this] that show thesis by blast
qed

lemma index_after_put:
  assumes "wf m" and "wf m'" and "\<And>j. lookup m' j = (if j = i then slot else lookup m j)"
  shows "index_of m' k = Some j \<longleftrightarrow>
    (if j = i then (\<exists>op. slot = Some op \<and> ident op = k) else index_of m k = Some j)"
  by (simp add: index_iff [OF assms(2)] index_iff [OF assms(1)] assms(3))

end

section \<open>Well-formed slot maps\<close>

text \<open>The id table that the slots determine.\<close>

fun live_ids :: "nat \<Rightarrow> 'n NodeOperator option list \<Rightarrow> (operator_id \<times> operator_idx) list" where
  "live_ids n [] = []"
| "live_ids n (None # slts) = live_ids (Suc n) slts"
| "live_ids n (Some op # slts) = (operator_id op, of_nat n) # live_ids (Suc n) slts"

definition nops_wf :: "'n NodeOperators \<Rightarrow> bool" where
  "nops_wf m \<longleftrightarrow> distinct (map fst (id_to_idx m)) \<and> length (slots m) \<le> MAX_OPERATORS
     \<and> set (id_to_idx m) = set (live_ids 0 (slots m))"

definition idx_fits :: "'n NodeOperators \<Rightarrow> operator_idx \<Rightarrow> bool" where
  "idx_fits m idx \<longleftrightarrow> unat idx \<le> length (slots m)"

lemma in_live_ids:
  "(k, i) \<in> set (live_ids n slts) \<longleftrightarrow>
   (\<exists>j op. j < length slts \<and> slts ! j = Some op \<and> operator_id op = k \<and> i = of_nat (n + j))"
proof (induction n slts rule: live_ids.induct)
  case (2 n slts)
  have "(\<exists>j op. j < Suc (length slts) \<and> (None # slts) ! j = Some op \<and> P j op)
      \<longleftrightarrow> (\<exists>j op. j < length slts \<and> slts ! j = Some op \<and> P (Suc j) op)" for P
    by (metis Suc_less_eq not0_implies_Suc nth_Cons_0 nth_Cons_Suc option.distinct(1))
  with 2 show ?case by (simp add: add.left_commute)
next
  case (3 n op slts)
  have "(\<exists>j x. j < Suc (length slts) \<and> (Some op # slts) ! j = Some x \<and> P j x)
      \<longleftrightarrow> P 0 op \<or> (\<exists>j x. j < length slts \<and> slts ! j = Some x \<and> P (Suc j) x)" for P
    by (auto simp: less_Suc_eq_0_disj)
  with 3 show ?case by (auto simp: add.left_commute)
qed simp

lemma get_by_idx_eq_Some:
  "get_by_idx m i = Some op \<longleftrightarrow> unat i < length (slots m) \<and> slots m ! unat i = Some op"
  by (auto simp: get_by_idx_def bind_eq_Some_conv)

lemma in_live_ids_slots:
  assumes "length (slots m) \<le> MAX_OPERATORS"
  shows "(k, i) \<in> set (live_ids 0 (slots m)) \<longleftrightarrow> (\<exists>op. get_by_idx m i = Some op \<and> operator_id op = k)"
proof -
  have "i = of_nat j \<longleftrightarrow> unat i = j" if "j < length (slots m)" for j
    using that assms by (auto simp: MAX_OPERATORS_def)
  then have "(k, i) \<in> set (live_ids 0 (slots m)) \<longleftrightarrow>
      (\<exists>j op. j < length (slots m) \<and> slots m ! j = Some op \<and> operator_id op = k \<and> unat i = j)"
    by (simp add: in_live_ids cong: conj_cong)
  then show ?thesis
    by (auto simp: get_by_idx_eq_Some)
qed

lemma nops_wf_get_idx:
  assumes "nops_wf m"
  shows "get_idx m k = Some i \<longleftrightarrow> (\<exists>op. get_by_idx m i = Some op \<and> operator_id op = k)"
  using assms by (simp add: nops_wf_def get_idx_def map_of_eq_Some_iff flip: in_live_ids_slots)

lemma nops_wfI:
  assumes "distinct (map fst (id_to_idx m))" and "length (slots m) \<le> MAX_OPERATORS"
    and "\<And>k i. map_of (id_to_idx m) k = Some i \<longleftrightarrow> (\<exists>op. get_by_idx m i = Some op \<and> operator_id op = k)"
  shows "nops_wf m"
  using assms by (auto simp: nops_wf_def in_live_ids_slots map_of_eq_Some_iff)

lemma length_expand: "length (expand idx slts) = max (length slts) (unat idx + 1)"
  by (auto simp: expand_def Let_def)

lemma list_get_expand: "Option.bind (list_get (expand idx slts) j) (\<lambda>slot. slot) = Option.bind (list_get slts j) (\<lambda>slot. slot)"
  by (auto simp: expand_def Let_def list_get_def nth_append)

lemma get_by_idx_set_slot:
  assumes "set_slot i slot m = Ok m'"
  shows "get_by_idx m' j = (if j = i then slot else get_by_idx m j)"
proof -
  have m': "slots m' = (if unat i \<le> length (slots m) then expand i (slots m) else slots m)[unat i := slot]"
    and fits: "unat i < length (slots m')"
    using assms by (auto simp: set_slot_def Let_def split: if_splits)
  show ?thesis
  proof (cases "j = i")
    case True
    with m' fits show ?thesis
      by (simp add: get_by_idx_def list_get_def)
  next
    case False
    then have "unat i \<noteq> unat j"
      by (auto simp: word_unat_eq_iff)
    with False show ?thesis
      by (simp add: get_by_idx_def m' list_get_update list_get_expand)
  qed
qed

lemma set_slot_Ok_iff: "(\<exists>m'. set_slot i slot m = Ok m') \<longleftrightarrow> idx_fits m i"
  by (auto simp: set_slot_def Let_def idx_fits_def length_expand)

lemma set_slot_panics_iff: "set_slot i slot m = Panic \<longleftrightarrow> length (slots m) < unat i"
  by (auto simp: set_slot_def Let_def length_expand)

lemma length_slots_set_slot:
  assumes "set_slot i slot m = Ok m'" and "length (slots m) \<le> MAX_OPERATORS"
  shows "length (slots m') \<le> MAX_OPERATORS"
  using assms unat_u8_less [of i]
  by (auto simp: set_slot_def Let_def length_expand MAX_OPERATORS_def simp del: unat_u8_less split: if_splits)

lemma map_of_ids_set_slot:
  assumes "set_slot i slot m = Ok m'"
  shows "map_of (id_to_idx m') =
    (let ids = (case get_by_idx m i of Some op \<Rightarrow> (map_of (id_to_idx m))(operator_id op := None)
                | None \<Rightarrow> map_of (id_to_idx m))
     in case slot of Some op \<Rightarrow> ids(operator_id op \<mapsto> i) | None \<Rightarrow> ids)"
  using assms
  by (auto simp: set_slot_def Let_def AList.update_conv' AList.delete_conv' split: if_splits option.splits)

lemma distinct_ids_set_slot:
  assumes "set_slot i slot m = Ok m'" and "distinct (map fst (id_to_idx m))"
  shows "distinct (map fst (id_to_idx m'))"
proof -
  have "distinct (map fst (AList.delete k (id_to_idx m)))" for k
    using assms(2) by (rule AList.distinct_delete)
  then show ?thesis
    using assms by (auto simp: set_slot_def Let_def AList.distinct_update split: if_splits option.splits)
qed

lemma nops_wf_set_slot:
  assumes wf: "nops_wf m" and m': "set_slot i slot m = Ok m'"
    and slot: "\<forall>op j. slot = Some op \<longrightarrow> get_idx m (operator_id op) = Some j \<longrightarrow> j = i"
  shows "nops_wf m'"
proof (rule nops_wfI)
  fix k j
  have old: "map_of (id_to_idx m) k' = Some j' \<longleftrightarrow> (\<exists>op. get_by_idx m j' = Some op \<and> operator_id op = k')" for k' j'
    using nops_wf_get_idx [OF wf] by (simp add: get_idx_def)
  then have inj: "x = y" if "get_by_idx m x = Some a" "get_by_idx m y = Some b" "operator_id a = operator_id b" for x y a b
    using that by (metis option.inject)
  show "map_of (id_to_idx m') k = Some j \<longleftrightarrow> (\<exists>op. get_by_idx m' j = Some op \<and> operator_id op = k)"
    using slot
    by (cases "get_by_idx m i"; cases slot)
      (auto simp: map_of_ids_set_slot [OF m'] get_by_idx_set_slot [OF m'] old get_idx_def Let_def
        dest: inj)
qed (use assms in \<open>auto simp: nops_wf_def intro: distinct_ids_set_slot length_slots_set_slot\<close>)

interpretation nops: slot_map nops_wf get_by_idx get_idx operator_id idx_fits set_slot
proof
  fix m :: "'n NodeOperators" and k i
  assume "nops_wf m"
  then show "get_idx m k = Some i \<longleftrightarrow> (\<exists>op. get_by_idx m i = Some op \<and> operator_id op = k)"
    by (rule nops_wf_get_idx)
next
  fix m :: "'n NodeOperators" and i
  assume "get_by_idx m i \<noteq> None"
  then show "idx_fits m i"
    by (auto simp: get_by_idx_eq_Some idx_fits_def)
next
  fix m :: "'n NodeOperators" and i and slot :: "'n NodeOperator option"
  assume wf: "nops_wf m" and fits: "idx_fits m i"
    and slot: "\<forall>op j. slot = Some op \<longrightarrow> get_idx m (operator_id op) = Some j \<longrightarrow> j = i"
  obtain m' where m': "set_slot i slot m = (Ok m' :: ('e, _) outcome)"
    using fits set_slot_Ok_iff by blast
  have "\<forall>j. get_by_idx m' j = (if j = i then slot else get_by_idx m j)"
    using get_by_idx_set_slot [OF m'] by simp
  with m' nops_wf_set_slot [OF wf m' slot]
  show "\<exists>m'. set_slot i slot m = (Ok m' :: ('e, _) outcome) \<and> nops_wf m'
      \<and> (\<forall>j. get_by_idx m' j = (if j = i then slot else get_by_idx m j))"
    by (intro exI [of _ m']) simp
qed

subsection \<open>Construction\<close>

definition slot_ids :: "'n NodeOperator option list \<Rightarrow> operator_id list" where
  "slot_ids slts = map operator_id (List.map_filter (\<lambda>slot. slot) slts)"

lemma slot_ids_simps [simp]:
  "slot_ids [] = []" "slot_ids (None # slts) = slot_ids slts"
  "slot_ids (Some op # slts) = operator_id op # slot_ids slts"
  by (simp_all add: slot_ids_def List.map_filter_simps)

lemma map_fst_live_ids: "map fst (live_ids n slts) = slot_ids slts"
  by (induction n slts rule: live_ids.induct) simp_all

lemma update_new_key: "k \<notin> fst ` set m \<Longrightarrow> AList.update k v m = m @ [(k, v)]"
  by (induction m) auto

lemma try_fold_insert_slot:
  assumes "distinct (map fst m)"
  shows "try_fold insert_slot (enumerate n slts) m = Ok m' \<longleftrightarrow>
    distinct (map fst m @ slot_ids slts) \<and> m' = m @ live_ids n slts"
  using assms
proof (induction n slts arbitrary: m rule: live_ids.induct)
  case (3 n op slts)
  show ?case
  proof (cases "operator_id op \<in> fst ` set m")
    case True
    then have "insert_slot (n, Some op) m = Err (OperatorDuplicate (operator_id op))"
      by (auto simp: insert_slot_def map_of_eq_None_iff)
    with True show ?thesis by auto
  next
    case False
    then have "insert_slot (n, Some op) m = Ok (m @ [(operator_id op, of_nat n)])"
      by (auto simp: insert_slot_def map_of_eq_None_iff update_new_key image_iff)
    with False 3 show ?thesis by auto
  qed
qed (auto simp: insert_slot_def)

lemma from_slots_eq_Ok:
  "from_slots slts = Ok m \<longleftrightarrow>
   MIN_OPERATORS \<le> length slts \<and> length slts \<le> MAX_OPERATORS \<and> distinct (slot_ids slts)
   \<and> m = \<lparr>id_to_idx = live_ids 0 slts, slots = slts, operators_counter = initial_counter\<rparr>"
  by (auto simp: from_slots_def outcome_simps try_fold_insert_slot)

lemma from_slots_wf: "from_slots slts = Ok m \<Longrightarrow> nops_wf m"
  by (simp add: from_slots_eq_Ok nops_wf_def map_fst_live_ids)


subsection \<open>Updates\<close>

lemma get_operator_eq_Some:
  assumes "nops_wf m"
  shows "get_operator m k = Some op \<longleftrightarrow> (\<exists>i. get_by_idx m i = Some op) \<and> operator_id op = k"
proof -
  have "get_operator m k = Some op \<longleftrightarrow> (\<exists>i. get_idx m k = Some i \<and> get_by_idx m i = Some op)"
    by (auto simp: get_operator_def bind_eq_Some_conv)
  then show ?thesis
    by (auto simp: nops.index_iff [OF assms])
qed


definition sample_operators :: "nat NodeOperators" where
  "sample_operators =
     (let slts = map (\<lambda>i. Some ((sample_operator [1, 2])\<lparr>operator_id := i,
         operator_clients := [\<lparr>client_peer_id = [9], authorized_namespaces = [0]\<rparr>]\<rparr>)) [0, 1, 2, 3, 4, 5]
      in \<lparr>id_to_idx = live_ids 0 slts, slots = slts, operators_counter = 0\<rparr>)"

lemma sample_operators_slots:
  "slots sample_operators = map (\<lambda>i. Some ((sample_operator [1, 2])\<lparr>operator_id := i,
         operator_clients := [\<lparr>client_peer_id = [9], authorized_namespaces = [0]\<rparr>]\<rparr>)) [0, 1, 2, 3, 4, 5]"
  "id_to_idx sample_operators = [(0, 0), (1, 1), (2, 2), (3, 3), (4, 4), (5, 5)]"
  by (simp_all add: sample_operators_def Let_def)

lemma sample_operators_wf: "nops_wf sample_operators"
  by (simp add: nops_wf_def sample_operators_slots MAX_OPERATORS_def)


subsection \<open>Round-robin and authorization\<close>

lemma operator_at_wf:
  assumes "nops_wf m" and "j < length (id_to_idx m)"
  obtains op where "operator_at m j = (Ok op :: ('e, _) outcome)" and "get_by_idx m (snd (id_to_idx m ! j)) = Some op"
    and "operator_id op = fst (id_to_idx m ! j)"
proof -
  obtain k i where ki: "id_to_idx m ! j = (k, i)" by (cases "id_to_idx m ! j")
  then have "(k, i) \<in> set (live_ids 0 (slots m))"
    using assms nth_mem by (fastforce simp: nops_wf_def)
  then obtain op where op: "get_by_idx m i = Some op" "operator_id op = k"
    using assms(1) by (auto simp: nops_wf_def in_live_ids_slots)
  moreover have "operator_at m j = (Ok op :: ('e, _) outcome)"
    using op(1) assms(2) ki
    by (simp add: operator_at_def unwrap_def list_get_def get_by_idx_eq_Some)
  ultimately show ?thesis
    using that ki by simp
qed

lemma find_some_oc_total:
  assumes "\<And>x. x \<in> set xs \<Longrightarrow> g x = Ok (h x)"
  shows "find_some_oc g cb xs = Ok (find_some (\<lambda>x. cb (h x)) xs)"
  using assms by (induction xs) (auto split: option.splits)

lemma occupied_iff_listed:
  assumes "nops_wf m"
  shows "get_by_idx m i = Some op \<longleftrightarrow>
    (\<exists>j < length (id_to_idx m). (operator_at m j :: ('e, _) outcome) = Ok op \<and> snd (id_to_idx m ! j) = i)"
proof
  assume "get_by_idx m i = Some op"
  then have "(operator_id op, i) \<in> set (id_to_idx m)"
    using assms by (auto simp: nops_wf_def in_live_ids_slots)
  then obtain j where j: "j < length (id_to_idx m)" "id_to_idx m ! j = (operator_id op, i)"
    by (auto simp: in_set_conv_nth)
  with operator_at_wf [OF assms j(1), where ?'e = 'e] \<open>get_by_idx m i = Some op\<close>
  show "\<exists>j < length (id_to_idx m). (operator_at m j :: ('e, _) outcome) = Ok op \<and> snd (id_to_idx m ! j) = i"
    by (metis option.inject snd_conv)
next
  assume "\<exists>j < length (id_to_idx m). (operator_at m j :: ('e, _) outcome) = Ok op \<and> snd (id_to_idx m ! j) = i"
  then show "get_by_idx m i = Some op"
    using operator_at_wf [OF assms, where ?'e = 'e] by (metis outcome.inject(1))
qed



text \<open>
  C37. Authorization is decided by the operator's own entry: a client may use a namespace of an
  operator exactly if the operator's slot lists a client with that peer id and the namespace's index
  among its authorized namespaces.
\<close>

theorem is_authorized_client_iff:
  assumes "nops_wf m"
  shows "is_authorized_client m peer k ns \<longleftrightarrow>
    (\<exists>i op c. get_by_idx m i = Some op \<and> operator_id op = k \<and> c \<in> set (operator_clients op)
        \<and> client_peer_id c = peer \<and> ns \<in> set (authorized_namespaces c))"
proof -
  have "is_authorized_client m peer k ns \<longleftrightarrow>
    (\<exists>op. get_operator m k = Some op \<and> (\<exists>c \<in> set (operator_clients op).
        client_peer_id c = peer \<and> ns \<in> set (authorized_namespaces c)))"
    by (auto simp: is_authorized_client_def list_ex_iff split: option.splits)
  then show ?thesis
    by (auto simp: get_operator_eq_Some [OF assms])
qed

theorem is_authorized_client_iff_witness:
  "nops_wf sample_operators \<and> is_authorized_client sample_operators [9] 3 0
   \<and> \<not> is_authorized_client sample_operators [9] 3 1"
proof -
  have ops: "operator_clients op = [\<lparr>client_peer_id = [9], authorized_namespaces = [0]\<rparr>]"
    if "get_by_idx sample_operators i = Some op" for i op
  proof -
    have "Some op \<in> set (slots sample_operators)"
      using that by (auto simp: get_by_idx_eq_Some dest: nth_mem)
    then show ?thesis
      by (auto simp: sample_operators_slots)
  qed
  have "\<exists>op. get_by_idx sample_operators 3 = Some op \<and> operator_id op = 3"
    by (simp add: get_by_idx_eq_Some sample_operators_slots)
  with ops show ?thesis
    using sample_operators_wf is_authorized_client_iff [OF sample_operators_wf] by fastforce
qed

end
