(* ===== verification/Cluster_Keyspace.thy ===== *)
theory Cluster_Keyspace
  imports Sharding Node_Operators
begin

text \<open>
  Model of \<open>crates/cluster/src/keyspace.rs\<close>: a set of operators, with or without its calculated
  shards. \<open>Keyspace<Shards>\<close> and \<open>Keyspace<()>\<close> are the same record at two types; the sealed
  trait \<open>Calculate\<close> that makes them polymorphic is the locale \<open>shard_calculation\<close>. The operator
  set is a hash set in the code; where it is iterated, the model goes through it in ascending
  order. The hash function (\<open>xxh3\<close>) is the parameter \<open>hash_one\<close>.
\<close>

datatype ReplicationStrategy = UniformDistribution

record 's Keyspace =
  ks_operators :: "operator_idx set"
  ks_shards :: 's
  ks_replication_strategy :: ReplicationStrategy

datatype KeyspaceCreationError = KsTooFewOperators nat | KsTooManyOperators nat
datatype SameKeyspaceError = SameKeyspaceError
datatype UnknownNodeOperator = UnknownNodeOperator operator_idx

datatype KeyspaceTryFromError =
  InvalidReplicationStrategy u8 | KsCreationError KeyspaceCreationError

text \<open>\<open>ReplicationStrategy::try_from(u8)\<close> and \<open>as u8\<close>.\<close>

definition ReplicationStrategy_try_from :: "u8 \<Rightarrow> ReplicationStrategy option" where
  "ReplicationStrategy_try_from b = (if b = 0 then Some UniformDistribution else None)"

fun ReplicationStrategy_as_u8 :: "ReplicationStrategy \<Rightarrow> u8" where
  "ReplicationStrategy_as_u8 UniformDistribution = 0"

definition keyrange :: "u16 \<Rightarrow> u64 \<times> u64" where
  "keyrange id' = key_range (ShardId id')"

definition Keyspace_new ::
  "operator_idx set \<Rightarrow> ReplicationStrategy \<Rightarrow> (KeyspaceCreationError, unit Keyspace) outcome" where
  "Keyspace_new operators strategy =
     (if card operators < REPLICATION_FACTOR then Err (KsTooFewOperators (card operators))
      else if card operators > MAX_OPERATORS then Err (KsTooManyOperators (card operators))
      else Ok \<lparr>ks_operators = operators, ks_shards = (), ks_replication_strategy = strategy\<rparr>)"

definition Keyspace_shard :: "operator_idx ShardingKeyspace Keyspace \<Rightarrow> u64 \<Rightarrow> ('e, operator_idx list) outcome" where
  "Keyspace_shard ks key = shard_replicas (ks_shards ks) (from_key key)"

definition Keyspace_shards :: "operator_idx ShardingKeyspace Keyspace \<Rightarrow> (u16 \<times> operator_idx list) list" where
  "Keyspace_shards ks =
     map (\<lambda>(sid, rs). case sid of ShardId i \<Rightarrow> (i, rs)) (ShardingKeyspace_shards (ks_shards ks))"

definition contains_operator :: "'s Keyspace \<Rightarrow> operator_idx \<Rightarrow> bool" where
  "contains_operator ks idx \<longleftrightarrow> idx \<in> ks_operators ks"

definition require_diff :: "'s Keyspace \<Rightarrow> 't Keyspace \<Rightarrow> (SameKeyspaceError, unit) outcome" where
  "require_diff ks other =
     guard_oc (\<not> (ks_operators ks = ks_operators other
                  \<and> ks_replication_strategy ks = ks_replication_strategy other)) SameKeyspaceError"

text \<open>The loop of \<open>validate\<close>; which unknown index is reported depends on the iteration order.\<close>

definition Keyspace_validate :: "'s Keyspace \<Rightarrow> 'n NodeOperators \<Rightarrow> (UnknownNodeOperator, unit) outcome" where
  "Keyspace_validate ks operators =
     try_fold (\<lambda>idx _. guard_oc (contains_idx operators idx) (UnknownNodeOperator idx))
       (sorted_list_of_set (ks_operators ks)) ()"

text \<open>The two \<open>Calculate\<close> instances. \<open>None\<close> is a panic (\<open>unreachable!\<close>).\<close>

definition calculate_shards ::
  "(operator_idx \<times> nat \<Rightarrow> u64) \<Rightarrow> unit Keyspace \<Rightarrow> operator_idx ShardingKeyspace Keyspace option" where
  "calculate_shards hash_one ks =
     (case ShardingKeyspace_new REPLICATION_FACTOR (sorted_list_of_set (ks_operators ks)) hash_one
             default_is_suitable_replica () of
        Ok sharding \<Rightarrow> Some \<lparr>ks_operators = ks_operators ks, ks_shards = sharding,
                            ks_replication_strategy = UniformDistribution\<rparr>
      | Err (InvalidNodesCount _) \<Rightarrow> None
      | Err IncompleteReplicaSet \<Rightarrow> None
      | Panic \<Rightarrow> None)"

definition calculate_nothing :: "unit Keyspace \<Rightarrow> unit Keyspace option" where
  "calculate_nothing ks = Some ks"

definition Keyspace_into_sc :: "'s Keyspace \<Rightarrow> ScKeyspace" where
  "Keyspace_into_sc ks =
     \<lparr>sc_keyspace_operators = ks_operators ks,
      sc_replication_strategy = ReplicationStrategy_as_u8 (ks_replication_strategy ks)\<rparr>"

definition Keyspace_try_from_sc :: "ScKeyspace \<Rightarrow> (KeyspaceTryFromError, unit Keyspace) outcome" where
  "Keyspace_try_from_sc sc =
     and_then (ok_or (InvalidReplicationStrategy (sc_replication_strategy sc))
                 (ReplicationStrategy_try_from (sc_replication_strategy sc)))
       (\<lambda>strategy. map_err KsCreationError (Keyspace_new (sc_keyspace_operators sc) strategy))"

section \<open>The interface of shard calculation\<close>

text \<open>A keyspace that passed the constructor.\<close>

definition keyspace_wf :: "'s Keyspace \<Rightarrow> bool" where
  "keyspace_wf ks \<longleftrightarrow> REPLICATION_FACTOR \<le> card (ks_operators ks)"

text \<open>
  What the view relies on in \<open>Calculate\<close>: a keyspace that passed its constructor is calculated
  without a panic, its operators stay, and the result is \<open>sound\<close>.
\<close>

locale shard_calculation =
  fixes calc :: "unit Keyspace \<Rightarrow> 's Keyspace option"
    and sound :: "'s Keyspace \<Rightarrow> bool"
  assumes calc_wf: "keyspace_wf ks \<Longrightarrow>
      \<exists>ks'. calc ks = Some ks' \<and> ks_operators ks' = ks_operators ks \<and> sound ks'"
begin

lemma calc_SomeD:
  assumes "keyspace_wf ks" and "calc ks = Some ks'"
  shows "ks_operators ks' = ks_operators ks" and "sound ks'" and "keyspace_wf ks'"
  using calc_wf [OF assms(1)] assms by (auto simp: keyspace_wf_def)

lemma calc_total: "keyspace_wf ks \<Longrightarrow> calc ks \<noteq> None"
  using calc_wf [of ks] by auto

end

interpretation calc_nothing: shard_calculation calculate_nothing "\<lambda>_. True"
  by unfold_locales (simp add: calculate_nothing_def)

text \<open>The shards are the ones \<open>sharding::Keyspace::new\<close> gives for the operators.\<close>

definition shards_sound :: "(operator_idx \<times> nat \<Rightarrow> u64) \<Rightarrow> operator_idx ShardingKeyspace Keyspace \<Rightarrow> bool" where
  "shards_sound hash_one ks \<longleftrightarrow>
     ShardingKeyspace_new REPLICATION_FACTOR (sorted_list_of_set (ks_operators ks)) hash_one
       default_is_suitable_replica () = Ok (ks_shards ks)"

lemma calculate_shards_wf:
  assumes "keyspace_wf ks"
  obtains ks' where "calculate_shards h ks = Some ks'" and "ks_operators ks' = ks_operators ks"
    and "shards_sound h ks'"
proof -
  obtain sh where "ShardingKeyspace_new REPLICATION_FACTOR (sorted_list_of_set (ks_operators ks)) h
      default_is_suitable_replica () = Ok sh"
    using assms default_strategy.new_accepts [of REPLICATION_FACTOR "sorted_list_of_set (ks_operators ks)" h "()"]
    by (simp add: keyspace_wf_def)
  then show ?thesis
    using that [of "\<lparr>ks_operators = ks_operators ks, ks_shards = sh, ks_replication_strategy = UniformDistribution\<rparr>"]
    by (simp add: calculate_shards_def shards_sound_def)
qed

interpretation calc_shards: shard_calculation "calculate_shards h" "shards_sound h" for h
  using calculate_shards_wf by unfold_locales metis

section \<open>Properties\<close>

lemma Keyspace_new_eq_Ok:
  "Keyspace_new ops st = Ok ks \<longleftrightarrow> REPLICATION_FACTOR \<le> card ops
     \<and> ks = \<lparr>ks_operators = ops, ks_shards = (), ks_replication_strategy = st\<rparr>"
proof -
  have "card ops \<le> card (UNIV :: u8 set)"
    by (rule card_mono) simp_all
  then have "\<not> card ops > MAX_OPERATORS"
    by (simp add: MAX_OPERATORS_def card_word)
  then show ?thesis
    by (auto simp: Keyspace_new_def)
qed

lemma Keyspace_try_from_sc_OkD:
  assumes "Keyspace_try_from_sc sc = Ok ks"
  shows "keyspace_wf ks" and "ks_operators ks = sc_keyspace_operators sc"
  using assms
  by (auto simp: Keyspace_try_from_sc_def outcome_simps Keyspace_new_eq_Ok keyspace_wf_def)

lemma Keyspace_try_from_into_sc:
  assumes "keyspace_wf ks"
  shows "Keyspace_try_from_sc (Keyspace_into_sc ks)
    = Ok \<lparr>ks_operators = ks_operators ks, ks_shards = (), ks_replication_strategy = ks_replication_strategy ks\<rparr>"
  using assms
  by (cases "ks_replication_strategy ks")
    (simp add: Keyspace_try_from_sc_def Keyspace_into_sc_def ReplicationStrategy_try_from_def
      ok_or_def keyspace_wf_def Keyspace_new_eq_Ok map_err_eq_Ok)

lemma try_fold_guard:
  "try_fold (\<lambda>x _. guard_oc (P x) (E x)) xs () = Ok u \<longleftrightarrow> (\<forall>x \<in> set xs. P x)"
  by (induction xs) (auto simp: outcome_simps)

lemma Keyspace_validate_iff:
  "Keyspace_validate ks ops = Ok u \<longleftrightarrow> (\<forall>i \<in> ks_operators ks. contains_idx ops i)"
  by (simp add: Keyspace_validate_def try_fold_guard)

lemma try_fold_guard_neq_Panic: "try_fold (\<lambda>x _. guard_oc (P x) (E x)) xs u \<noteq> Panic"
  by (induction xs) (auto simp: outcome_simps)

lemma Keyspace_validate_neq_Panic: "Keyspace_validate ks ops \<noteq> Panic"
  by (simp add: Keyspace_validate_def try_fold_guard_neq_Panic)

lemma Keyspace_shard_sound:
  assumes "shards_sound h ks"
  obtains rs where "Keyspace_shard ks key = (Ok rs :: ('e, _) outcome)" and "distinct rs"
    and "length rs = REPLICATION_FACTOR" and "set rs \<subseteq> ks_operators ks"
proof -
  obtain i where i: "from_key key = ShardId i" by (cases "from_key key")
  note new = assms [unfolded shards_sound_def]
  have "Keyspace_shard ks key = (Ok (take REPLICATION_FACTOR
      (rendezvous h (ks_operators ks) (unat i))) :: ('e, _) outcome)"
    by (simp add: Keyspace_shard_def i shard_replicas_new(1) [OF new])
  moreover have "REPLICATION_FACTOR \<le> card (ks_operators ks)"
    using shard_replicas_new(2) [OF new] by simp
  ultimately show ?thesis
    using replicas_of_rendezvous [of "ks_operators ks" REPLICATION_FACTOR h "unat i"] that by simp
qed

text \<open>
  C33. Every key is served by five operators: a keyspace accepted by its constructor is always
  calculated without a panic, and then the shard of any key has a replica set of five different
  operators of that keyspace.
\<close>

theorem keyspace_replica_sets:
  assumes "Keyspace_new ops st = Ok ks"
  shows "\<exists>ks'. calculate_shards h ks = Some ks' \<and> ks_operators ks' = ops
    \<and> (\<forall>key. \<exists>rs. Keyspace_shard ks' key = (Ok rs :: ('e, _) outcome)
         \<and> distinct rs \<and> length rs = 5 \<and> set rs \<subseteq> ops)"
proof -
  have "keyspace_wf ks" "ks_operators ks = ops"
    using assms by (auto simp: Keyspace_new_eq_Ok keyspace_wf_def)
  then obtain ks' where "calculate_shards h ks = Some ks'" "ks_operators ks' = ops" "shards_sound h ks'"
    by (metis calculate_shards_wf)
  moreover have "\<exists>rs. Keyspace_shard ks' key = (Ok rs :: ('e, _) outcome)
      \<and> distinct rs \<and> length rs = 5 \<and> set rs \<subseteq> ops" for key
    using Keyspace_shard_sound [OF \<open>shards_sound h ks'\<close>, of key, where ?'e = 'e] \<open>ks_operators ks' = ops\<close>
    by (metis REPLICATION_FACTOR_def)
  ultimately show ?thesis by blast
qed

theorem keyspace_replica_sets_witness:
  "\<exists>ks ks' rs. Keyspace_new {1, 2, 3, 4, 5} UniformDistribution = Ok ks
     \<and> calculate_shards (\<lambda>(n, i). of_nat i * ucast n) ks = Some ks'
     \<and> Keyspace_shard ks' 42 = (Ok rs :: (unit, _) outcome) \<and> distinct rs \<and> length rs = 5"
proof -
  obtain ks where ks: "Keyspace_new {1, 2, 3, 4, 5} UniformDistribution = Ok ks"
    by (simp add: Keyspace_new_def REPLICATION_FACTOR_def MAX_OPERATORS_def)
  from ks keyspace_replica_sets [where ?'e = unit, OF ks, of "\<lambda>(n, i). of_nat i * ucast n"] show ?thesis
    by blast
qed

end
