(* ===== verification/Cluster_Migration.thy ===== *)
theory Cluster_Migration
  imports Cluster_Keyspace
begin

text \<open>
  Model of \<open>crates/cluster/src/migration.rs\<close>, \<open>maintenance.rs\<close> and \<open>ownership.rs\<close>: the state of a
  data migration, the guards on it, and the two small records for the maintenance slot and the
  owner. Timestamps on chain are UNIX seconds.
\<close>

section \<open>Migration\<close>

definition PULL_DATA_LEEWAY_TIME :: duration where
  "PULL_DATA_LEEWAY_TIME = duration_from_secs 2"

datatype 's MigrationState =
    StateStarted "'s Keyspace" "operator_idx set"
  | StateAborted datetime
  | StateCompleted

record 's Migration =
  migration_id :: migration_ident
  started_at :: datetime
  migration_state :: "'s MigrationState"

record Plan =
  plan_remove :: "operator_id set"
  plan_add :: "operator_id set"
  plan_replication_strategy :: ReplicationStrategy

datatype MigrationInProgressError = MigrationInProgressError migration_ident
datatype MigrationNotFoundError = MigrationNotFoundError
datatype WrongIdError = WrongIdError migration_ident migration_ident
datatype OperatorNotPullingError = OperatorNotPullingError operator_idx
datatype WrongPullingOperatorsCountError = WrongPullingOperatorsCountError nat nat
datatype MigrationTryFromError = MigrationKeyspace KeyspaceTryFromError | InvalidTimestamp u64

definition migration_keyspace :: "'s Migration \<Rightarrow> 's Keyspace option" where
  "migration_keyspace mig =
     (case migration_state mig of StateStarted ks _ \<Rightarrow> Some ks | StateAborted _ \<Rightarrow> None | StateCompleted \<Rightarrow> None)"

definition pulling_operators :: "'s Migration \<Rightarrow> operator_idx set option" where
  "pulling_operators mig =
     (case migration_state mig of StateStarted _ ops \<Rightarrow> Some ops | StateAborted _ \<Rightarrow> None | StateCompleted \<Rightarrow> None)"

definition migration_is_pulling :: "'s Migration \<Rightarrow> operator_idx \<Rightarrow> bool" where
  "migration_is_pulling mig idx =
     (case migration_state mig of StateStarted _ ops \<Rightarrow> idx \<in> ops | _ \<Rightarrow> False)"

definition is_in_progress :: "'s Migration \<Rightarrow> bool" where
  "is_in_progress mig = (case migration_state mig of StateStarted _ _ \<Rightarrow> True | _ \<Rightarrow> False)"

definition pulling_count :: "'s Migration \<Rightarrow> nat" where
  "pulling_count mig = (case migration_state mig of StateStarted _ ops \<Rightarrow> card ops | _ \<Rightarrow> 0)"

definition complete_pull :: "operator_idx \<Rightarrow> 's Migration \<Rightarrow> 's Migration" where
  "complete_pull idx mig =
     (case migration_state mig of
        StateStarted ks ops \<Rightarrow> mig\<lparr>migration_state := StateStarted ks (ops - {idx})\<rparr>
      | _ \<Rightarrow> mig)"

text \<open>\<open>mem::take\<close> leaves the default state, \<open>Completed\<close>, whatever the state was.\<close>

definition complete_migration :: "'s Migration \<Rightarrow> 's Keyspace option \<times> 's Migration" where
  "complete_migration mig =
     ((case migration_state mig of StateStarted ks _ \<Rightarrow> Some ks | _ \<Rightarrow> None),
      mig\<lparr>migration_state := StateCompleted\<rparr>)"

definition require_id :: "'s Migration \<Rightarrow> migration_ident \<Rightarrow> (WrongIdError, unit) outcome" where
  "require_id mig id' = guard_oc (id' = migration_id mig) (WrongIdError id' (migration_id mig))"

definition require_pulling :: "'s Migration \<Rightarrow> operator_idx \<Rightarrow> (OperatorNotPullingError, unit) outcome" where
  "require_pulling mig idx = guard_oc (migration_is_pulling mig idx) (OperatorNotPullingError idx)"

definition require_pulling_count :: "'s Migration \<Rightarrow> nat \<Rightarrow> (WrongPullingOperatorsCountError, unit) outcome" where
  "require_pulling_count mig expected =
     (let count = pulling_count mig
      in guard_oc (count = expected) (WrongPullingOperatorsCountError expected count))"

text \<open>
  \<open>i64::try_from\<close>, then \<open>from_unix_timestamp\<close>, which accepts times up to the end of the year
  9999.
\<close>

definition parse_timestamp :: "u64 \<Rightarrow> (MigrationTryFromError, datetime) outcome" where
  "parse_timestamp ts =
     ok_or (InvalidTimestamp ts)
       (if unat ts < 2 ^ 63 \<and> unat ts \<le> 253402300799 then Some (int (unat ts) * 1000000000) else None)"

definition Migration_try_from_sc ::
  "ScMigration \<Rightarrow> ScKeyspace \<Rightarrow> (MigrationTryFromError, unit Migration) outcome" where
  "Migration_try_from_sc sc keyspace =
     and_then
       (case sc_aborted_at sc of
          Some at \<Rightarrow> and_then (parse_timestamp at) (\<lambda>at. Ok (StateAborted at))
        | None \<Rightarrow>
            if sc_pulling_operators sc = {} then Ok StateCompleted
            else and_then (map_err MigrationKeyspace (Keyspace_try_from_sc keyspace)) (\<lambda>ks.
                 Ok (StateStarted ks (sc_pulling_operators sc)))) (\<lambda>state.
     and_then (parse_timestamp (sc_started_at sc)) (\<lambda>started.
     Ok \<lparr>migration_id = sc_migration_id sc, started_at = started, migration_state = state\<rparr>))"

definition calculate_keyspace ::
  "(unit Keyspace \<Rightarrow> 's Keyspace option) \<Rightarrow> unit Migration \<Rightarrow> ('e, 's Migration) outcome" where
  "calculate_keyspace calc mig =
     and_then
       (case migration_state mig of
          StateStarted ks ops \<Rightarrow> and_then (unwrap (calc ks)) (\<lambda>ks. Ok (StateStarted ks ops))
        | StateAborted at \<Rightarrow> Ok (StateAborted at)
        | StateCompleted \<Rightarrow> Ok StateCompleted)
       (\<lambda>state. Ok \<lparr>migration_id = migration_id mig, started_at = started_at mig, migration_state = state\<rparr>)"

section \<open>Maintenance\<close>

record Maintenance =
  maintenance_slot :: AccountAddress

definition Maintenance_new :: "AccountAddress \<Rightarrow> Maintenance" where
  "Maintenance_new slot = \<lparr>maintenance_slot = slot\<rparr>"

datatype MaintenanceInProgressError = MaintenanceInProgressError operator_id
datatype MaintenanceNotFoundError = MaintenanceNotFoundError

section \<open>Ownership\<close>

record Ownership =
  owner :: AccountAddress

definition Ownership_new :: "AccountAddress \<Rightarrow> Ownership" where
  "Ownership_new addr = \<lparr>owner = addr\<rparr>"

datatype NotOwnerError = NotOwnerError

definition is_owner :: "Ownership \<Rightarrow> AccountAddress \<Rightarrow> bool" where
  "is_owner o' addr \<longleftrightarrow> addr = owner o'"

definition require_owner :: "Ownership \<Rightarrow> AccountAddress \<Rightarrow> (NotOwnerError, unit) outcome" where
  "require_owner o' addr = guard_oc (is_owner o' addr) NotOwnerError"

section \<open>Lemmas\<close>

named_theorems migration_defs \<open>definitions of the queries on a migration\<close>

lemmas [migration_defs] = migration_keyspace_def pulling_operators_def migration_is_pulling_def
  is_in_progress_def pulling_count_def complete_pull_def complete_migration_def

lemma is_in_progress_iff: "is_in_progress mig \<longleftrightarrow> (\<exists>ks ops. migration_state mig = StateStarted ks ops)"
  by (auto simp: is_in_progress_def split: MigrationState.splits)

lemma is_in_progress_keyspace: "is_in_progress mig \<longleftrightarrow> migration_keyspace mig \<noteq> None"
  by (auto simp: migration_defs split: MigrationState.splits)

lemma pulling_count_complete_pull:
  "migration_is_pulling mig idx \<Longrightarrow> pulling_count mig = Suc (pulling_count (complete_pull idx mig))"
  by (auto simp: migration_defs simp del: card_Diff_insert card_Diff_singleton intro: card.remove
      split: MigrationState.splits)

lemma parse_timestamp_neq_Panic [simp]: "parse_timestamp ts \<noteq> Panic"
  by (simp add: parse_timestamp_def outcome_simps)

lemma Migration_try_from_sc_OkD:
  assumes "Migration_try_from_sc sc ksc = Ok mig" and "migration_state mig = StateStarted ks ops"
  shows "keyspace_wf ks" and "ks_operators ks = sc_keyspace_operators ksc"
    and "ops = sc_pulling_operators sc" and "ops \<noteq> {}"
  using assms Keyspace_try_from_sc_OkD [of ksc ks]
  by (auto simp: Migration_try_from_sc_def outcome_simps split: option.splits if_splits)

end
