(* ===== verification/Cluster_View.thy ===== *)
theory Cluster_View
  imports Cluster_Migration
begin

text \<open>
  Model of \<open>crates/cluster/src/view.rs\<close>: the read-only view of the cluster, its queries, its
  construction from the on-chain state (\<open>try_from_sc\<close>) and its update by one event
  (\<open>apply_event\<close>). The current time is the argument \<open>now\<close>; the shard calculation chosen by the
  application's \<open>Config\<close> is the argument \<open>calc\<close>. Calls that reach \<open>Config::update_settings\<close> return
  the configuration together with their outcome. Versions are machine words: \<open>+ 1\<close> and \<open>- 1\<close> wrap.
\<close>

record ('n, 's) View =
  view_node_operators :: "'n NodeOperators"
  view_ownership :: Ownership
  view_settings :: Settings
  view_keyspace :: "'s Keyspace"
  view_keyspace_version :: keyspace_version
  view_migration :: "'s Migration"
  view_maintenance :: "Maintenance option"
  view_cluster_version :: cluster_version

datatype ViewError =
    ClusterVersionNotMonotonic cluster_version cluster_version
  | VeMigrationInProgress MigrationInProgressError
  | VeMaintenanceInProgress MaintenanceInProgressError
  | VeNoMigration MigrationNotFoundError
  | VeNoMaintenance MaintenanceNotFoundError
  | VeWrongMigrationId WrongIdError
  | VeSameKeyspace SameKeyspaceError
  | VeKeyspaceUnknownOperator UnknownNodeOperator
  | VeNotPulling OperatorNotPullingError
  | VeWrongPullingOperatorsCount WrongPullingOperatorsCountError
  | VeOperatorNotFound OperatorNotFoundError
  | VeOperatorAlreadyExists OperatorAlreadyExistsError
  | VeOperatorSlotOccupied SlotOccupiedError
  | VeInvalidNodeOperator NodeOperatorTryFromError
  | VeInvalidSettings SettingsTryFromError
  | VeInvalidKeyspace KeyspaceTryFromError
  | VeInvalidMigration MigrationTryFromError

datatype ViewTryFromError =
    TfInvalidKeyspaceVersion
  | TfKeyspaceUnknownOperator UnknownNodeOperator
  | TfNodeOperatorsCreation NodeOperatorsCreationError
  | TfInvalidSettings SettingsTryFromError
  | TfInvalidNodeOperator NodeOperatorTryFromError
  | TfInvalidKeyspace KeyspaceTryFromError
  | TfInvalidMigration MigrationTryFromError

section \<open>Queries\<close>

definition is_secondary_keyspace_shadowing_on :: "('n, 's) View \<Rightarrow> datetime \<Rightarrow> bool" where
  "is_secondary_keyspace_shadowing_on v now \<longleftrightarrow>
     is_in_progress (view_migration v)
     \<and> has_event_propagated (view_settings v) now (started_at (view_migration v))"

text \<open>\<open>replica_set.map(|idx| self.node_operators.get_by_idx(idx).unwrap())\<close>\<close>

definition resolve_replica_set :: "'n NodeOperators \<Rightarrow> operator_idx list \<Rightarrow> ('e, 'n NodeOperator list) outcome" where
  "resolve_replica_set operators rs = try_map (\<lambda>idx. unwrap (get_by_idx operators idx)) rs"

definition primary_replica_set ::
  "('n, operator_idx ShardingKeyspace) View \<Rightarrow> u64 \<Rightarrow> ('e, 'n NodeOperator list) outcome" where
  "primary_replica_set v key =
     and_then (Keyspace_shard (view_keyspace v) key) (resolve_replica_set (view_node_operators v))"

definition secondary_replica_set ::
  "('n, operator_idx ShardingKeyspace) View \<Rightarrow> datetime \<Rightarrow> u64 \<Rightarrow> ('e, 'n NodeOperator list option) outcome" where
  "secondary_replica_set v now key =
     (if \<not> is_secondary_keyspace_shadowing_on v now then Ok None
      else case migration_keyspace (view_migration v) of
          None \<Rightarrow> Ok None
        | Some ks \<Rightarrow> and_then (Keyspace_shard ks key) (\<lambda>rs.
                     and_then (resolve_replica_set (view_node_operators v) rs) (\<lambda>ops. Ok (Some ops))))"

text \<open>The shard iterators are lazy: a panic belongs to the element that is asked for.\<close>

definition primary_keyspace_shards ::
  "('n, operator_idx ShardingKeyspace) View \<Rightarrow> (u16 \<times> ('e, 'n NodeOperator list) outcome) list" where
  "primary_keyspace_shards v =
     map (\<lambda>(id', rs). (id', resolve_replica_set (view_node_operators v) rs)) (Keyspace_shards (view_keyspace v))"

definition secondary_keyspace_shards ::
  "('n, operator_idx ShardingKeyspace) View \<Rightarrow> datetime \<Rightarrow> (u16 \<times> ('e, 'n NodeOperator list) outcome) list option" where
  "secondary_keyspace_shards v now =
     (if \<not> is_secondary_keyspace_shadowing_on v now then None
      else case migration_keyspace (view_migration v) of
          None \<Rightarrow> None
        | Some ks \<Rightarrow> Some (map (\<lambda>(id', rs). (id', resolve_replica_set (view_node_operators v) rs)) (Keyspace_shards ks)))"

definition view_is_pulling :: "('n, 's) View \<Rightarrow> operator_id \<Rightarrow> bool" where
  "view_is_pulling v id' =
     (case get_idx (view_node_operators v) id' of
        Some idx \<Rightarrow> migration_is_pulling (view_migration v) idx
      | None \<Rightarrow> False)"

definition ongoing_migration :: "('n, 's) View \<Rightarrow> 's Migration option" where
  "ongoing_migration v = (if is_in_progress (view_migration v) then Some (view_migration v) else None)"

definition data_pull_scheduled_after :: "('n, 's) View \<Rightarrow> datetime option" where
  "data_pull_scheduled_after v =
     map_option (\<lambda>mig. started_at mig + int (event_propagation_latency (view_settings v))
                        + int (clock_skew (view_settings v)) + int PULL_DATA_LEEWAY_TIME)
       (ongoing_migration v)"

definition effective_keyspace_version :: "('n, 's) View \<Rightarrow> datetime \<Rightarrow> keyspace_version" where
  "effective_keyspace_version v now =
     (case migration_state (view_migration v) of
        StateStarted _ _ \<Rightarrow>
          if has_event_propagated (view_settings v) now (started_at (view_migration v))
          then view_keyspace_version v else view_keyspace_version v - 1
      | StateAborted at \<Rightarrow>
          if has_event_propagated (view_settings v) now at
          then view_keyspace_version v else view_keyspace_version v + 1
      | StateCompleted \<Rightarrow> view_keyspace_version v)"

text \<open>The body of \<open>validate_storage_operation\<close> after the \<open>match\<close>.\<close>

definition accepts_version ::
  "Settings \<Rightarrow> datetime \<Rightarrow> keyspace_version \<Rightarrow> keyspace_version \<Rightarrow> datetime \<Rightarrow> keyspace_version \<Rightarrow> bool" where
  "accepts_version settings now old new transition_time version =
     (let transition_time = event_propagation_time settings transition_time;
          frame = clock_skew_time_frame settings transition_time
      in if now < fst frame then version = old
         else if now \<le> snd frame then version \<in> {old, new}
         else version = new)"

definition validate_storage_operation :: "('n, 's) View \<Rightarrow> datetime \<Rightarrow> keyspace_version \<Rightarrow> bool" where
  "validate_storage_operation v now version =
     (let ver = view_keyspace_version v in
      case migration_state (view_migration v) of
        StateStarted _ _ \<Rightarrow>
          accepts_version (view_settings v) now (ver - 1) ver (started_at (view_migration v)) version
      | StateAborted at \<Rightarrow> accepts_version (view_settings v) now (ver + 1) ver at version
      | StateCompleted \<Rightarrow> version = ver)"

definition validate_data_pull :: "('n, 's) View \<Rightarrow> datetime \<Rightarrow> keyspace_version \<Rightarrow> bool" where
  "validate_data_pull v now version =
     (case data_pull_scheduled_after v of
        None \<Rightarrow> False
      | Some scheduled_after \<Rightarrow> scheduled_after \<le> now \<and> view_keyspace_version v = version)"

section \<open>Guards\<close>

definition require_no_migration :: "('n, 's) View \<Rightarrow> (MigrationInProgressError, unit) outcome" where
  "require_no_migration v =
     guard_oc (\<not> is_in_progress (view_migration v)) (MigrationInProgressError (migration_id (view_migration v)))"

definition require_no_maintenance :: "('n, 's) View \<Rightarrow> (MaintenanceInProgressError, unit) outcome" where
  "require_no_maintenance v =
     (case view_maintenance v of
        Some m \<Rightarrow> Err (MaintenanceInProgressError (maintenance_slot m))
      | None \<Rightarrow> Ok ())"

definition require_migration :: "('n, 's) View \<Rightarrow> (MigrationNotFoundError, 's Migration) outcome" where
  "require_migration v =
     (if \<not> is_in_progress (view_migration v) then Err MigrationNotFoundError else Ok (view_migration v))"

definition require_maintenance :: "('n, 's) View \<Rightarrow> (MaintenanceNotFoundError, Maintenance) outcome" where
  "require_maintenance v = ok_or MaintenanceNotFoundError (view_maintenance v)"

section \<open>Events\<close>

definition apply_MigrationStarted ::
  "(unit Keyspace \<Rightarrow> 's Keyspace option) \<Rightarrow> MigrationStarted \<Rightarrow> ('n, 's) View \<Rightarrow> (ViewError, ('n, 's) View) outcome" where
  "apply_MigrationStarted calc evt v =
     and_then (map_err VeMigrationInProgress (require_no_migration v)) (\<lambda>_.
     and_then (map_err VeMaintenanceInProgress (require_no_maintenance v)) (\<lambda>_.
     and_then (map_err VeInvalidKeyspace (Keyspace_try_from_sc (ms_new_keyspace evt))) (\<lambda>new_keyspace.
     and_then (map_err VeKeyspaceUnknownOperator (Keyspace_validate new_keyspace (view_node_operators v))) (\<lambda>_.
     and_then (map_err VeSameKeyspace (require_diff (view_keyspace v) new_keyspace)) (\<lambda>_.
     and_then (unwrap (calc new_keyspace)) (\<lambda>new_keyspace.
     and_then (map_err VeInvalidMigration (parse_timestamp (ms_at evt))) (\<lambda>at.
     Ok (v\<lparr>view_migration := \<lparr>migration_id = ms_migration_id evt, started_at = at,
                              migration_state = StateStarted new_keyspace (ks_operators new_keyspace)\<rparr>,
           view_keyspace_version := view_keyspace_version v + 1\<rparr>))))))))"

definition apply_MigrationDataPullCompleted ::
  "MigrationDataPullCompleted \<Rightarrow> ('n, 's) View \<Rightarrow> (ViewError, ('n, 's) View) outcome" where
  "apply_MigrationDataPullCompleted evt v =
     and_then (map_err VeOperatorNotFound (require_idx (view_node_operators v) (mp_operator_id evt))) (\<lambda>idx.
     and_then (map_err VeNoMigration (require_migration v)) (\<lambda>mig.
     and_then (map_err VeWrongMigrationId (require_id mig (mp_migration_id evt))) (\<lambda>_.
     and_then (map_err VeNotPulling (require_pulling mig idx)) (\<lambda>_.
     Ok (v\<lparr>view_migration := complete_pull idx (view_migration v)\<rparr>)))))"

definition apply_MigrationCompleted ::
  "MigrationCompleted \<Rightarrow> ('n, 's) View \<Rightarrow> (ViewError, ('n, 's) View) outcome" where
  "apply_MigrationCompleted evt v =
     and_then (map_err VeOperatorNotFound (require_idx (view_node_operators v) (mc_operator_id evt))) (\<lambda>idx.
     and_then (map_err VeNoMigration (require_migration v)) (\<lambda>mig.
     and_then (map_err VeWrongMigrationId (require_id mig (mc_migration_id evt))) (\<lambda>_.
     and_then (map_err VeNotPulling (require_pulling mig idx)) (\<lambda>_.
     and_then (map_err VeWrongPullingOperatorsCount (require_pulling_count mig 1)) (\<lambda>_.
     let (ks, mig') = complete_migration (view_migration v) in
     and_then (unwrap ks) (\<lambda>ks.
     Ok (v\<lparr>view_keyspace := ks, view_migration := mig'\<rparr>)))))))"

definition apply_MigrationAborted ::
  "MigrationAborted \<Rightarrow> ('n, 's) View \<Rightarrow> (ViewError, ('n, 's) View) outcome" where
  "apply_MigrationAborted evt v =
     and_then (map_err VeNoMigration (require_migration v)) (\<lambda>mig.
     and_then (map_err VeWrongMigrationId (require_id mig (ma_migration_id evt))) (\<lambda>_.
     and_then (map_err VeInvalidMigration (parse_timestamp (ma_at evt))) (\<lambda>at.
     Ok (v\<lparr>view_migration := (view_migration v)\<lparr>migration_state := StateAborted at\<rparr>,
           view_keyspace_version := view_keyspace_version v - 1\<rparr>))))"

definition apply_MaintenanceStarted ::
  "MaintenanceStarted \<Rightarrow> ('n, 's) View \<Rightarrow> (ViewError, ('n, 's) View) outcome" where
  "apply_MaintenanceStarted evt v =
     and_then (map_err VeMigrationInProgress (require_no_migration v)) (\<lambda>_.
     and_then (map_err VeMaintenanceInProgress (require_no_maintenance v)) (\<lambda>_.
     Ok (v\<lparr>view_maintenance := Some (Maintenance_new (mts_by evt))\<rparr>)))"

definition apply_MaintenanceFinished ::
  "MaintenanceFinished \<Rightarrow> ('n, 's) View \<Rightarrow> (ViewError, ('n, 's) View) outcome" where
  "apply_MaintenanceFinished evt v =
     and_then (map_err VeNoMaintenance (require_maintenance v)) (\<lambda>_.
     Ok (v\<lparr>view_maintenance := None\<rparr>))"

definition apply_NodeOperatorAdded ::
  "third_party \<Rightarrow> 'n config \<Rightarrow> NodeOperatorAdded \<Rightarrow> ('n, 's) View \<Rightarrow> (ViewError, ('n, 's) View) outcome" where
  "apply_NodeOperatorAdded tp cfg evt v =
     and_then (map_err VeOperatorAlreadyExists
                 (require_not_exists (view_node_operators v) (sc_operator_id (noa_operator evt)))) (\<lambda>_.
     and_then (map_err VeOperatorSlotOccupied (require_free_slot (view_node_operators v) (noa_idx evt))) (\<lambda>_.
     and_then (NodeOperator_from_sc tp cfg (noa_operator evt)) (\<lambda>op.
     and_then (set_slot (noa_idx evt) (Some op) (view_node_operators v)) (\<lambda>ops.
     Ok (v\<lparr>view_node_operators := ops\<rparr>)))))"

definition apply_NodeOperatorUpdated ::
  "third_party \<Rightarrow> 'n config \<Rightarrow> NodeOperatorUpdated \<Rightarrow> ('n, 's) View \<Rightarrow> (ViewError, ('n, 's) View) outcome" where
  "apply_NodeOperatorUpdated tp cfg evt v =
     and_then (map_err VeOperatorNotFound
                 (require_idx (view_node_operators v) (sc_operator_id (nou_operator evt)))) (\<lambda>idx.
     and_then (NodeOperator_from_sc tp cfg (nou_operator evt)) (\<lambda>op.
     and_then (set_slot idx (Some op) (view_node_operators v)) (\<lambda>ops.
     Ok (v\<lparr>view_node_operators := ops\<rparr>))))"

definition apply_NodeOperatorRemoved ::
  "NodeOperatorRemoved \<Rightarrow> ('n, 's) View \<Rightarrow> (ViewError, ('n, 's) View) outcome" where
  "apply_NodeOperatorRemoved evt v =
     and_then (map_err VeOperatorNotFound (require_idx (view_node_operators v) (nor_id evt))) (\<lambda>idx.
     and_then (set_slot idx None (view_node_operators v)) (\<lambda>ops.
     Ok (v\<lparr>view_node_operators := ops\<rparr>)))"

definition apply_SettingsUpdated ::
  "third_party \<Rightarrow> SettingsUpdated \<Rightarrow> ('n, 's) View \<Rightarrow> 'n config \<Rightarrow> 'n config \<times> (ViewError, ('n, 's) View) outcome" where
  "apply_SettingsUpdated tp evt v cfg =
     (case map_err VeInvalidSettings (Settings_try_from_sc (tp_extra_v0 tp) (tp_extra_v1 tp) (su_settings evt)) of
        Ok s \<Rightarrow> (update_settings s cfg, Ok (v\<lparr>view_settings := s\<rparr>))
      | Err e \<Rightarrow> (cfg, Err e)
      | Panic \<Rightarrow> (cfg, Panic))"

fun apply_event_body ::
  "third_party \<Rightarrow> (unit Keyspace \<Rightarrow> 's Keyspace option) \<Rightarrow> 'n config \<Rightarrow> Event \<Rightarrow> ('n, 's) View
   \<Rightarrow> 'n config \<times> (ViewError, ('n, 's) View) outcome" where
  "apply_event_body tp calc cfg (EvMigrationStarted evt) v = (cfg, apply_MigrationStarted calc evt v)"
| "apply_event_body tp calc cfg (EvMigrationDataPullCompleted evt) v = (cfg, apply_MigrationDataPullCompleted evt v)"
| "apply_event_body tp calc cfg (EvMigrationCompleted evt) v = (cfg, apply_MigrationCompleted evt v)"
| "apply_event_body tp calc cfg (EvMigrationAborted evt) v = (cfg, apply_MigrationAborted evt v)"
| "apply_event_body tp calc cfg (EvMaintenanceStarted evt) v = (cfg, apply_MaintenanceStarted evt v)"
| "apply_event_body tp calc cfg (EvMaintenanceFinished evt) v = (cfg, apply_MaintenanceFinished evt v)"
| "apply_event_body tp calc cfg (EvNodeOperatorAdded evt) v = (cfg, apply_NodeOperatorAdded tp cfg evt v)"
| "apply_event_body tp calc cfg (EvNodeOperatorUpdated evt) v = (cfg, apply_NodeOperatorUpdated tp cfg evt v)"
| "apply_event_body tp calc cfg (EvNodeOperatorRemoved evt) v = (cfg, apply_NodeOperatorRemoved evt v)"
| "apply_event_body tp calc cfg (EvSettingsUpdated evt) v = apply_SettingsUpdated tp evt v cfg"

definition apply_event ::
  "third_party \<Rightarrow> (unit Keyspace \<Rightarrow> 's Keyspace option) \<Rightarrow> 'n config \<Rightarrow> Event \<Rightarrow> ('n, 's) View
   \<Rightarrow> 'n config \<times> (ViewError, ('n, 's) View) outcome" where
  "apply_event tp calc cfg event v =
     (let new_version = event_cluster_version event in
      if new_version \<noteq> view_cluster_version v + 1
      then (cfg, Err (ClusterVersionNotMonotonic (view_cluster_version v) new_version))
      else let (cfg', r) = apply_event_body tp calc cfg event v
           in (cfg', and_then r (\<lambda>v'. Ok (v'\<lparr>view_cluster_version := new_version\<rparr>))))"

section \<open>Construction from the on-chain state\<close>

text \<open>The node operators and the settings, up to the call of \<open>update_settings\<close>.\<close>

definition operators_and_settings ::
  "third_party \<Rightarrow> ScClusterView \<Rightarrow> 'n config \<Rightarrow> (ViewTryFromError, 'n NodeOperators \<times> Settings) outcome" where
  "operators_and_settings tp sc cfg =
     and_then (try_map (map_opt_oc (NodeOperator_from_sc tp cfg)) (sc_node_operators sc)) (\<lambda>slts.
     and_then (map_err TfNodeOperatorsCreation (from_slots slts)) (\<lambda>ops.
     and_then (map_err TfInvalidSettings
                 (Settings_try_from_sc (tp_extra_v0 tp) (tp_extra_v1 tp) (sc_settings sc))) (\<lambda>settings.
     Ok (ops, settings))))"

text \<open>The choice of the primary and the secondary keyspace by the parity of the version.\<close>

definition primary_and_secondary :: "ScClusterView \<Rightarrow> (ViewTryFromError, ScKeyspace \<times> ScKeyspace) outcome" where
  "primary_and_secondary sc =
     (let is_migration_in_progress = sc_pulling_operators (sc_migration sc) \<noteq> {} in
      and_then (if is_migration_in_progress then
                  ok_or TfInvalidKeyspaceVersion
                    (if sc_keyspace_version sc = 0 then None else Some (sc_keyspace_version sc - 1))
                else Ok (sc_keyspace_version sc)) (\<lambda>primary_keyspace_version.
      let (keyspace0, keyspace1) = sc_keyspaces sc in
      Ok (if primary_keyspace_version mod 2 = 0 then (keyspace0, keyspace1) else (keyspace1, keyspace0))))"

definition View_try_from_sc ::
  "third_party \<Rightarrow> (unit Keyspace \<Rightarrow> 's Keyspace option) \<Rightarrow> ScClusterView \<Rightarrow> 'n config
   \<Rightarrow> 'n config \<times> (ViewTryFromError, ('n, 's) View) outcome" where
  "View_try_from_sc tp calc sc cfg =
     (case operators_and_settings tp sc cfg of
        Err e \<Rightarrow> (cfg, Err e)
      | Panic \<Rightarrow> (cfg, Panic)
      | Ok (ops, settings) \<Rightarrow>
          (update_settings settings cfg,
           and_then (primary_and_secondary sc) (\<lambda>(primary, secondary).
           and_then (map_err TfInvalidKeyspace (Keyspace_try_from_sc primary)) (\<lambda>keyspace.
           and_then (map_err TfKeyspaceUnknownOperator (Keyspace_validate keyspace ops)) (\<lambda>_.
           and_then (map_err TfInvalidMigration (Migration_try_from_sc (sc_migration sc) secondary)) (\<lambda>migration.
           and_then (case migration_keyspace migration of
                       Some ks \<Rightarrow> map_err TfKeyspaceUnknownOperator (Keyspace_validate ks ops)
                     | None \<Rightarrow> Ok ()) (\<lambda>_.
           and_then (unwrap (calc keyspace)) (\<lambda>keyspace.
           and_then (calculate_keyspace calc migration) (\<lambda>migration.
           Ok \<lparr>view_node_operators = ops, view_ownership = Ownership_new (sc_owner sc),
               view_settings = settings, view_keyspace = keyspace,
               view_keyspace_version = sc_keyspace_version sc, view_migration = migration,
               view_maintenance = map_option Maintenance_new (sc_slot (sc_maintenance sc)),
               view_cluster_version = sc_cluster_version sc\<rparr>)))))))))"

section \<open>Well-formed views\<close>

text \<open>A keyspace all of whose operators are in the slot map, and whose shards are \<open>sound\<close>.\<close>

definition keyspace_resolves :: "('s Keyspace \<Rightarrow> bool) \<Rightarrow> 'n NodeOperators \<Rightarrow> 's Keyspace \<Rightarrow> bool" where
  "keyspace_resolves sound ops ks \<longleftrightarrow>
     keyspace_wf ks \<and> sound ks \<and> (\<forall>i \<in> ks_operators ks. contains_idx ops i)"

definition operators_wf :: "'n NodeOperators \<Rightarrow> bool" where
  "operators_wf ops \<longleftrightarrow> nops_wf ops \<and> (\<forall>i op. get_by_idx ops i = Some op \<longrightarrow> operator_wf op)"

definition view_wf :: "('s Keyspace \<Rightarrow> bool) \<Rightarrow> ('n, 's) View \<Rightarrow> bool" where
  "view_wf sound v \<longleftrightarrow>
     operators_wf (view_node_operators v)
     \<and> keyspace_resolves sound (view_node_operators v) (view_keyspace v)
     \<and> (\<forall>ks. migration_keyspace (view_migration v) = Some ks \<longrightarrow>
            keyspace_resolves sound (view_node_operators v) ks)"

text \<open>The operator that an event removes is in no keyspace: the contract refuses to remove it.\<close>

fun keeps_keyspaces :: "('n, 's) View \<Rightarrow> Event \<Rightarrow> bool" where
  "keeps_keyspaces v (EvNodeOperatorRemoved evt) =
     (case get_idx (view_node_operators v) (nor_id evt) of
        None \<Rightarrow> True
      | Some idx \<Rightarrow> \<not> contains_operator (view_keyspace v) idx
          \<and> (case migration_keyspace (view_migration v) of
               None \<Rightarrow> True | Some ks \<Rightarrow> \<not> contains_operator ks idx))"
| "keeps_keyspaces v _ = True"

named_theorems view_guards \<open>definitions of the guards on a view\<close>

lemmas [view_guards] = require_no_migration_def require_no_maintenance_def require_migration_def
  require_maintenance_def require_id_def require_pulling_def require_pulling_count_def
  require_idx_def require_not_exists_def require_free_slot_def require_diff_def

named_theorems event_defs \<open>definitions of the event handlers\<close>

lemmas [event_defs] = apply_MigrationStarted_def apply_MigrationDataPullCompleted_def
  apply_MigrationCompleted_def apply_MigrationAborted_def apply_MaintenanceStarted_def
  apply_MaintenanceFinished_def apply_NodeOperatorAdded_def apply_NodeOperatorUpdated_def
  apply_NodeOperatorRemoved_def apply_SettingsUpdated_def

lemma view_wf_operators: "view_wf sound v \<Longrightarrow> nops_wf (view_node_operators v)"
  by (simp add: view_wf_def operators_wf_def)

text \<open>Writing a slot keeps the view well-formed if the slot is not emptied under a keyspace.\<close>

lemma operators_wf_set_slot:
  assumes "operators_wf ops" and "set_slot i slot ops = Ok ops'"
    and "\<forall>op. slot = Some op \<longrightarrow> operator_wf op"
    and "\<forall>op j. slot = Some op \<longrightarrow> get_idx ops (operator_id op) = Some j \<longrightarrow> j = i"
  shows "operators_wf ops'"
  using assms nops_wf_set_slot [of ops i slot ops']
  by (auto simp: operators_wf_def get_by_idx_set_slot [OF assms(2)] split: if_splits)

lemma keyspace_resolves_set_slot:
  assumes "keyspace_resolves sound ops ks" and "set_slot i slot ops = Ok ops'"
    and "slot \<noteq> None \<or> \<not> contains_operator ks i"
  shows "keyspace_resolves sound ops' ks"
  using assms(1,3)
  by (auto simp: keyspace_resolves_def contains_idx_def contains_operator_def get_by_idx_set_slot [OF assms(2)])

lemma view_wf_set_slot:
  assumes "view_wf sound v" and "set_slot i slot (view_node_operators v) = Ok ops'"
    and "\<forall>op. slot = Some op \<longrightarrow> operator_wf op"
    and "\<forall>op j. slot = Some op \<longrightarrow> get_idx (view_node_operators v) (operator_id op) = Some j \<longrightarrow> j = i"
    and "slot \<noteq> None \<or> \<not> contains_operator (view_keyspace v) i
        \<and> (\<forall>ks. migration_keyspace (view_migration v) = Some ks \<longrightarrow> \<not> contains_operator ks i)"
  shows "view_wf sound (v\<lparr>view_node_operators := ops'\<rparr>)"
  using assms(1,5) operators_wf_set_slot [OF _ assms(2-4)] keyspace_resolves_set_slot [OF _ assms(2)]
  by (auto simp: view_wf_def)

lemma wf_NodeOperatorAdded:
  assumes "view_wf sound v" and "apply_NodeOperatorAdded tp cfg evt v = Ok v'"
  shows "view_wf sound v'"
proof -
  obtain op ops where new: "get_idx (view_node_operators v) (sc_operator_id (noa_operator evt)) = None"
    and op: "NodeOperator_from_sc tp cfg (noa_operator evt) = (Ok op :: (ViewError, _) outcome)"
    and set: "set_slot (noa_idx evt) (Some op) (view_node_operators v) = (Ok ops :: (ViewError, _) outcome)"
    and v': "v' = v\<lparr>view_node_operators := ops\<rparr>"
    using assms(2) by (auto simp: event_defs view_guards outcome_simps contains_def)
  show ?thesis
    unfolding v' using assms(1) set
    by (rule view_wf_set_slot) (use NodeOperator_from_sc_OkD [OF op] new in auto)
qed

lemma wf_NodeOperatorUpdated:
  assumes "view_wf sound v" and "apply_NodeOperatorUpdated tp cfg evt v = Ok v'"
  shows "view_wf sound v'"
proof -
  obtain idx op ops where idx: "get_idx (view_node_operators v) (sc_operator_id (nou_operator evt)) = Some idx"
    and op: "NodeOperator_from_sc tp cfg (nou_operator evt) = (Ok op :: (ViewError, _) outcome)"
    and set: "set_slot idx (Some op) (view_node_operators v) = (Ok ops :: (ViewError, _) outcome)"
    and v': "v' = v\<lparr>view_node_operators := ops\<rparr>"
    using assms(2) by (auto simp: event_defs view_guards outcome_simps)
  show ?thesis
    unfolding v' using assms(1) set
    by (rule view_wf_set_slot) (use NodeOperator_from_sc_OkD [OF op] idx in auto)
qed

lemma wf_NodeOperatorRemoved:
  assumes "view_wf sound v" and "apply_NodeOperatorRemoved evt v = Ok v'"
    and "keeps_keyspaces v (EvNodeOperatorRemoved evt)"
  shows "view_wf sound v'"
proof -
  obtain idx ops where idx: "get_idx (view_node_operators v) (nor_id evt) = Some idx"
    and set: "set_slot idx None (view_node_operators v) = (Ok ops :: (ViewError, _) outcome)"
    and v': "v' = v\<lparr>view_node_operators := ops\<rparr>"
    using assms(2) by (auto simp: event_defs view_guards outcome_simps)
  show ?thesis
    unfolding v' using assms(1) set
    by (rule view_wf_set_slot) (use assms(3) idx in \<open>auto split: option.splits\<close>)
qed

lemma wf_MigrationCompleted:
  assumes "view_wf sound v" and "apply_MigrationCompleted evt v = Ok v'"
  shows "view_wf sound v'"
  using assms
  by (auto simp: event_defs view_guards outcome_simps migration_defs view_wf_def
      split: if_splits MigrationState.splits)

lemma wf_MigrationDataPullCompleted:
  assumes "view_wf sound v" and "apply_MigrationDataPullCompleted evt v = Ok v'"
  shows "view_wf sound v'"
  using assms
  by (auto simp: event_defs view_guards outcome_simps migration_defs view_wf_def
      split: if_splits MigrationState.splits)

lemma wf_MigrationAborted:
  assumes "view_wf sound v" and "apply_MigrationAborted evt v = Ok v'"
  shows "view_wf sound v'"
  using assms
  by (auto simp: event_defs outcome_simps view_wf_def migration_keyspace_def)

lemma wf_Maintenance:
  assumes "view_wf sound v"
  shows "apply_MaintenanceStarted evt v = Ok v' \<Longrightarrow> view_wf sound v'"
    and "apply_MaintenanceFinished evt' v = Ok v' \<Longrightarrow> view_wf sound v'"
  using assms by (auto simp: event_defs outcome_simps view_wf_def)

lemma wf_SettingsUpdated:
  assumes "view_wf sound v" and "apply_SettingsUpdated tp evt v cfg = (cfg', Ok v')"
  shows "view_wf sound v'"
  using assms by (auto simp: event_defs view_wf_def split: outcome.splits)

lemmas wf_events = wf_NodeOperatorAdded wf_NodeOperatorUpdated wf_NodeOperatorRemoved
  wf_MigrationCompleted wf_MigrationDataPullCompleted wf_MigrationAborted wf_Maintenance
  wf_SettingsUpdated

lemma operators_and_settings_wf:
  assumes "operators_and_settings tp sc cfg = Ok (ops, st)"
  shows "operators_wf ops"
proof -
  obtain slts where slts: "list_all2 (\<lambda>x y. map_opt_oc (NodeOperator_from_sc tp cfg) x = (Ok y :: (ViewTryFromError, _) outcome))
      (sc_node_operators sc) slts" and ops: "from_slots slts = Ok ops"
    using assms by (auto simp: operators_and_settings_def outcome_simps)
  have "operator_wf op" if "Some op \<in> set slts" for op
  proof -
    obtain x where "map_opt_oc (NodeOperator_from_sc tp cfg) x = (Ok (Some op) :: (ViewTryFromError, _) outcome)"
      using slts \<open>Some op \<in> set slts\<close> by (auto simp: list_all2_conv_all_nth in_set_conv_nth)
    then show ?thesis
      by (cases x) (auto simp: outcome_simps dest: NodeOperator_from_sc_OkD(1))
  qed
  then have "operator_wf op" if "get_by_idx ops i = Some op" for i op
    using that ops by (auto simp: from_slots_eq_Ok get_by_idx_eq_Some dest: nth_mem)
  with from_slots_wf [OF ops] show ?thesis
    by (simp add: operators_wf_def)
qed

context shard_calculation
begin

lemma wf_MigrationStarted:
  assumes "view_wf sound v" and "apply_MigrationStarted calc evt v = Ok v'"
  shows "view_wf sound v'"
proof -
  obtain ks ks' where sc: "Keyspace_try_from_sc (ms_new_keyspace evt) = Ok ks"
    and val: "Keyspace_validate ks (view_node_operators v) = Ok ()"
    and calc: "calc ks = Some ks'"
    and v': "view_node_operators v' = view_node_operators v" "view_keyspace v' = view_keyspace v"
      "migration_keyspace (view_migration v') = Some ks'"
    using assms(2) by (auto simp: event_defs outcome_simps migration_keyspace_def)
  note wf = Keyspace_try_from_sc_OkD(1) [OF sc]
  have "keyspace_resolves sound (view_node_operators v) ks'"
    using val calc_SomeD [OF wf calc] by (simp add: keyspace_resolves_def Keyspace_validate_iff)
  with assms(1) v' show ?thesis
    by (simp add: view_wf_def)
qed

lemma apply_event_body_wf:
  assumes "view_wf sound v" and "keeps_keyspaces v e"
    and "apply_event_body tp calc cfg e v = (cfg', Ok v')"
  shows "view_wf sound v'"
  using assms(3)
proof (cases e)
  case (EvMigrationStarted evt)
  with assms show ?thesis by (auto intro: wf_MigrationStarted)
next
  case (EvNodeOperatorRemoved evt)
  with assms show ?thesis using wf_NodeOperatorRemoved [of sound v evt v'] by simp
qed (use assms in \<open>auto intro: wf_events\<close>)

lemma apply_event_OkD:
  assumes "apply_event tp calc cfg e v = (cfg', Ok v')"
  obtains v1 where "apply_event_body tp calc cfg e v = (cfg', Ok v1)"
    and "v' = v1\<lparr>view_cluster_version := event_cluster_version e\<rparr>"
    and "event_cluster_version e = view_cluster_version v + 1"
  using assms that
  by (auto simp: apply_event_def Let_def outcome_simps split: if_splits prod.splits)

lemma apply_event_wf:
  assumes "view_wf sound v" and "keeps_keyspaces v e" and "apply_event tp calc cfg e v = (cfg', Ok v')"
  shows "view_wf sound v'" and "view_cluster_version v' = view_cluster_version v + 1"
proof -
  obtain v1 where v1: "apply_event_body tp calc cfg e v = (cfg', Ok v1)"
    "v' = v1\<lparr>view_cluster_version := event_cluster_version e\<rparr>"
    "event_cluster_version e = view_cluster_version v + 1"
    using assms(3) by (rule apply_event_OkD)
  show "view_wf sound v'"
    using apply_event_body_wf [OF assms(1,2) v1(1)] v1(2) by (simp add: view_wf_def)
  show "view_cluster_version v' = view_cluster_version v + 1"
    using v1 by simp
qed

lemma calculate_keyspace_resolves:
  assumes "calculate_keyspace calc mig = (Ok mig' :: ('e, _) outcome)"
    and "\<forall>ks. migration_keyspace mig = Some ks \<longrightarrow> keyspace_wf ks \<and> (\<forall>i \<in> ks_operators ks. contains_idx ops i)"
  shows "\<forall>ks. migration_keyspace mig' = Some ks \<longrightarrow> keyspace_resolves sound ops ks"
  using assms calc_SomeD
  by (fastforce simp: calculate_keyspace_def outcome_simps keyspace_resolves_def migration_keyspace_def
      split: MigrationState.splits)

lemma View_try_from_sc_OkD:
  assumes "View_try_from_sc tp calc sc cfg = (cfg', Ok v)"
  obtains ops st primary secondary ks mig where
    "operators_and_settings tp sc cfg = Ok (ops, st)" "cfg' = update_settings st cfg"
    "primary_and_secondary sc = Ok (primary, secondary)"
    "Keyspace_try_from_sc primary = Ok ks" "Keyspace_validate ks ops = Ok ()"
    "Migration_try_from_sc (sc_migration sc) secondary = Ok mig"
    "\<forall>ks. migration_keyspace mig = Some ks \<longrightarrow> Keyspace_validate ks ops = Ok ()"
    "calc ks = Some (view_keyspace v)"
    "calculate_keyspace calc mig = (Ok (view_migration v) :: (ViewTryFromError, _) outcome)"
    "view_node_operators v = ops" "view_settings v = st"
    "view_keyspace_version v = sc_keyspace_version sc" "view_cluster_version v = sc_cluster_version sc"
    "view_ownership v = Ownership_new (sc_owner sc)"
    "view_maintenance v = map_option Maintenance_new (sc_slot (sc_maintenance sc))"
  using assms
  by (auto simp: View_try_from_sc_def outcome_simps split: outcome.splits prod.splits option.splits)

lemma View_try_from_sc_wf:
  assumes "View_try_from_sc tp calc sc cfg = (cfg', Ok v)"
  shows "view_wf sound v"
  using assms
proof (rule View_try_from_sc_OkD)
  fix ops st primary secondary ks mig
  assume ops: "operators_and_settings tp sc cfg = Ok (ops, st)" and v: "view_node_operators v = ops"
    and ks: "Keyspace_try_from_sc primary = Ok ks" "Keyspace_validate ks ops = Ok ()" "calc ks = Some (view_keyspace v)"
    and mig: "Migration_try_from_sc (sc_migration sc) secondary = Ok mig"
      "\<forall>ks. migration_keyspace mig = Some ks \<longrightarrow> Keyspace_validate ks ops = Ok ()"
      "calculate_keyspace calc mig = (Ok (view_migration v) :: (ViewTryFromError, _) outcome)"
  have "keyspace_resolves sound ops (view_keyspace v)"
    using ks calc_SomeD [OF Keyspace_try_from_sc_OkD(1) [OF ks(1)] ks(3)]
    by (simp add: keyspace_resolves_def Keyspace_validate_iff)
  moreover have "keyspace_wf ks \<and> (\<forall>i \<in> ks_operators ks. contains_idx ops i)"
    if "migration_keyspace mig = Some ks" for ks
    using that mig(2) Migration_try_from_sc_OkD(1) [OF mig(1)]
    by (auto simp: Keyspace_validate_iff migration_keyspace_def split: MigrationState.splits)
  ultimately show ?thesis
    using operators_and_settings_wf [OF ops] calculate_keyspace_resolves [OF mig(3), of ops]
    by (simp add: view_wf_def v)
qed

end

section \<open>Properties of the view\<close>

text \<open>
  C24. The view stays consistent: applying an event to a well-formed view (slot map consistent,
  every operator of the primary keyspace and of the keyspace migrated to present in the slot map,
  shards calculated for these operators) gives a well-formed view with the next cluster version. The
  hypothesis on the event is that a removed operator is in neither keyspace, which the contract
  enforces and \<open>NodeOperatorRemoved\<close> does not check.
\<close>

theorem apply_event_keeps_view_wf:
  assumes "view_wf (shards_sound h) v" and "keeps_keyspaces v e"
    and "apply_event tp (calculate_shards h) cfg e v = (cfg', Ok v')"
  shows "view_wf (shards_sound h) v' \<and> view_cluster_version v' = view_cluster_version v + 1
    \<and> event_cluster_version e = view_cluster_version v'"
proof -
  from assms(3) have "event_cluster_version e = view_cluster_version v + 1"
    by (rule calc_shards.apply_event_OkD)
  with calc_shards.apply_event_wf [OF assms] show ?thesis
    by simp
qed


lemma resolve_replica_set_wf:
  assumes "nops_wf ops" and "\<forall>i \<in> set rs. contains_idx ops i" and "distinct rs"
  obtains xs where "resolve_replica_set ops rs = (Ok xs :: ('e, _) outcome)"
    and "list_all2 (\<lambda>i x. get_by_idx ops i = Some x) rs xs" and "distinct (map operator_id xs)"
proof -
  define g where "g = (\<lambda>i. the (get_by_idx ops i))"
  have g: "get_by_idx ops i = Some (g i)" if "i \<in> set rs" for i
    using assms(2) that by (auto simp: contains_idx_def g_def)
  have "inj_on (operator_id \<circ> g) (set rs)"
  proof (rule inj_onI)
    fix i j
    assume "i \<in> set rs" "j \<in> set rs" "(operator_id \<circ> g) i = (operator_id \<circ> g) j"
    then show "i = j"
      using nops.ident_inj [OF assms(1), of i "g i" j "g j"] g by simp
  qed
  then have "distinct (map operator_id (map g rs))"
    using assms(3) by (simp add: distinct_map)
  moreover have "resolve_replica_set ops rs = (Ok (map g rs) :: ('e, _) outcome)"
    unfolding resolve_replica_set_def by (rule try_map_total) (simp add: g unwrap_def)
  moreover have "list_all2 (\<lambda>i x. get_by_idx ops i = Some x) rs (map g rs)"
    by (simp add: list_all2_conv_all_nth g)
  ultimately show ?thesis
    using that by blast
qed

lemma keyspace_resolves_replica_set:
  assumes "nops_wf ops" and "keyspace_resolves (shards_sound h) ops ks"
  obtains rs xs where "Keyspace_shard ks key = (Ok rs :: ('e, _) outcome)"
    and "resolve_replica_set ops rs = (Ok xs :: ('e, _) outcome)"
    and "length xs = 5" and "distinct (map operator_id xs)"
proof -
  obtain rs where rs: "Keyspace_shard ks key = (Ok rs :: ('e, _) outcome)" "distinct rs"
    "length rs = REPLICATION_FACTOR" "set rs \<subseteq> ks_operators ks"
    using assms(2) Keyspace_shard_sound [of h ks key] by (auto simp: keyspace_resolves_def)
  moreover have "\<forall>i \<in> set rs. contains_idx ops i"
    using rs(4) assms(2) by (auto simp: keyspace_resolves_def)
  then obtain xs where "resolve_replica_set ops rs = (Ok xs :: ('e, _) outcome)"
    "list_all2 (\<lambda>i x. get_by_idx ops i = Some x) rs xs" "distinct (map operator_id xs)"
    using resolve_replica_set_wf [OF assms(1) _ rs(2)] by blast
  ultimately show ?thesis
    using that by (simp add: REPLICATION_FACTOR_def list_all2_lengthD)
qed

text \<open>
  C26. Routing never panics and never sends a write twice to one operator: in a well-formed view,
  every key has a primary replica set of five operators with different ids, and once a migration
  has propagated a secondary one as well (none before that and without a migration).
\<close>

theorem replica_sets_resolve:
  assumes "view_wf (shards_sound h) v"
  shows "(\<exists>xs. primary_replica_set v key = (Ok xs :: ('e, _) outcome) \<and> length xs = 5 \<and> distinct (map operator_id xs))
    \<and> (if is_in_progress (view_migration v) \<and> started_at (view_migration v) + int (event_propagation_latency (view_settings v)) \<le> now
       then \<exists>xs. secondary_replica_set v now key = (Ok (Some xs) :: ('e, _) outcome) \<and> length xs = 5 \<and> distinct (map operator_id xs)
       else secondary_replica_set v now key = (Ok None :: ('e, _) outcome))"
proof
  note wf = view_wf_operators [OF assms]
  have "keyspace_resolves (shards_sound h) (view_node_operators v) (view_keyspace v)"
    using assms by (simp add: view_wf_def)
  with wf obtain rs xs where "Keyspace_shard (view_keyspace v) key = (Ok rs :: ('e, _) outcome)"
    "resolve_replica_set (view_node_operators v) rs = (Ok xs :: ('e, _) outcome)" "length xs = 5" "distinct (map operator_id xs)"
    by (rule keyspace_resolves_replica_set)
  then show "\<exists>xs. primary_replica_set v key = (Ok xs :: ('e, _) outcome) \<and> length xs = 5 \<and> distinct (map operator_id xs)"
    by (simp add: primary_replica_set_def)
  let ?on = "is_in_progress (view_migration v) \<and> started_at (view_migration v) + int (event_propagation_latency (view_settings v)) \<le> now"
  have on: "is_secondary_keyspace_shadowing_on v now \<longleftrightarrow> ?on"
    by (simp add: is_secondary_keyspace_shadowing_on_def has_event_propagated_def event_propagation_time_def)
  show "if ?on then \<exists>xs. secondary_replica_set v now key = (Ok (Some xs) :: ('e, _) outcome) \<and> length xs = 5 \<and> distinct (map operator_id xs)
       else secondary_replica_set v now key = (Ok None :: ('e, _) outcome)"
  proof (cases ?on)
    case True
    then obtain ks where ks: "migration_keyspace (view_migration v) = Some ks"
      by (auto simp: is_in_progress_keyspace)
    then have "keyspace_resolves (shards_sound h) (view_node_operators v) ks"
      using assms by (simp add: view_wf_def)
    with wf obtain rs xs where "Keyspace_shard ks key = (Ok rs :: ('e, _) outcome)"
      "resolve_replica_set (view_node_operators v) rs = (Ok xs :: ('e, _) outcome)" "length xs = 5" "distinct (map operator_id xs)"
      by (rule keyspace_resolves_replica_set)
    then have "\<exists>xs. secondary_replica_set v now key = (Ok (Some xs) :: ('e, _) outcome) \<and> length xs = 5 \<and> distinct (map operator_id xs)"
      using True ks on by (simp add: secondary_replica_set_def)
    with True show ?thesis by (rule iffD2 [OF if_P])
  next
    case False
    with on have "secondary_replica_set v now key = (Ok None :: ('e, _) outcome)"
      by (simp only: secondary_replica_set_def if_True not_False_eq_True)
    with False show ?thesis by (rule iffD2 [OF if_not_P])
  qed
qed

section \<open>Keyspace versions during a migration\<close>

lemma accepts_versionI:
  assumes "now' \<le> now + int (clock_skew s)" and "now \<le> now' + int (clock_skew s)"
  shows "accepts_version s now' old new t (if has_event_propagated s now t then new else old)"
  using assms
  by (auto simp: accepts_version_def Let_def clock_skew_time_frame_def has_event_propagated_def)

lemma effective_version_accepted:
  assumes "now' \<le> now + int (clock_skew (view_settings v))" and "now \<le> now' + int (clock_skew (view_settings v))"
  shows "validate_storage_operation v now' (effective_keyspace_version v now)"
  by (simp add: accepts_versionI [OF assms] validate_storage_operation_def effective_keyspace_version_def Let_def
      split: MigrationState.splits split del: if_split)

text \<open>
  C27. Clock skew alone never rejects an operation: if a coordinator and a replica have the same
  view and their clocks differ by at most the configured clock skew, the replica accepts the
  keyspace version that the coordinator computes, before, during and after the transition.
\<close>

theorem coordinator_version_accepted:
  assumes "now' \<le> now + int (clock_skew (view_settings v))" and "now \<le> now' + int (clock_skew (view_settings v))"
  shows "validate_storage_operation v now' (effective_keyspace_version v now)"
  using assms by (rule effective_version_accepted)


text \<open>
  C29. Data is pulled only after the old keyspace version is dead: when a replica grants a data pull at
  \<open>now\<close>, then from two seconds before \<open>now\<close> on (the leeway for in-flight operations) it accepts storage
  operations of the new keyspace version only, which is the version of the pull.
\<close>

theorem data_pull_after_transition:
  assumes "validate_data_pull v now version" and "now - 2000000000 < now'"
  shows "validate_storage_operation v now' x \<longleftrightarrow> x = version"
  using assms
  by (auto simp: validate_data_pull_def data_pull_scheduled_after_def ongoing_migration_def is_in_progress_iff
      validate_storage_operation_def accepts_version_def clock_skew_time_frame_def event_propagation_time_def
      PULL_DATA_LEEWAY_TIME_def duration_from_secs_def Let_def split: option.splits if_splits)

section \<open>Concrete views\<close>

definition sample_hash :: "operator_idx \<times> nat \<Rightarrow> u64" where
  "sample_hash = (\<lambda>(n, i). of_nat i * ucast n + ucast n)"

definition sample_keyspace :: "operator_idx set \<Rightarrow> unit Keyspace" where
  "sample_keyspace ops = \<lparr>ks_operators = ops, ks_shards = (), ks_replication_strategy = UniformDistribution\<rparr>"

definition sample_view :: "'s Keyspace \<Rightarrow> 's MigrationState \<Rightarrow> (nat, 's) View" where
  "sample_view ks st =
     \<lparr>view_node_operators = sample_operators, view_ownership = Ownership_new 99,
      view_settings = Settings_default, view_keyspace = ks, view_keyspace_version = 4,
      view_migration = \<lparr>migration_id = 2, started_at = 0, migration_state = st\<rparr>,
      view_maintenance = None, view_cluster_version = 7\<rparr>"

definition sample_sc_view :: ScClusterView where
  "sample_sc_view =
     \<lparr>sc_owner = 99, sc_settings = \<lparr>sc_max_node_operator_data_bytes = 4096, sc_extra = [1]\<rparr>,
      sc_node_operators = map (\<lambda>i. Some \<lparr>sc_operator_id = i, sc_operator_data = [2]\<rparr>) [1, 2, 3, 4, 5],
      sc_keyspaces = (\<lparr>sc_keyspace_operators = {0, 1, 2, 3, 4}, sc_replication_strategy = 0\<rparr>,
                      \<lparr>sc_keyspace_operators = {}, sc_replication_strategy = 0\<rparr>),
      sc_keyspace_version = 0,
      sc_migration = \<lparr>sc_migration_id = 0, sc_pulling_operators = {}, sc_started_at = 0, sc_aborted_at = Some 0\<rparr>,
      sc_maintenance = \<lparr>sc_slot = None\<rparr>, sc_cluster_version = 1\<rparr>"

lemma sample_operator_wf:
  assumes "get_by_idx sample_operators i = Some op"
  shows "operator_wf op"
proof -
  have "Some op \<in> set (slots sample_operators)"
    using assms by (auto simp: get_by_idx_eq_Some dest: nth_mem)
  then show ?thesis
    by (auto simp: sample_operators_slots sample_operator_def operator_defs)
qed

lemma sample_contains_idx: "i \<in> {0, 1, 2, 3, 4, 5} \<Longrightarrow> contains_idx sample_operators i"
  by (auto simp: contains_idx_def get_by_idx_def list_get_def sample_operators_slots)

lemma sample_shards:
  obtains ks where "calculate_shards sample_hash (sample_keyspace {0, 1, 2, 3, 4}) = Some ks"
    and "ks_operators ks = {0, 1, 2, 3, 4}" and "shards_sound sample_hash ks"
  using calculate_shards_wf [of "sample_keyspace {0, 1, 2, 3, 4}" sample_hash]
  by (simp add: keyspace_wf_def sample_keyspace_def REPLICATION_FACTOR_def) blast

lemma sample_view_wf:
  assumes "ks_operators ks = {0, 1, 2, 3, 4}" and "shards_sound sample_hash ks"
  shows "view_wf (shards_sound sample_hash) (sample_view ks StateCompleted)"
  using assms sample_operators_wf sample_operator_wf sample_contains_idx
  by (auto simp: view_wf_def operators_wf_def keyspace_resolves_def keyspace_wf_def sample_view_def
      migration_keyspace_def REPLICATION_FACTOR_def)

theorem apply_event_keeps_view_wf_witness:
  "\<exists>v v' cfg'. view_wf (shards_sound sample_hash) v
     \<and> apply_event (sample_third_party sample_data) (calculate_shards sample_hash)
          \<lparr>cfg_encryption_key = 5, cfg_new_node = (\<lambda>_ _. 0 :: nat), cfg_settings = None\<rparr>
          (EvNodeOperatorRemoved \<lparr>nor_id = 5, nor_cluster_version = 8\<rparr>) v = (cfg', Ok v')
     \<and> view_wf (shards_sound sample_hash) v' \<and> view_cluster_version v' = 8"
proof -
  let ?e = "EvNodeOperatorRemoved \<lparr>nor_id = 5, nor_cluster_version = 8\<rparr>"
  let ?cfg = "\<lparr>cfg_encryption_key = 5, cfg_new_node = (\<lambda>_ _. 0 :: nat), cfg_settings = None\<rparr>"
  let ?tp = "sample_third_party sample_data"
  obtain ks where ks: "ks_operators ks = {0, 1, 2, 3, 4}" "shards_sound sample_hash ks"
    by (rule sample_shards)
  let ?v = "sample_view ks StateCompleted"
  note wf = sample_view_wf [OF ks]
  have idx: "get_idx sample_operators 5 = Some 5"
    by (simp add: get_idx_def sample_operators_slots)
  have keeps: "keeps_keyspaces ?v ?e"
    by (simp add: sample_view_def idx contains_operator_def ks migration_keyspace_def)
  have "idx_fits sample_operators 5"
    by (simp add: idx_fits_def sample_operators_slots)
  then obtain ops where "set_slot 5 None sample_operators = (Ok ops :: (ViewError, _) outcome)"
    using set_slot_Ok_iff by blast
  then obtain v' where v': "apply_event ?tp (calculate_shards sample_hash) ?cfg ?e ?v = (?cfg, Ok v')"
    by (simp add: apply_event_def sample_view_def event_defs require_idx_def idx ok_or_def)
  from apply_event_keeps_view_wf [OF wf keeps v'] wf v' show ?thesis
    by (intro exI [of _ ?v] exI [of _ v'] exI [of _ ?cfg]) (simp add: sample_view_def)
qed

theorem replica_sets_resolve_witness:
  "\<exists>(v :: (nat, _) View) xs. view_wf (shards_sound sample_hash) v
     \<and> primary_replica_set v 123 = (Ok xs :: (unit, _) outcome) \<and> length xs = 5 \<and> distinct (map operator_id xs)"
proof -
  obtain ks where "ks_operators ks = {0, 1, 2, 3, 4}" "shards_sound sample_hash ks"
    by (rule sample_shards)
  note wf = sample_view_wf [OF this]
  from wf replica_sets_resolve [where ?'e = unit, OF wf, of 123] show ?thesis
    by blast
qed

theorem coordinator_version_accepted_witness:
  "validate_storage_operation (sample_view (sample_keyspace {0, 1, 2, 3, 4}) (StateStarted (sample_keyspace {1, 2, 3, 4, 5}) {1}))
     5100000000
     (effective_keyspace_version (sample_view (sample_keyspace {0, 1, 2, 3, 4})
        (StateStarted (sample_keyspace {1, 2, 3, 4, 5}) {1})) 4900000000)"
  by (rule coordinator_version_accepted)
    (simp_all add: sample_view_def Settings_default_def duration_from_secs_def duration_from_millis_def)

theorem data_pull_after_transition_witness:
  "validate_data_pull (sample_view (sample_keyspace {0, 1, 2, 3, 4}) (StateStarted (sample_keyspace {1, 2, 3, 4, 5}) {1})) 7500000000 4
   \<and> \<not> validate_storage_operation (sample_view (sample_keyspace {0, 1, 2, 3, 4})
        (StateStarted (sample_keyspace {1, 2, 3, 4, 5}) {1})) 5600000000 3"
proof -
  let ?v = "sample_view (sample_keyspace {0, 1, 2, 3, 4}) (StateStarted (sample_keyspace {1, 2, 3, 4, 5}) {1})"
  have pull: "validate_data_pull ?v 7500000000 4"
    by (simp add: validate_data_pull_def data_pull_scheduled_after_def ongoing_migration_def is_in_progress_def
        sample_view_def Settings_default_def PULL_DATA_LEEWAY_TIME_def duration_from_secs_def duration_from_millis_def)
  show ?thesis
    using pull data_pull_after_transition [OF pull, of 5600000000 3] by simp
qed

lemma sample_sc_view_read:
  obtains cfg' v where "View_try_from_sc (sample_third_party sample_data) (calculate_shards sample_hash) sample_sc_view sample_config = (cfg', Ok v)"
proof -
  let ?tp = "sample_third_party sample_data"
  let ?slts = "map (\<lambda>i. Some (new_corrupted ?tp sample_config i)) [1, 2, 3, 4, 5]"
  have "try_map (map_opt_oc (NodeOperator_from_sc ?tp sample_config)) (sc_node_operators sample_sc_view)
      = (Ok ?slts :: (ViewTryFromError, _) outcome)"
    by (simp add: sample_sc_view_def NodeOperator_from_sc_def NodeOperator_try_from_sc_def)
  moreover have "from_slots ?slts = Ok \<lparr>id_to_idx = live_ids 0 ?slts, slots = ?slts, operators_counter = initial_counter\<rparr>"
    unfolding from_slots_eq_Ok
    by (simp add: MIN_OPERATORS_def MAX_OPERATORS_def REPLICATION_FACTOR_def new_corrupted_def)
  moreover obtain st where "Settings_try_from_sc (tp_extra_v0 ?tp) (tp_extra_v1 ?tp) (sc_settings sample_sc_view) = Ok st"
    by (simp add: Settings_try_from_sc_def sample_sc_view_def sample_third_party_def single_codec_def)
  ultimately have ops: "operators_and_settings ?tp sample_sc_view sample_config
      = Ok (\<lparr>id_to_idx = live_ids 0 ?slts, slots = ?slts, operators_counter = initial_counter\<rparr>, st)"
    by (simp add: operators_and_settings_def)
  obtain ks where ks: "calculate_shards sample_hash (sample_keyspace {0, 1, 2, 3, 4}) = Some ks"
    by (rule sample_shards)
  have sc: "Keyspace_try_from_sc \<lparr>sc_keyspace_operators = {0, 1, 2, 3, 4}, sc_replication_strategy = 0\<rparr>
      = Ok (sample_keyspace {0, 1, 2, 3, 4})"
    by (simp add: Keyspace_try_from_sc_def ReplicationStrategy_try_from_def ok_or_def map_err_eq_Ok
        Keyspace_new_eq_Ok REPLICATION_FACTOR_def sample_keyspace_def)
  have mig: "Migration_try_from_sc (sc_migration sample_sc_view) k
      = Ok \<lparr>migration_id = 0, started_at = 0, migration_state = StateAborted 0\<rparr>" for k
    by (simp add: Migration_try_from_sc_def sample_sc_view_def parse_timestamp_def ok_or_def)
  have ksp: "primary_and_secondary sample_sc_view = Ok (sc_keyspaces sample_sc_view)"
    by (simp add: primary_and_secondary_def sample_sc_view_def)
  have valid: "Keyspace_validate (sample_keyspace {0, 1, 2, 3, 4})
      \<lparr>id_to_idx = live_ids 0 ?slts, slots = ?slts, operators_counter = initial_counter\<rparr> = Ok ()"
    by (simp add: Keyspace_validate_iff sample_keyspace_def contains_idx_def get_by_idx_def list_get_def)
  show thesis
    using that ops ks sc mig ksp valid
    by (simp add: View_try_from_sc_def migration_keyspace_def calculate_keyspace_def unwrap_def sample_sc_view_def)
qed



end
