(* ===== verification/Storage_Api.thy ===== *)
theory Storage_Api
  imports Smart_Contract "HOL-Library.List_Lexorder"
begin

text \<open>
  Model of \<open>crates/storage_api/src/lib.rs\<close> and \<open>operation.rs\<close>: namespaces, records, maps, the twelve
  storage operations with their outputs, and the storage error. A borrowed operation holds slices
  of the bytes that the owned one holds, so both have the same payload type here. A \<open>Result\<close> of the
  storage API is a sum, the error on the left.
\<close>

section \<open>Namespaces\<close>

text \<open>The 21 bytes as one word: 20 of the operator's account address, one of the index.\<close>

type_synonym Namespace = "168 word"

definition ns_as_bytes :: "Namespace \<Rightarrow> u8 list" where
  "ns_as_bytes ns = to_be_bytes 21 ns"

definition ns_node_operator_id :: "Namespace \<Rightarrow> operator_id" where
  "ns_node_operator_id ns = from_be_bytes (map (\<lambda>idx. ns_as_bytes ns ! idx) [0..<20])"

definition ns_idx :: "Namespace \<Rightarrow> u8" where
  "ns_idx ns = last (ns_as_bytes ns)"

section \<open>Records and maps\<close>

record RecordExpiration =
  unix_timestamp_secs :: u64

record RecordVersion =
  unix_timestamp_micros :: u64

record Record =
  record_value :: "u8 list"
  record_expiration :: RecordExpiration
  record_version :: RecordVersion

record MapEntry =
  entry_field :: "u8 list"
  entry_record :: Record

record MapPage =
  page_entries :: "MapEntry list"
  page_has_next :: bool

definition next_page_cursor :: "MapPage \<Rightarrow> u8 list option" where
  "next_page_cursor page =
     (if page_has_next page
      then (if page_entries page = [] then None else Some (entry_field (last (page_entries page))))
      else None)"

text \<open>
  \<open>unix_timestamp()\<close> rounds down to whole seconds and the cast to \<open>u64\<close> wraps; the argument \<open>now\<close> is
  the current time.
\<close>

definition unix_timestamp :: "datetime \<Rightarrow> int" where
  "unix_timestamp dt = dt div 1000000000"

definition RecordExpiration_from_duration :: "datetime \<Rightarrow> duration \<Rightarrow> RecordExpiration" where
  "RecordExpiration_from_duration now dur = \<lparr>unix_timestamp_secs = of_int (unix_timestamp (now + int dur))\<rparr>"

definition RecordExpiration_from_datetime :: "datetime \<Rightarrow> RecordExpiration" where
  "RecordExpiration_from_datetime dt = \<lparr>unix_timestamp_secs = of_int (unix_timestamp dt)\<rparr>"

text \<open>
  \<open>from_unix_timestamp\<close> takes the value as \<open>i64\<close> and fails outside the years -9999 to 9999; a negative
  difference is no \<open>Duration\<close> and gives zero.
\<close>

definition duration_from_RecordExpiration :: "datetime \<Rightarrow> RecordExpiration \<Rightarrow> duration" where
  "duration_from_RecordExpiration now ex =
     (let secs = sint (unix_timestamp_secs ex);
          expiry = (if -377705116800 \<le> secs \<and> secs \<le> 253402300799 then secs * 1000000000 else 0)
      in nat (expiry - now))"

definition RecordVersion_now :: "datetime \<Rightarrow> RecordVersion" where
  "RecordVersion_now now = \<lparr>unix_timestamp_micros = of_int (now div 1000)\<rparr>"

section \<open>Data transfer\<close>

datatype DataType = Kv | Map

record DataFrame =
  frame_data_type :: DataType
  frame_key :: "u8 list"
  frame_value :: "u8 list"

datatype DataItem = Frame DataFrame | Done u64

section \<open>Operations\<close>

record Get =
  get_namespace :: Namespace
  get_key :: "u8 list"
  get_keyspace_version :: "keyspace_version option"

record SetOp =
  set_namespace :: Namespace
  set_key :: "u8 list"
  set_record :: Record
  set_keyspace_ver :: "keyspace_version option"

record Del =
  del_namespace :: Namespace
  del_key :: "u8 list"
  del_version :: RecordVersion
  del_keyspace_version :: "keyspace_version option"

record GetExp =
  getexp_namespace :: Namespace
  getexp_key :: "u8 list"
  getexp_keyspace_version :: "keyspace_version option"

record SetExp =
  setexp_namespace :: Namespace
  setexp_key :: "u8 list"
  setexp_expiration :: RecordExpiration
  setexp_version :: RecordVersion
  setexp_keyspace_version :: "keyspace_version option"

record HGet =
  hget_namespace :: Namespace
  hget_key :: "u8 list"
  hget_field :: "u8 list"
  hget_keyspace_version :: "keyspace_version option"

record HSet =
  hset_namespace :: Namespace
  hset_key :: "u8 list"
  hset_entry :: MapEntry
  hset_keyspace_version :: "keyspace_version option"

record HDel =
  hdel_namespace :: Namespace
  hdel_key :: "u8 list"
  hdel_field :: "u8 list"
  hdel_version :: RecordVersion
  hdel_keyspace_version :: "keyspace_version option"

record HGetExp =
  hgetexp_namespace :: Namespace
  hgetexp_key :: "u8 list"
  hgetexp_field :: "u8 list"
  hgetexp_keyspace_version :: "keyspace_version option"

record HSetExp =
  hsetexp_namespace :: Namespace
  hsetexp_key :: "u8 list"
  hsetexp_field :: "u8 list"
  hsetexp_expiration :: RecordExpiration
  hsetexp_version :: RecordVersion
  hsetexp_keyspace_version :: "keyspace_version option"

record HCard =
  hcard_namespace :: Namespace
  hcard_key :: "u8 list"
  hcard_keyspace_version :: "keyspace_version option"

record HScan =
  hscan_namespace :: Namespace
  hscan_key :: "u8 list"
  hscan_count :: u32
  hscan_cursor :: "u8 list option"
  hscan_keyspace_version :: "keyspace_version option"

datatype Owned =
    OpGet Get | OpSet SetOp | OpDel Del | OpGetExp GetExp | OpSetExp SetExp
  | OpHGet HGet | OpHSet HSet | OpHDel HDel | OpHGetExp HGetExp | OpHSetExp HSetExp
  | OpHCard HCard | OpHScan HScan

text \<open>A borrowed operation holds slices instead of vectors; the records are the same.\<close>

datatype Borrowed =
    BorrowedGet Get | BorrowedSet SetOp | BorrowedDel Del | BorrowedGetExp GetExp | BorrowedSetExp SetExp
  | BorrowedHGet HGet | BorrowedHSet HSet | BorrowedHDel HDel | BorrowedHGetExp HGetExp | BorrowedHSetExp HSetExp
  | BorrowedHCard HCard | BorrowedHScan HScan

datatype Operation = OwnedOperation Owned | BorrowedOperation Borrowed

fun owned_namespace :: "Owned \<Rightarrow> Namespace" where
  "owned_namespace (OpGet op) = get_namespace op"
| "owned_namespace (OpSet op) = set_namespace op"
| "owned_namespace (OpDel op) = del_namespace op"
| "owned_namespace (OpGetExp op) = getexp_namespace op"
| "owned_namespace (OpSetExp op) = setexp_namespace op"
| "owned_namespace (OpHGet op) = hget_namespace op"
| "owned_namespace (OpHSet op) = hset_namespace op"
| "owned_namespace (OpHDel op) = hdel_namespace op"
| "owned_namespace (OpHGetExp op) = hgetexp_namespace op"
| "owned_namespace (OpHSetExp op) = hsetexp_namespace op"
| "owned_namespace (OpHCard op) = hcard_namespace op"
| "owned_namespace (OpHScan op) = hscan_namespace op"

fun owned_key :: "Owned \<Rightarrow> u8 list" where
  "owned_key (OpGet op) = get_key op"
| "owned_key (OpSet op) = set_key op"
| "owned_key (OpDel op) = del_key op"
| "owned_key (OpGetExp op) = getexp_key op"
| "owned_key (OpSetExp op) = setexp_key op"
| "owned_key (OpHGet op) = hget_key op"
| "owned_key (OpHSet op) = hset_key op"
| "owned_key (OpHDel op) = hdel_key op"
| "owned_key (OpHGetExp op) = hgetexp_key op"
| "owned_key (OpHSetExp op) = hsetexp_key op"
| "owned_key (OpHCard op) = hcard_key op"
| "owned_key (OpHScan op) = hscan_key op"

fun owned_is_write :: "Owned \<Rightarrow> bool" where
  "owned_is_write (OpSet _) = True"
| "owned_is_write (OpDel _) = True"
| "owned_is_write (OpSetExp _) = True"
| "owned_is_write (OpHSet _) = True"
| "owned_is_write (OpHDel _) = True"
| "owned_is_write (OpHSetExp _) = True"
| "owned_is_write (OpGet _) = False"
| "owned_is_write (OpGetExp _) = False"
| "owned_is_write (OpHGet _) = False"
| "owned_is_write (OpHGetExp _) = False"
| "owned_is_write (OpHCard _) = False"
| "owned_is_write (OpHScan _) = False"

fun owned_keyspace_version :: "Owned \<Rightarrow> keyspace_version option" where
  "owned_keyspace_version (OpGet op) = get_keyspace_version op"
| "owned_keyspace_version (OpSet op) = set_keyspace_ver op"
| "owned_keyspace_version (OpDel op) = del_keyspace_version op"
| "owned_keyspace_version (OpGetExp op) = getexp_keyspace_version op"
| "owned_keyspace_version (OpSetExp op) = setexp_keyspace_version op"
| "owned_keyspace_version (OpHGet op) = hget_keyspace_version op"
| "owned_keyspace_version (OpHSet op) = hset_keyspace_version op"
| "owned_keyspace_version (OpHDel op) = hdel_keyspace_version op"
| "owned_keyspace_version (OpHGetExp op) = hgetexp_keyspace_version op"
| "owned_keyspace_version (OpHSetExp op) = hsetexp_keyspace_version op"
| "owned_keyspace_version (OpHCard op) = hcard_keyspace_version op"
| "owned_keyspace_version (OpHScan op) = hscan_keyspace_version op"

fun owned_set_keyspace_version :: "keyspace_version \<Rightarrow> Owned \<Rightarrow> Owned" where
  "owned_set_keyspace_version v (OpGet op) = OpGet (op\<lparr>get_keyspace_version := Some v\<rparr>)"
| "owned_set_keyspace_version v (OpSet op) = OpSet (op\<lparr>set_keyspace_ver := Some v\<rparr>)"
| "owned_set_keyspace_version v (OpDel op) = OpDel (op\<lparr>del_keyspace_version := Some v\<rparr>)"
| "owned_set_keyspace_version v (OpGetExp op) = OpGetExp (op\<lparr>getexp_keyspace_version := Some v\<rparr>)"
| "owned_set_keyspace_version v (OpSetExp op) = OpSetExp (op\<lparr>setexp_keyspace_version := Some v\<rparr>)"
| "owned_set_keyspace_version v (OpHGet op) = OpHGet (op\<lparr>hget_keyspace_version := Some v\<rparr>)"
| "owned_set_keyspace_version v (OpHSet op) = OpHSet (op\<lparr>hset_keyspace_version := Some v\<rparr>)"
| "owned_set_keyspace_version v (OpHDel op) = OpHDel (op\<lparr>hdel_keyspace_version := Some v\<rparr>)"
| "owned_set_keyspace_version v (OpHGetExp op) = OpHGetExp (op\<lparr>hgetexp_keyspace_version := Some v\<rparr>)"
| "owned_set_keyspace_version v (OpHSetExp op) = OpHSetExp (op\<lparr>hsetexp_keyspace_version := Some v\<rparr>)"
| "owned_set_keyspace_version v (OpHCard op) = OpHCard (op\<lparr>hcard_keyspace_version := Some v\<rparr>)"
| "owned_set_keyspace_version v (OpHScan op) = OpHScan (op\<lparr>hscan_keyspace_version := Some v\<rparr>)"

fun borrowed_namespace :: "Borrowed \<Rightarrow> Namespace" where
  "borrowed_namespace (BorrowedGet op) = get_namespace op"
| "borrowed_namespace (BorrowedSet op) = set_namespace op"
| "borrowed_namespace (BorrowedDel op) = del_namespace op"
| "borrowed_namespace (BorrowedGetExp op) = getexp_namespace op"
| "borrowed_namespace (BorrowedSetExp op) = setexp_namespace op"
| "borrowed_namespace (BorrowedHGet op) = hget_namespace op"
| "borrowed_namespace (BorrowedHSet op) = hset_namespace op"
| "borrowed_namespace (BorrowedHDel op) = hdel_namespace op"
| "borrowed_namespace (BorrowedHGetExp op) = hgetexp_namespace op"
| "borrowed_namespace (BorrowedHSetExp op) = hsetexp_namespace op"
| "borrowed_namespace (BorrowedHCard op) = hcard_namespace op"
| "borrowed_namespace (BorrowedHScan op) = hscan_namespace op"

fun borrowed_into_owned :: "Borrowed \<Rightarrow> Owned" where
  "borrowed_into_owned (BorrowedGet op) = OpGet op"
| "borrowed_into_owned (BorrowedSet op) = OpSet op"
| "borrowed_into_owned (BorrowedDel op) = OpDel op"
| "borrowed_into_owned (BorrowedGetExp op) = OpGetExp op"
| "borrowed_into_owned (BorrowedSetExp op) = OpSetExp op"
| "borrowed_into_owned (BorrowedHGet op) = OpHGet op"
| "borrowed_into_owned (BorrowedHSet op) = OpHSet op"
| "borrowed_into_owned (BorrowedHDel op) = OpHDel op"
| "borrowed_into_owned (BorrowedHGetExp op) = OpHGetExp op"
| "borrowed_into_owned (BorrowedHSetExp op) = OpHSetExp op"
| "borrowed_into_owned (BorrowedHCard op) = OpHCard op"
| "borrowed_into_owned (BorrowedHScan op) = OpHScan op"

fun borrowed_key :: "Borrowed \<Rightarrow> u8 list" where
  "borrowed_key (BorrowedGet op) = get_key op"
| "borrowed_key (BorrowedSet op) = set_key op"
| "borrowed_key (BorrowedDel op) = del_key op"
| "borrowed_key (BorrowedGetExp op) = getexp_key op"
| "borrowed_key (BorrowedSetExp op) = setexp_key op"
| "borrowed_key (BorrowedHGet op) = hget_key op"
| "borrowed_key (BorrowedHSet op) = hset_key op"
| "borrowed_key (BorrowedHDel op) = hdel_key op"
| "borrowed_key (BorrowedHGetExp op) = hgetexp_key op"
| "borrowed_key (BorrowedHSetExp op) = hsetexp_key op"
| "borrowed_key (BorrowedHCard op) = hcard_key op"
| "borrowed_key (BorrowedHScan op) = hscan_key op"

fun borrowed_is_write :: "Borrowed \<Rightarrow> bool" where
  "borrowed_is_write (BorrowedSet _) = True"
| "borrowed_is_write (BorrowedDel _) = True"
| "borrowed_is_write (BorrowedSetExp _) = True"
| "borrowed_is_write (BorrowedHSet _) = True"
| "borrowed_is_write (BorrowedHDel _) = True"
| "borrowed_is_write (BorrowedHSetExp _) = True"
| "borrowed_is_write (BorrowedGet _) = False"
| "borrowed_is_write (BorrowedGetExp _) = False"
| "borrowed_is_write (BorrowedHGet _) = False"
| "borrowed_is_write (BorrowedHGetExp _) = False"
| "borrowed_is_write (BorrowedHCard _) = False"
| "borrowed_is_write (BorrowedHScan _) = False"

fun borrowed_keyspace_version :: "Borrowed \<Rightarrow> keyspace_version option" where
  "borrowed_keyspace_version (BorrowedGet op) = get_keyspace_version op"
| "borrowed_keyspace_version (BorrowedSet op) = set_keyspace_ver op"
| "borrowed_keyspace_version (BorrowedDel op) = del_keyspace_version op"
| "borrowed_keyspace_version (BorrowedGetExp op) = getexp_keyspace_version op"
| "borrowed_keyspace_version (BorrowedSetExp op) = setexp_keyspace_version op"
| "borrowed_keyspace_version (BorrowedHGet op) = hget_keyspace_version op"
| "borrowed_keyspace_version (BorrowedHSet op) = hset_keyspace_version op"
| "borrowed_keyspace_version (BorrowedHDel op) = hdel_keyspace_version op"
| "borrowed_keyspace_version (BorrowedHGetExp op) = hgetexp_keyspace_version op"
| "borrowed_keyspace_version (BorrowedHSetExp op) = hsetexp_keyspace_version op"
| "borrowed_keyspace_version (BorrowedHCard op) = hcard_keyspace_version op"
| "borrowed_keyspace_version (BorrowedHScan op) = hscan_keyspace_version op"

fun borrowed_set_keyspace_version :: "keyspace_version \<Rightarrow> Borrowed \<Rightarrow> Borrowed" where
  "borrowed_set_keyspace_version v (BorrowedGet op) = BorrowedGet (op\<lparr>get_keyspace_version := Some v\<rparr>)"
| "borrowed_set_keyspace_version v (BorrowedSet op) = BorrowedSet (op\<lparr>set_keyspace_ver := Some v\<rparr>)"
| "borrowed_set_keyspace_version v (BorrowedDel op) = BorrowedDel (op\<lparr>del_keyspace_version := Some v\<rparr>)"
| "borrowed_set_keyspace_version v (BorrowedGetExp op) = BorrowedGetExp (op\<lparr>getexp_keyspace_version := Some v\<rparr>)"
| "borrowed_set_keyspace_version v (BorrowedSetExp op) = BorrowedSetExp (op\<lparr>setexp_keyspace_version := Some v\<rparr>)"
| "borrowed_set_keyspace_version v (BorrowedHGet op) = BorrowedHGet (op\<lparr>hget_keyspace_version := Some v\<rparr>)"
| "borrowed_set_keyspace_version v (BorrowedHSet op) = BorrowedHSet (op\<lparr>hset_keyspace_version := Some v\<rparr>)"
| "borrowed_set_keyspace_version v (BorrowedHDel op) = BorrowedHDel (op\<lparr>hdel_keyspace_version := Some v\<rparr>)"
| "borrowed_set_keyspace_version v (BorrowedHGetExp op) = BorrowedHGetExp (op\<lparr>hgetexp_keyspace_version := Some v\<rparr>)"
| "borrowed_set_keyspace_version v (BorrowedHSetExp op) = BorrowedHSetExp (op\<lparr>hsetexp_keyspace_version := Some v\<rparr>)"
| "borrowed_set_keyspace_version v (BorrowedHCard op) = BorrowedHCard (op\<lparr>hcard_keyspace_version := Some v\<rparr>)"
| "borrowed_set_keyspace_version v (BorrowedHScan op) = BorrowedHScan (op\<lparr>hscan_keyspace_version := Some v\<rparr>)"

fun operation_into_owned :: "Operation \<Rightarrow> Owned" where
  "operation_into_owned (OwnedOperation op) = op"
| "operation_into_owned (BorrowedOperation op) = borrowed_into_owned op"

fun operation_namespace :: "Operation \<Rightarrow> Namespace" where
  "operation_namespace (OwnedOperation op) = owned_namespace op"
| "operation_namespace (BorrowedOperation op) = borrowed_namespace op"

fun operation_key :: "Operation \<Rightarrow> u8 list" where
  "operation_key (OwnedOperation op) = owned_key op"
| "operation_key (BorrowedOperation op) = borrowed_key op"

fun is_write :: "Operation \<Rightarrow> bool" where
  "is_write (OwnedOperation op) = owned_is_write op"
| "is_write (BorrowedOperation op) = borrowed_is_write op"

fun operation_keyspace_version :: "Operation \<Rightarrow> keyspace_version option" where
  "operation_keyspace_version (OwnedOperation op) = owned_keyspace_version op"
| "operation_keyspace_version (BorrowedOperation op) = borrowed_keyspace_version op"

fun set_keyspace_version :: "keyspace_version \<Rightarrow> Operation \<Rightarrow> Operation" where
  "set_keyspace_version v (OwnedOperation op) = OwnedOperation (owned_set_keyspace_version v op)"
| "set_keyspace_version v (BorrowedOperation op) = BorrowedOperation (borrowed_set_keyspace_version v op)"

datatype Output =
    OutRecord "Record option"
  | OutExpiration "RecordExpiration option"
  | OutMapPage MapPage
  | OutCardinality u64
  | OutNone

section \<open>Errors\<close>

datatype ErrorKind =
  Unauthorized | KeyspaceVersionMismatch | Timeout | Internal | InvalidArgument | Transport | Unknown

record StorageError =
  error_kind :: ErrorKind
  error_message :: "string option"

definition Error_new :: "ErrorKind \<Rightarrow> StorageError" where
  "Error_new kind = \<lparr>error_kind = kind, error_message = None\<rparr>"

definition error_unauthorized :: StorageError where
  "error_unauthorized = Error_new Unauthorized"

definition error_keyspace_version_mismatch :: StorageError where
  "error_keyspace_version_mismatch = Error_new KeyspaceVersionMismatch"

definition error_internal :: StorageError where
  "error_internal = Error_new Internal"

definition error_invalid_argument :: StorageError where
  "error_invalid_argument = Error_new InvalidArgument"

definition with_message :: "string \<Rightarrow> StorageError \<Rightarrow> StorageError" where
  "with_message msg e = e\<lparr>error_message := Some msg\<rparr>"

definition is_transient :: "StorageError \<Rightarrow> bool" where
  "is_transient e = (case error_kind e of
      Unauthorized \<Rightarrow> False | InvalidArgument \<Rightarrow> False | Unknown \<Rightarrow> False
    | KeyspaceVersionMismatch \<Rightarrow> True | Timeout \<Rightarrow> True | Internal \<Rightarrow> True | Transport \<Rightarrow> True)"

type_synonym Response = "StorageError + Output"

section \<open>Lemmas\<close>

lemma owned_set_version [simp]:
  "owned_keyspace_version (owned_set_keyspace_version v o') = Some v"
  "owned_namespace (owned_set_keyspace_version v o') = owned_namespace o'"
  "owned_key (owned_set_keyspace_version v o') = owned_key o'"
  "owned_is_write (owned_set_keyspace_version v o') = owned_is_write o'"
  by (cases o'; simp)+

text \<open>A borrowed operation reads like the owned one it converts to.\<close>

lemma borrowed_into_owned [simp]:
  "owned_namespace (borrowed_into_owned b) = borrowed_namespace b"
  "owned_key (borrowed_into_owned b) = borrowed_key b"
  "owned_is_write (borrowed_into_owned b) = borrowed_is_write b"
  "owned_keyspace_version (borrowed_into_owned b) = borrowed_keyspace_version b"
  "borrowed_into_owned (borrowed_set_keyspace_version v b) = owned_set_keyspace_version v (borrowed_into_owned b)"
  by (cases b; simp)+

lemma borrowed_set_version [simp]:
  "borrowed_keyspace_version (borrowed_set_keyspace_version v b) = Some v"
  "borrowed_namespace (borrowed_set_keyspace_version v b) = borrowed_namespace b"
  "borrowed_key (borrowed_set_keyspace_version v b) = borrowed_key b"
  "borrowed_is_write (borrowed_set_keyspace_version v b) = borrowed_is_write b"
  by (cases b; simp)+

lemma keyspace_version_set [simp]: "operation_keyspace_version (set_keyspace_version v op) = Some v"
  by (cases op) simp_all

lemma operation_set_keyspace_version [simp]:
  "operation_namespace (set_keyspace_version v op) = operation_namespace op"
  "operation_key (set_keyspace_version v op) = operation_key op"
  "is_write (set_keyspace_version v op) = is_write op"
  by (cases op; simp)+

text \<open>
  Converting an operation to its owned form, as the coordinator does before it spawns a task,
  changes nothing that routing, authorization and version checks look at, and commutes with stamping
  the keyspace version.
\<close>

theorem into_owned_preserves:
  "operation_namespace (OwnedOperation (operation_into_owned op)) = operation_namespace op
   \<and> operation_key (OwnedOperation (operation_into_owned op)) = operation_key op
   \<and> is_write (OwnedOperation (operation_into_owned op)) = is_write op
   \<and> operation_keyspace_version (OwnedOperation (operation_into_owned op)) = operation_keyspace_version op
   \<and> operation_into_owned (set_keyspace_version v op) = owned_set_keyspace_version v (operation_into_owned op)
   \<and> operation_keyspace_version (set_keyspace_version v op) = Some v"
  by (cases op) simp_all

end
