(* ===== verification/Quorum.thy ===== *)
theory Quorum
  imports Cluster_View Storage_Api
begin

text \<open>
  Model of the parts of \<open>crates/replication/src/coordinator/mod.rs\<close> below \<open>execute_callback\<close>: sending an
  operation to one operator, the buffer of different responses, and the counting of equal responses
  up to a majority. The outbound replica connection of a node is the parameter \<open>conn\<close>. Requests run
  concurrently: the merged response stream is a list of (operator, response) pairs in order of
  arrival. Counts and buffer positions are \<open>u8\<close> in the code; they stay below ten.
\<close>

definition RF :: nat where
  "RF = REPLICATION_FACTOR"

definition MAJORITY_QUORUM_THRESHOLD :: nat where
  "MAJORITY_QUORUM_THRESHOLD = RF div 2 + 1"

section \<open>Requests\<close>

text \<open>The retry loop of \<open>execute\<close>: the next node is tried on a transport error only.\<close>

fun try_nodes :: "('n \<Rightarrow> Operation \<Rightarrow> Response) \<Rightarrow> Operation \<Rightarrow> 'n list \<Rightarrow> Response \<Rightarrow> Response" where
  "try_nodes conn operation [] res = res"
| "try_nodes conn operation (node # nodes) res =
     (let res = conn node operation in
      case res of
        Inl err \<Rightarrow> if error_kind err = Transport then try_nodes conn operation nodes res else res
      | Inr _ \<Rightarrow> res)"

definition execute ::
  "('n \<Rightarrow> Operation \<Rightarrow> Response) \<Rightarrow> 'n NodeOperator \<Rightarrow> Operation \<Rightarrow> ('e, Response) outcome \<times> 'n NodeOperator" where
  "execute conn operator operation =
     (let (nodes, operator') = nodes_lb_iter operator
      in (and_then nodes (\<lambda>nodes. Ok (try_nodes conn operation nodes (Inl error_internal))), operator'))"

section \<open>Response buffer and quorums\<close>

type_synonym ResponseBuffer = "Response option list"

definition new_response_buffer :: ResponseBuffer where
  "new_response_buffer = replicate (RF * 2) None"

fun receive_response :: "ResponseBuffer \<Rightarrow> Response \<Rightarrow> ('e, nat \<times> ResponseBuffer) outcome" where
  "receive_response [] response = Panic"
| "receive_response (None # buf) response = Ok (0, Some response # buf)"
| "receive_response (Some resp # buf) response =
     (if resp = response then Ok (0, Some resp # buf)
      else and_then (receive_response buf response) (\<lambda>(idx, buf'). Ok (Suc idx, Some resp # buf')))"

record 'n Quorum =
  response_idx :: "nat option"
  replica_set :: "'n NodeOperator list"
  replica_responses :: "nat option list"
  replicas_per_response :: "nat list"

definition Quorum_new :: "'n NodeOperator list \<Rightarrow> 'n Quorum" where
  "Quorum_new rs =
     \<lparr>response_idx = None, replica_set = rs, replica_responses = replicate RF None,
      replicas_per_response = replicate (RF * 2) 0\<rparr>"

definition response_received :: "'n NodeOperator \<Rightarrow> nat \<Rightarrow> 'n Quorum \<Rightarrow> 'n Quorum" where
  "response_received operator idx q =
     (case position (\<lambda>op. operator_id op = operator_id operator) (replica_set q) of
        None \<Rightarrow> q
      | Some replica_idx \<Rightarrow>
          (let count = replicas_per_response q ! idx + 1
           in q\<lparr>replica_responses := (replica_responses q)[replica_idx := Some idx],
                replicas_per_response := (replicas_per_response q)[idx := count],
                response_idx := (if count \<ge> MAJORITY_QUORUM_THRESHOLD then Some idx else response_idx q)\<rparr>))"

section \<open>Waiting for a quorum\<close>

text \<open>The loop over the response stream; what is left of the stream is returned with its result.\<close>

record 'n progress =
  pr_primary :: "'n Quorum"
  pr_secondary :: "'n Quorum option"
  pr_responses :: ResponseBuffer

text \<open>The \<open>match\<close> of the loop: \<open>Some r\<close> is \<open>break r\<close>.\<close>

definition quorum_reached :: "'n progress \<Rightarrow> nat option option" where
  "quorum_reached p =
     (case (response_idx (pr_primary p), pr_secondary p) of
        (Some idx, None) \<Rightarrow> Some (Some idx)
      | (Some a, Some q) \<Rightarrow>
          (case response_idx q of
             Some b \<Rightarrow> Some (if a = b then Some a else None)
           | None \<Rightarrow> None)
      | (None, _) \<Rightarrow> None)"

fun await_quorum ::
  "'n progress \<Rightarrow> ('n NodeOperator \<times> Response) list
   \<Rightarrow> ('e, nat option \<times> 'n progress \<times> ('n NodeOperator \<times> Response) list) outcome" where
  "await_quorum p [] = Ok (None, p, [])"
| "await_quorum p ((operator, response) # arrivals) =
     and_then (receive_response (pr_responses p) response) (\<lambda>(idx, buf).
     let p' = p\<lparr>pr_primary := response_received operator idx (pr_primary p),
                pr_secondary := map_option (response_received operator idx) (pr_secondary p),
                pr_responses := buf\<rparr>
     in case quorum_reached p' of
          Some r \<Rightarrow> Ok (r, p', arrivals)
        | None \<Rightarrow> await_quorum p' arrivals)"

section \<open>Counting\<close>

text \<open>
  Specification of the counting: the number of replicas of a set that answered \<open>r\<close>. Operators are
  identified by their ids; each answers at most once.
\<close>

definition voters :: "'n NodeOperator list \<Rightarrow> ('n NodeOperator \<times> Response) list \<Rightarrow> Response \<Rightarrow> operator_id set" where
  "voters rs arrivals r = {operator_id op | op. (op, r) \<in> set arrivals} \<inter> operator_id ` set rs"

definition votes :: "'n NodeOperator list \<Rightarrow> ('n NodeOperator \<times> Response) list \<Rightarrow> Response \<Rightarrow> nat" where
  "votes rs arrivals r = card (voters rs arrivals r)"

definition wf_replica_set :: "'n NodeOperator list \<Rightarrow> bool" where
  "wf_replica_set rs \<longleftrightarrow> length rs = RF \<and> distinct (map operator_id rs)"

definition once_each :: "('n NodeOperator \<times> Response) list \<Rightarrow> bool" where
  "once_each arrivals \<longleftrightarrow> distinct (map (\<lambda>(op, _). operator_id op) arrivals)"

named_theorems rf_simps \<open>the replication factor and the majority as numbers\<close>

lemma RF_eq [rf_simps]: "RF = 5"
  by (simp add: RF_def REPLICATION_FACTOR_def)

lemma threshold_eq [rf_simps]: "MAJORITY_QUORUM_THRESHOLD = 3"
  by (simp add: MAJORITY_QUORUM_THRESHOLD_def RF_eq)

lemma finite_voters [simp]: "finite (voters rs arrivals r)"
  by (simp add: voters_def)

lemma voters_append:
  "voters rs (arrivals @ [(op, r')]) r = voters rs arrivals r \<union>
     (if r' = r \<and> operator_id op \<in> operator_id ` set rs then {operator_id op} else {})"
  by (auto simp: voters_def image_iff)

lemma voters_mono: "set arrivals \<subseteq> set arrivals' \<Longrightarrow> voters rs arrivals r \<subseteq> voters rs arrivals' r"
  by (auto simp: voters_def)

lemma votes_mono: "set arrivals \<subseteq> set arrivals' \<Longrightarrow> votes rs arrivals r \<le> votes rs arrivals' r"
  unfolding votes_def by (rule card_mono) (simp_all add: voters_mono)

lemma voters_disjoint:
  assumes "once_each arrivals" and "r \<noteq> r'"
  shows "voters rs arrivals r \<inter> voters rs arrivals r' = {}"
proof -
  have "a = b" if "a \<in> set arrivals" "b \<in> set arrivals" "operator_id (fst a) = operator_id (fst b)" for a b
    using assms(1) that unfolding once_each_def by (auto simp: distinct_map inj_on_def case_prod_beta)
  with assms(2) show ?thesis
    by (fastforce simp: voters_def)
qed

text \<open>Two different responses cannot both have a majority.\<close>

lemma majority_unique:
  assumes "wf_replica_set rs" and "once_each arrivals"
    and "MAJORITY_QUORUM_THRESHOLD \<le> votes rs arrivals r" and "MAJORITY_QUORUM_THRESHOLD \<le> votes rs arrivals r'"
  shows "r = r'"
proof (rule ccontr)
  assume "r \<noteq> r'"
  then have "votes rs arrivals r + votes rs arrivals r' = card (voters rs arrivals r \<union> voters rs arrivals r')"
    unfolding votes_def using voters_disjoint [OF assms(2)] by (simp add: card_Un_disjoint)
  also have "\<dots> \<le> card (operator_id ` set rs)"
    by (rule card_mono) (auto simp: voters_def)
  also have "\<dots> \<le> RF"
    using card_image_le [of "set rs" operator_id] card_length [of rs] assms(1) by (simp add: wf_replica_set_def)
  finally show False
    using assms(3,4) by (simp add: rf_simps)
qed

section \<open>The buffer\<close>

definition buffer_of :: "Response list \<Rightarrow> ResponseBuffer" where
  "buffer_of seen = map Some seen @ replicate (RF * 2 - length seen) None"

definition add_seen :: "Response \<Rightarrow> Response list \<Rightarrow> Response list" where
  "add_seen r seen = (if r \<in> set seen then seen else seen @ [r])"

lemma set_add_seen [simp]: "set (add_seen r seen) = insert r (set seen)"
  by (auto simp: add_seen_def)

lemma distinct_add_seen: "distinct seen \<Longrightarrow> distinct (add_seen r seen)"
  by (simp add: add_seen_def)

lemma nth_add_seen: "i < length seen \<Longrightarrow> add_seen r seen ! i = seen ! i"
  by (simp add: add_seen_def nth_append)

lemma length_add_seen: "length seen \<le> length (add_seen r seen)" "length (add_seen r seen) \<le> Suc (length seen)"
  by (simp_all add: add_seen_def)

lemma receive_response_gen:
  assumes "distinct seen" and "r \<in> set seen \<or> 0 < k"
  shows "\<exists>i. receive_response (map Some seen @ replicate k None) r
      = (Ok (i, map Some (add_seen r seen) @ replicate (k - (length (add_seen r seen) - length seen)) None) :: ('e, _) outcome)
    \<and> i < length (add_seen r seen) \<and> add_seen r seen ! i = r"
  using assms
proof (induction seen)
  case Nil
  then show ?case
    by (cases k) (simp_all add: add_seen_def)
next
  case (Cons x seen)
  show ?case
  proof (cases "x = r")
    case True
    then show ?thesis
      by (intro exI [of _ 0]) (simp add: add_seen_def)
  next
    case False
    with Cons obtain i where "receive_response (map Some seen @ replicate k None) r
        = (Ok (i, map Some (add_seen r seen) @ replicate (k - (length (add_seen r seen) - length seen)) None) :: ('e, _) outcome)"
      "i < length (add_seen r seen)" "add_seen r seen ! i = r"
      by auto
    moreover have "add_seen r (x # seen) = x # add_seen r seen"
      using False by (simp add: add_seen_def)
    ultimately show ?thesis
      using False by (intro exI [of _ "Suc i"]) simp
  qed
qed

lemma receive_response_buffer:
  assumes "distinct seen" and "length seen < RF * 2"
  obtains i where "receive_response (buffer_of seen) r = (Ok (i, buffer_of (add_seen r seen)) :: ('e, _) outcome)"
    and "i < length (add_seen r seen)" and "add_seen r seen ! i = r"
proof -
  have len: "RF * 2 - length seen - (length (add_seen r seen) - length seen) = RF * 2 - length (add_seen r seen)"
    using length_add_seen(1) [of seen r] by simp
  have "r \<in> set seen \<or> 0 < RF * 2 - length seen"
    using assms(2) by simp
  from receive_response_gen [OF assms(1) this] obtain i where
    "receive_response (map Some seen @ replicate (RF * 2 - length seen) None) r
      = (Ok (i, map Some (add_seen r seen) @ replicate (RF * 2 - length seen - (length (add_seen r seen) - length seen)) None) :: ('e, _) outcome)"
    "i < length (add_seen r seen)" "add_seen r seen ! i = r"
    by blast
  then show ?thesis
    using that unfolding buffer_of_def len by blast
qed

lemma buffer_of_Nil: "buffer_of [] = new_response_buffer"
  by (simp add: buffer_of_def new_response_buffer_def)

lemma nth_buffer_of: "i < length seen \<Longrightarrow> buffer_of seen ! i = Some (seen ! i)"
  by (simp add: buffer_of_def nth_append)

section \<open>The tally\<close>

text \<open>
  What a quorum knows after the arrivals \<open>before\<close>, whose different responses are \<open>seen\<close>: the votes for
  each response, the response of each replica, and the majority response.
\<close>

definition tally :: "'n NodeOperator list \<Rightarrow> Response list \<Rightarrow> ('n NodeOperator \<times> Response) list \<Rightarrow> 'n Quorum \<Rightarrow> bool" where
  "tally rs seen before q \<longleftrightarrow>
     replica_set q = rs \<and> length (replica_responses q) = RF \<and> length (replicas_per_response q) = RF * 2
     \<and> (\<forall>i < RF * 2. replicas_per_response q ! i = (if i < length seen then votes rs before (seen ! i) else 0))
     \<and> (\<forall>k < RF. \<forall>i. replica_responses q ! k = Some i \<longleftrightarrow>
           i < length seen \<and> (\<exists>op. (op, seen ! i) \<in> set before \<and> operator_id op = operator_id (rs ! k)))
     \<and> (\<forall>i. response_idx q = Some i \<longleftrightarrow>
           i < length seen \<and> MAJORITY_QUORUM_THRESHOLD \<le> votes rs before (seen ! i))"

lemma tally_new: "wf_replica_set rs \<Longrightarrow> tally rs [] [] (Quorum_new rs)"
  by (simp add: tally_def Quorum_new_def wf_replica_set_def)

lemma tally_replica:
  assumes "wf_replica_set rs"
  shows "position (\<lambda>op. operator_id op = operator_id operator) rs = Some k \<longleftrightarrow>
    k < RF \<and> operator_id (rs ! k) = operator_id operator"
proof -
  have "operator_id (rs ! k') \<noteq> operator_id (rs ! k)" if "k' < k" "k < length rs" for k'
    using assms that nth_eq_iff_index_eq [of "map operator_id rs" k' k] by (auto simp: wf_replica_set_def)
  then show ?thesis
    using assms unfolding position_eq_Some wf_replica_set_def by metis
qed

lemma votes_append:
  assumes "once_each (before @ [(operator, r)])"
  shows "votes rs (before @ [(operator, r)]) r' = votes rs before r'
    + (if r' = r \<and> operator_id operator \<in> operator_id ` set rs then 1 else 0)"
proof -
  have "operator_id operator \<notin> voters rs before r'"
    using assms by (auto simp: once_each_def voters_def)
  then show ?thesis
    by (auto simp: votes_def voters_append)
qed

lemma votes_unseen: "r \<notin> snd ` set before \<Longrightarrow> votes rs before r = 0"
  by (force simp: votes_def voters_def)

lemma tally_add_seen:
  assumes "tally rs seen before q" and "set seen = snd ` set before"
  shows "tally rs (add_seen r seen) before q"
proof (cases "r \<in> set seen")
  case True
  with assms show ?thesis by (simp add: add_seen_def)
next
  case False
  then have "votes rs before r = 0" and none: "\<And>op. (op, r) \<notin> set before"
    using assms(2) votes_unseen [of r before rs] by (auto simp: image_iff)
  then have votes: "votes rs before ((seen @ [r]) ! i) = (if i < length seen then votes rs before (seen ! i) else 0)"
    if "i < length (seen @ [r])" for i
    using that by (auto simp: nth_append less_Suc_eq)
  have ops: "(\<exists>op. (op, (seen @ [r]) ! i) \<in> set before \<and> operator_id op = x) \<longleftrightarrow>
      i < length seen \<and> (\<exists>op. (op, seen ! i) \<in> set before \<and> operator_id op = x)"
    if "i < length (seen @ [r])" for i x
    using that none by (auto simp: nth_append less_Suc_eq)
  have less: "i < length seen \<Longrightarrow> i < length (seen @ [r])" for i
    by simp
  show ?thesis
    unfolding tally_def add_seen_def if_not_P [OF False]
  proof (intro conjI allI impI)
    fix i
    show "replicas_per_response q ! i = (if i < length (seen @ [r]) then votes rs before ((seen @ [r]) ! i) else 0)"
      if "i < RF * 2"
      using that assms(1) votes [of i] by (auto simp: tally_def)
    show "response_idx q = Some i \<longleftrightarrow>
        i < length (seen @ [r]) \<and> MAJORITY_QUORUM_THRESHOLD \<le> votes rs before ((seen @ [r]) ! i)"
      using assms(1) votes [of i] less [of i] by (auto simp: tally_def rf_simps split: if_splits)
    fix k
    show "replica_responses q ! k = Some i \<longleftrightarrow> i < length (seen @ [r])
        \<and> (\<exists>op. (op, (seen @ [r]) ! i) \<in> set before \<and> operator_id op = operator_id (rs ! k))" if "k < RF"
      using that assms(1) ops [of i "operator_id (rs ! k)"] less [of i] by (auto simp: tally_def)
  qed (use assms(1) in \<open>simp_all add: tally_def\<close>)
qed

lemma tally_vote:
  assumes rs: "wf_replica_set rs" and once: "once_each (before @ [(operator, r)])"
    and t: "tally rs seen before q" and seen: "distinct seen" "length seen \<le> RF * 2"
    and i: "i < length seen" "seen ! i = r"
  shows "tally rs seen (before @ [(operator, r)]) (response_received operator i q)"
proof -
  let ?before = "before @ [(operator, r)]"
  have same: "seen ! j = r \<longleftrightarrow> j = i" if "j < length seen" for j
    using that i nth_eq_iff_index_eq [OF seen(1) that i(1)] by auto
  have q: "replica_set q = rs" "length (replica_responses q) = RF" "length (replicas_per_response q) = RF * 2"
    using t by (simp_all add: tally_def)
  have counts: "replicas_per_response q ! j = (if j < length seen then votes rs before (seen ! j) else 0)"
    if "j < RF * 2" for j
    using t that by (simp add: tally_def)
  have resp: "replica_responses q ! k = Some j \<longleftrightarrow>
      j < length seen \<and> (\<exists>op. (op, seen ! j) \<in> set before \<and> operator_id op = operator_id (rs ! k))" if "k < RF" for k j
    using t that by (simp add: tally_def)
  have idx: "response_idx q = Some j \<longleftrightarrow> j < length seen \<and> MAJORITY_QUORUM_THRESHOLD \<le> votes rs before (seen ! j)" for j
    using t by (simp add: tally_def)
  show ?thesis
  proof (cases "position (\<lambda>op. operator_id op = operator_id operator) rs")
    case None
    then have not_in: "operator_id operator \<notin> operator_id ` set rs"
      by auto
    then have "\<And>k. k < RF \<Longrightarrow> operator_id operator \<noteq> operator_id (rs ! k)"
      using rs by (auto simp: wf_replica_set_def)
    moreover have "response_received operator i q = q"
      unfolding response_received_def q None by simp
    ultimately show ?thesis
      using not_in by (auto simp: tally_def q votes_append [OF once] counts resp idx)
  next
    case (Some k)
    then have k: "k < RF" "operator_id (rs ! k) = operator_id operator"
      using tally_replica [OF rs] by auto
    then have is_in: "operator_id operator \<in> operator_id ` set rs"
      using rs by (metis image_eqI nth_mem wf_replica_set_def)
    have fresh: "(op, x) \<notin> set before" if "operator_id op = operator_id operator" for op x
      using once that by (force simp: once_each_def)
    have other: "operator_id (rs ! k') \<noteq> operator_id operator" if "k' < RF" "k' \<noteq> k" for k'
      using that k rs nth_eq_iff_index_eq [of "map operator_id rs" k' k] by (auto simp: wf_replica_set_def)
    let ?q = "response_received operator i q"
    have count: "replicas_per_response q ! i + 1 = votes rs ?before r"
      using i seen(2) is_in by (simp add: counts votes_append [OF once])
    have q': "replica_set ?q = rs" "replica_responses ?q = (replica_responses q)[k := Some i]"
      "replicas_per_response ?q = (replicas_per_response q)[i := votes rs ?before r]"
      "response_idx ?q = (if MAJORITY_QUORUM_THRESHOLD \<le> votes rs ?before r then Some i else response_idx q)"
      using Some count by (simp_all add: response_received_def q Let_def)
    have votes: "votes rs ?before (seen ! j) = (if j = i then votes rs ?before r else votes rs before (seen ! j))"
      if "j < length seen" for j
      using same [OF that] i by (auto simp: votes_append [OF once])
    show ?thesis
      unfolding tally_def
    proof (intro conjI allI impI)
      fix j
      show "replicas_per_response ?q ! j = (if j < length seen then votes rs ?before (seen ! j) else 0)" if "j < RF * 2"
        using that i q by (auto simp: q' nth_list_update counts votes)
      show "response_idx ?q = Some j \<longleftrightarrow> j < length seen \<and> MAJORITY_QUORUM_THRESHOLD \<le> votes rs ?before (seen ! j)"
      proof (cases "MAJORITY_QUORUM_THRESHOLD \<le> votes rs ?before r")
        case True
        then have "seen ! j = r" if "j < length seen" "MAJORITY_QUORUM_THRESHOLD \<le> votes rs ?before (seen ! j)"
          using majority_unique [OF rs once] that by blast
        with True i same [of j] show ?thesis
          by (auto simp: q')
      next
        case False
        moreover have "votes rs before r \<le> votes rs ?before r"
          by (rule votes_mono) auto
        ultimately show ?thesis
          using i votes [of j] by (cases "j = i") (simp_all add: q' idx cong: conj_cong)
      qed
      fix k'
      show "replica_responses ?q ! k' = Some j \<longleftrightarrow> j < length seen
          \<and> (\<exists>op. (op, seen ! j) \<in> set ?before \<and> operator_id op = operator_id (rs ! k'))" if "k' < RF"
      proof (cases "k' = k")
        case True
        then show ?thesis
          using fresh k i same [of j] q by (auto simp: q')
      next
        case False
        then show ?thesis
          using other [OF that False] resp [OF that, of j] that by (auto simp: q' nth_list_update)
      qed
    qed (simp_all add: q' q)
  qed
qed

lemma tally_step:
  assumes "wf_replica_set rs" and "once_each (before @ [(operator, r)])"
    and "tally rs seen before q" and "set seen = snd ` set before" "distinct seen"
    and "i < length (add_seen r seen)" "add_seen r seen ! i = r" "length (add_seen r seen) \<le> RF * 2"
  shows "tally rs (add_seen r seen) (before @ [(operator, r)]) (response_received operator i q)"
  using assms tally_add_seen [OF assms(3,4), of r] distinct_add_seen [OF assms(5), of r]
  by (intro tally_vote) simp_all

section \<open>The loop\<close>

definition new_progress :: "'n NodeOperator list \<Rightarrow> 'n NodeOperator list option \<Rightarrow> 'n progress" where
  "new_progress primary secondary =
     \<lparr>pr_primary = Quorum_new primary, pr_secondary = map_option Quorum_new secondary,
      pr_responses = new_response_buffer\<rparr>"

text \<open>The state of the loop after the arrivals \<open>before\<close>.\<close>

definition counted ::
  "'n NodeOperator list \<Rightarrow> 'n NodeOperator list option \<Rightarrow> ('n NodeOperator \<times> Response) list \<Rightarrow> Response list
   \<Rightarrow> 'n progress \<Rightarrow> bool" where
  "counted primary secondary before seen p \<longleftrightarrow>
     distinct seen \<and> set seen = snd ` set before \<and> pr_responses p = buffer_of seen
     \<and> tally primary seen before (pr_primary p)
     \<and> rel_option (\<lambda>rs. tally rs seen before) secondary (pr_secondary p)"

definition wf_replica_sets :: "'n NodeOperator list \<Rightarrow> 'n NodeOperator list option \<Rightarrow> bool" where
  "wf_replica_sets primary secondary \<longleftrightarrow>
     wf_replica_set primary \<and> (\<forall>rs. secondary = Some rs \<longrightarrow> wf_replica_set rs)"

lemma counted_new:
  "wf_replica_sets primary secondary \<Longrightarrow> counted primary secondary [] [] (new_progress primary secondary)"
  by (cases secondary) (simp_all add: counted_def new_progress_def buffer_of_Nil tally_new wf_replica_sets_def)

lemma length_seen:
  assumes "distinct seen" and "set seen = snd ` set before"
  shows "length seen \<le> length before"
proof -
  have "length seen = card (snd ` set before)"
    using assms distinct_card by metis
  also have "\<dots> \<le> length before"
    using card_image_le [of "set before" snd] card_length [of before] by simp
  finally show ?thesis .
qed

text \<open>One iteration of the loop, up to the test for a quorum.\<close>

definition received :: "'n NodeOperator \<Rightarrow> nat \<Rightarrow> ResponseBuffer \<Rightarrow> 'n progress \<Rightarrow> 'n progress" where
  "received operator idx buf p =
     p\<lparr>pr_primary := response_received operator idx (pr_primary p),
       pr_secondary := map_option (response_received operator idx) (pr_secondary p),
       pr_responses := buf\<rparr>"

lemma counted_step:
  assumes "wf_replica_sets primary secondary" and "once_each (before @ [(operator, r)])"
    and "counted primary secondary before seen p" and "length before < RF * 2"
  obtains i where "receive_response (pr_responses p) r = (Ok (i, buffer_of (add_seen r seen)) :: ('e, _) outcome)"
    and "counted primary secondary (before @ [(operator, r)]) (add_seen r seen)
           (received operator i (buffer_of (add_seen r seen)) p)"
proof -
  have seen: "distinct seen" "set seen = snd ` set before" and buf: "pr_responses p = buffer_of seen"
    and prim: "tally primary seen before (pr_primary p)"
    and sec: "rel_option (\<lambda>rs. tally rs seen before) secondary (pr_secondary p)"
    using assms(3) by (simp_all add: counted_def)
  have len: "length seen < RF * 2" "length (add_seen r seen) \<le> RF * 2"
    using length_seen [OF seen] length_add_seen(2) [of r seen] assms(4) by simp_all
  obtain i where i: "receive_response (buffer_of seen) r = (Ok (i, buffer_of (add_seen r seen)) :: ('e, _) outcome)"
    "i < length (add_seen r seen)" "add_seen r seen ! i = r"
    using seen(1) len(1) by (rule receive_response_buffer)
  have step: "tally rs (add_seen r seen) (before @ [(operator, r)]) (response_received operator i q)"
    if "wf_replica_set rs" "tally rs seen before q" for rs q
    using that assms(2) seen i(2,3) len(2) by (intro tally_step) auto
  have "rel_option (\<lambda>rs. tally rs (add_seen r seen) (before @ [(operator, r)])) secondary
      (map_option (response_received operator i) (pr_secondary p))"
    using sec assms(1) step by (cases secondary; cases "pr_secondary p") (simp_all add: wf_replica_sets_def)
  then have "counted primary secondary (before @ [(operator, r)]) (add_seen r seen)
      (received operator i (buffer_of (add_seen r seen)) p)"
    using step [OF _ prim] assms(1) seen distinct_add_seen [OF seen(1), of r]
    by (auto simp: counted_def received_def wf_replica_sets_def)
  with i(1) buf that show ?thesis by simp
qed

text \<open>Which responses are agreed on, in terms of votes.\<close>

definition agreed ::
  "'n NodeOperator list \<Rightarrow> 'n NodeOperator list option \<Rightarrow> ('n NodeOperator \<times> Response) list \<Rightarrow> Response \<Rightarrow> bool" where
  "agreed primary secondary arrivals r \<longleftrightarrow>
     MAJORITY_QUORUM_THRESHOLD \<le> votes primary arrivals r
     \<and> (\<forall>rs. secondary = Some rs \<longrightarrow> MAJORITY_QUORUM_THRESHOLD \<le> votes rs arrivals r)"

lemma agreed_mono: "agreed primary secondary arrivals r \<Longrightarrow> set arrivals \<subseteq> set arrivals' \<Longrightarrow> agreed primary secondary arrivals' r"
  unfolding agreed_def using votes_mono order_trans by blast

lemma tally_response_idx:
  assumes "tally rs seen before q"
  shows "response_idx q = Some i \<longleftrightarrow> i < length seen \<and> MAJORITY_QUORUM_THRESHOLD \<le> votes rs before (seen ! i)"
  using assms by (simp add: tally_def)

lemma majority_seen:
  assumes "set seen = snd ` set before" and "MAJORITY_QUORUM_THRESHOLD \<le> votes rs before r"
  shows "\<exists>i < length seen. seen ! i = r"
proof -
  have "r \<in> snd ` set before"
    using assms(2) votes_unseen [of r before rs] by (force simp: rf_simps)
  then show ?thesis
    using assms(1) by (metis in_set_conv_nth)
qed

text \<open>What breaks the loop: an agreed response, or majorities for two different ones.\<close>

lemma quorum_reached_Some:
  assumes "counted primary secondary before seen p"
  shows "quorum_reached p = Some (Some i) \<longleftrightarrow> i < length seen \<and> agreed primary secondary before (seen ! i)"
    and "quorum_reached p = Some None \<Longrightarrow> \<exists>rs r r'. secondary = Some rs \<and> r \<noteq> r'
      \<and> MAJORITY_QUORUM_THRESHOLD \<le> votes primary before r \<and> MAJORITY_QUORUM_THRESHOLD \<le> votes rs before r'"
proof -
  have idx: "response_idx (pr_primary p) = Some j \<longleftrightarrow>
      j < length seen \<and> MAJORITY_QUORUM_THRESHOLD \<le> votes primary before (seen ! j)" for j
    using assms tally_response_idx [of primary seen before "pr_primary p"] by (simp add: counted_def)
  have "(quorum_reached p = Some (Some i) \<longleftrightarrow> i < length seen \<and> agreed primary secondary before (seen ! i))
      \<and> (quorum_reached p = Some None \<longrightarrow> (\<exists>rs r r'. secondary = Some rs \<and> r \<noteq> r'
      \<and> MAJORITY_QUORUM_THRESHOLD \<le> votes primary before r \<and> MAJORITY_QUORUM_THRESHOLD \<le> votes rs before r'))"
  proof (cases secondary)
    case None
    with assms have "pr_secondary p = None"
      by (simp add: counted_def)
    with None idx show ?thesis
      by (cases "response_idx (pr_primary p)") (auto simp: quorum_reached_def agreed_def)
  next
    case (Some rs)
    with assms obtain q where q: "pr_secondary p = Some q" "tally rs seen before q"
      by (auto simp: counted_def option_rel_Some1)
    note idx' = tally_response_idx [OF q(2)]
    show ?thesis
    proof (cases "response_idx (pr_primary p)"; cases "response_idx q")
      fix a b
      assume ab: "response_idx (pr_primary p) = Some a" "response_idx q = Some b"
      then have "seen ! a = seen ! b \<longleftrightarrow> a = b"
        using assms idx idx' by (auto simp: counted_def nth_eq_iff_index_eq)
      then show ?thesis
        using ab Some q idx [of a] idx' [of b] idx [of i] idx' [of i]
        by (auto simp: quorum_reached_def agreed_def)
    qed (use Some q idx [of i] idx' [of i] in \<open>auto simp: quorum_reached_def agreed_def\<close>)
  qed
  then show "quorum_reached p = Some (Some i) \<longleftrightarrow> i < length seen \<and> agreed primary secondary before (seen ! i)"
    and "quorum_reached p = Some None \<Longrightarrow> \<exists>rs r r'. secondary = Some rs \<and> r \<noteq> r'
      \<and> MAJORITY_QUORUM_THRESHOLD \<le> votes primary before r \<and> MAJORITY_QUORUM_THRESHOLD \<le> votes rs before r'"
    by blast+
qed

lemma await_quorum_gen:
  assumes "wf_replica_sets primary secondary" and "once_each (before @ arrivals)"
    and "counted primary secondary before seen p" and "length (before @ arrivals) \<le> RF * 2"
    and "quorum_reached p = None"
  shows "\<exists>res p' rest pre seen'. await_quorum p arrivals = (Ok (res, p', rest) :: ('e, _) outcome)
    \<and> arrivals = pre @ rest \<and> counted primary secondary (before @ pre) seen' p'
    \<and> (quorum_reached p' = Some res \<or> rest = [] \<and> res = None \<and> quorum_reached p' = None)"
  using assms
proof (induction arrivals arbitrary: before seen p)
  case Nil
  then show ?case
    by (intro exI [of _ None] exI [of _ p] exI [of _ "[]"] exI [of _ seen]) simp
next
  case (Cons ar arrivals)
  obtain operator r where ar: "ar = (operator, r)" by (cases ar)
  let ?before = "before @ [(operator, r)]" and ?seen = "add_seen r seen"
  have once: "once_each ?before"
    using Cons.prems(2) by (simp add: ar once_each_def)
  have "length before < RF * 2"
    using Cons.prems(4) by simp
  from Cons.prems(1) once Cons.prems(3) this obtain i where
    i: "receive_response (pr_responses p) r = (Ok (i, buffer_of ?seen) :: ('e, _) outcome)"
    and p': "counted primary secondary ?before ?seen (received operator i (buffer_of ?seen) p)"
    by (rule counted_step)
  let ?p = "received operator i (buffer_of ?seen) p"
  have unfold: "await_quorum p (ar # arrivals) = (case quorum_reached ?p of
      Some res \<Rightarrow> Ok (res, ?p, arrivals) | None \<Rightarrow> (await_quorum ?p arrivals :: ('e, _) outcome))"
    using i by (simp add: ar received_def Let_def split: option.splits)
  show ?case
  proof (cases "quorum_reached ?p")
    case (Some res)
    show ?thesis
    proof (intro exI conjI)
      show "await_quorum p (ar # arrivals) = (Ok (res, ?p, arrivals) :: ('e, _) outcome)"
        unfolding unfold Some by simp
      show "ar # arrivals = [ar] @ arrivals" by simp
      show "counted primary secondary (before @ [ar]) ?seen ?p"
        using p' by (simp add: ar)
      show "quorum_reached ?p = Some res \<or> arrivals = [] \<and> res = None \<and> quorum_reached ?p = None"
        using Some by simp
    qed
  next
    case None
    have "once_each (?before @ arrivals)" "length (?before @ arrivals) \<le> RF * 2"
      using Cons.prems(2,4) by (simp_all add: ar)
    with Cons.IH [OF Cons.prems(1) _ p' _ None] obtain res p'' rest pre seen' where
      "await_quorum ?p arrivals = (Ok (res, p'', rest) :: ('e, _) outcome)" "arrivals = pre @ rest"
      "counted primary secondary (?before @ pre) seen' p''"
      "quorum_reached p'' = Some res \<or> rest = [] \<and> res = None \<and> quorum_reached p'' = None"
      by blast
    note run = this
    show ?thesis
    proof (intro exI conjI)
      show "await_quorum p (ar # arrivals) = (Ok (res, p'', rest) :: ('e, _) outcome)"
        unfolding unfold None using run(1) by simp
      show "ar # arrivals = (ar # pre) @ rest" using run(2) by simp
      show "counted primary secondary (before @ ar # pre) seen' p''"
        using run(3) by (simp add: ar)
      show "quorum_reached p'' = Some res \<or> rest = [] \<and> res = None \<and> quorum_reached p'' = None"
        by (rule run(4))
    qed
  qed
qed

text \<open>
  The loop returns, without a panic, the position of the agreed response if there is one among all
  arrivals, whatever their order, and nothing otherwise.
\<close>

lemma await_quorum_spec:
  assumes wf: "wf_replica_sets primary secondary" and once: "once_each arrivals" and len: "length arrivals \<le> RF * 2"
  obtains res p rest pre seen where
    "await_quorum (new_progress primary secondary) arrivals = (Ok (res, p, rest) :: ('e, _) outcome)"
    "arrivals = pre @ rest" "counted primary secondary pre seen p"
    "\<forall>r. agreed primary secondary arrivals r \<longleftrightarrow> (\<exists>i < length seen. res = Some i \<and> seen ! i = r)"
    "\<forall>i. res = Some i \<longrightarrow> i < length seen \<and> agreed primary secondary pre (seen ! i)"
    "res = None \<longrightarrow> secondary = None \<longrightarrow> rest = []"
proof -
  have "quorum_reached (new_progress primary secondary) = None"
    by (cases secondary) (simp_all add: quorum_reached_def new_progress_def Quorum_new_def)
  then have "\<exists>res p rest pre seen. await_quorum (new_progress primary secondary) arrivals = (Ok (res, p, rest) :: ('e, _) outcome)
      \<and> arrivals = pre @ rest \<and> counted primary secondary ([] @ pre) seen p
      \<and> (quorum_reached p = Some res \<or> rest = [] \<and> res = None \<and> quorum_reached p = None)"
    by (intro await_quorum_gen [OF wf _ counted_new [OF wf]]) (simp_all add: once len)
  then obtain res p rest pre seen where
    run: "await_quorum (new_progress primary secondary) arrivals = (Ok (res, p, rest) :: ('e, _) outcome)"
    and arr: "arrivals = pre @ rest" and c: "counted primary secondary pre seen p"
    and res: "quorum_reached p = Some res \<or> rest = [] \<and> res = None \<and> quorum_reached p = None"
    unfolding append_Nil by blast
  have sub: "set pre \<subseteq> set arrivals"
    using arr by simp
  have unique: "r = r'" if "agreed primary secondary arrivals r" "MAJORITY_QUORUM_THRESHOLD \<le> votes primary pre r'" for r r'
    using that majority_unique [OF _ once, of primary r r'] wf votes_mono [OF sub, of primary r']
    by (simp add: agreed_def wf_replica_sets_def)
  have unique': "r = r'" if "agreed primary secondary arrivals r" "secondary = Some rs" "MAJORITY_QUORUM_THRESHOLD \<le> votes rs pre r'" for r r' rs
    using that majority_unique [OF _ once, of rs r r'] wf votes_mono [OF sub, of rs r']
    by (simp add: agreed_def wf_replica_sets_def)
  have some: "i < length seen \<and> agreed primary secondary pre (seen ! i)" if "res = Some i" for i
    using that res quorum_reached_Some(1) [OF c, of i] by auto
  have iff: "agreed primary secondary arrivals r \<longleftrightarrow> (\<exists>i < length seen. res = Some i \<and> seen ! i = r)" for r
  proof
    assume r: "agreed primary secondary arrivals r"
    show "\<exists>i < length seen. res = Some i \<and> seen ! i = r"
    proof (cases res)
      case (Some i)
      with some r unique show ?thesis
        by (auto simp: agreed_def)
    next
      case None
      show ?thesis
      proof (cases "quorum_reached p")
        case (Some x)
        with None res have "quorum_reached p = Some None"
          by auto
        from quorum_reached_Some(2) [OF c this] unique unique' r show ?thesis
          by metis
      next
        case no: None
        with None res have "pre = arrivals"
          using arr by simp
        with r have "agreed primary secondary pre r"
          by simp
        moreover obtain i where "i < length seen" "seen ! i = r"
          using majority_seen [of seen pre primary r] c \<open>agreed primary secondary pre r\<close>
          by (auto simp: counted_def agreed_def)
        ultimately show ?thesis
          using quorum_reached_Some(1) [OF c, of i] no by simp
      qed
    qed
  next
    assume "\<exists>i < length seen. res = Some i \<and> seen ! i = r"
    with some sub show "agreed primary secondary arrivals r"
      using agreed_mono by metis
  qed
  have "rest = []" if "res = None" "secondary = None"
    using res that quorum_reached_Some(2) [OF c] by auto
  with run arr c iff some show ?thesis
    by (intro that) auto
qed

end
