(* ===== verification/Reconciliation.thy ===== *)
theory Reconciliation
  imports Quorum "HOL-Library.Product_Lexorder" "HOL-Library.Multiset"
begin

text \<open>
  Model of \<open>crates/replication/src/coordinator/reconciliation.rs\<close>: merging the responses to a map read
  that found no quorum. The arguments are the response buffer and the number of replicas behind each
  response; \<open>weighted\<close> is the iterator that both merges start with. Byte strings are ordered
  lexicographically.
\<close>

definition weighted :: "(Output \<Rightarrow> 'a option) \<Rightarrow> Response option list \<Rightarrow> nat list \<Rightarrow> ('a \<times> nat) list" where
  "weighted sel responses weights =
     List.map_filter (\<lambda>(idx, opt).
         case opt of
           Some (Inr out) \<Rightarrow> map_option (\<lambda>a. (a, weights ! idx)) (sel out)
         | _ \<Rightarrow> None)
       (enumerate 0 responses)"

fun as_map_page :: "Output \<Rightarrow> MapPage option" where
  "as_map_page (OutMapPage page) = Some page"
| "as_map_page _ = None"

fun as_cardinality :: "Output \<Rightarrow> u64 option" where
  "as_cardinality (OutCardinality c) = Some c"
| "as_cardinality _ = None"

text \<open>
  The \<open>HashMap\<close> of counters is a map; the entries that are counted are listed once each in order of
  first occurrence, then sorted by field.
\<close>

definition count_entries :: "(MapPage \<times> nat) list \<Rightarrow> MapEntry \<Rightarrow> nat" where
  "count_entries pages =
     fold (\<lambda>(page, weight) counters.
             fold (\<lambda>entry counters. counters(entry := counters entry + weight)) (page_entries page) counters)
       pages (\<lambda>_. 0)"

definition reconcile_map_page :: "Response option list \<Rightarrow> nat list \<Rightarrow> MapPage option" where
  "reconcile_map_page responses weights =
     (let pages = weighted as_map_page responses weights in
      if sum_list (map snd pages) < MAJORITY_QUORUM_THRESHOLD then None
      else
        let has_next = sum_list (map (\<lambda>(page, weight). if page_has_next page then weight else 0) pages)
                         \<ge> MAJORITY_QUORUM_THRESHOLD;
            counters = count_entries pages;
            entries = filter (\<lambda>entry. counters entry \<ge> MAJORITY_QUORUM_THRESHOLD)
                        (remdups (concat (map (\<lambda>(page, _). page_entries page) pages)))
        in Some \<lparr>page_entries = sort_key entry_field entries, page_has_next = has_next\<rparr>)"

fun first_majority :: "(u64 \<times> nat) list \<Rightarrow> nat \<Rightarrow> u64 option" where
  "first_majority [] total_weight = None"
| "first_majority ((c, weight) # cards) total_weight =
     (let total_weight = total_weight + weight in
      if total_weight \<ge> MAJORITY_QUORUM_THRESHOLD then Some c else first_majority cards total_weight)"

definition reconcile_map_cardinality :: "Response option list \<Rightarrow> nat list \<Rightarrow> u64 option" where
  "reconcile_map_cardinality responses weights =
     first_majority (sort (weighted as_cardinality responses weights)) 0"

fun reconcile_owned :: "Owned \<Rightarrow> Response option list \<Rightarrow> nat list \<Rightarrow> Output option" where
  "reconcile_owned (OpHScan _) responses weights = map_option OutMapPage (reconcile_map_page responses weights)"
| "reconcile_owned (OpHCard _) responses weights = map_option OutCardinality (reconcile_map_cardinality responses weights)"
| "reconcile_owned _ responses weights = None"

fun reconcile :: "Operation \<Rightarrow> Response option list \<Rightarrow> nat list \<Rightarrow> Output option" where
  "reconcile (OwnedOperation op) responses weights = reconcile_owned op responses weights"
| "reconcile (BorrowedOperation op) responses weights = reconcile_owned (borrowed_into_owned op) responses weights"

section \<open>Cardinality: the weighted median\<close>

text \<open>The number of replicas behind the answers that satisfy \<open>P\<close>.\<close>

definition weight_where :: "('a \<Rightarrow> bool) \<Rightarrow> ('a \<times> nat) list \<Rightarrow> nat" where
  "weight_where P xs = sum_list (map snd (filter (\<lambda>x. P (fst x)) xs))"

lemma weight_where_simps [simp]:
  "weight_where P [] = 0"
  "weight_where P (x # xs) = (if P (fst x) then snd x else 0) + weight_where P xs"
  by (simp_all add: weight_where_def)

lemma weight_where_mono: "(\<And>x. P x \<Longrightarrow> Q x) \<Longrightarrow> weight_where P xs \<le> weight_where Q xs"
  by (induction xs) auto

lemma weight_where_mset: "mset xs = mset ys \<Longrightarrow> weight_where P xs = weight_where P ys"
proof -
  assume "mset xs = mset ys"
  then have "mset (map snd (filter (\<lambda>x. P (fst x)) xs)) = mset (map snd (filter (\<lambda>x. P (fst x)) ys))"
    by simp
  then have "sum_mset (mset (map snd (filter (\<lambda>x. P (fst x)) xs))) = sum_mset (mset (map snd (filter (\<lambda>x. P (fst x)) ys)))"
    by (rule arg_cong)
  then show "weight_where P xs = weight_where P ys"
    unfolding weight_where_def sum_mset_sum_list .
qed

lemma first_majority_Some:
  assumes "sorted (map fst cs)" and "t < MAJORITY_QUORUM_THRESHOLD" and "first_majority cs t = Some c"
  shows "c \<in> fst ` set cs \<and> MAJORITY_QUORUM_THRESHOLD \<le> t + weight_where (\<lambda>x. x \<le> c) cs
    \<and> t + weight_where (\<lambda>x. x < c) cs < MAJORITY_QUORUM_THRESHOLD"
  using assms
proof (induction cs arbitrary: t)
  case Nil
  then show ?case by simp
next
  case (Cons cw cs)
  obtain c0 w where cw: "cw = (c0, w)" by (cases cw)
  show ?case
  proof (cases "MAJORITY_QUORUM_THRESHOLD \<le> t + w")
    case True
    with Cons.prems cw have "c = c0" by simp
    moreover have "weight_where (\<lambda>x. x < c0) cs = 0"
      using Cons.prems(1) by (auto simp: cw weight_where_def sum_list_eq_0_iff)
    ultimately show ?thesis
      using True Cons.prems(2) by (simp add: cw)
  next
    case False
    with Cons.prems cw have c: "first_majority cs (t + w) = Some c" by simp
    from Cons.IH [OF _ _ c] Cons.prems(1) False
    have IH: "c \<in> fst ` set cs \<and> MAJORITY_QUORUM_THRESHOLD \<le> t + w + weight_where (\<lambda>x. x \<le> c) cs
        \<and> t + w + weight_where (\<lambda>x. x < c) cs < MAJORITY_QUORUM_THRESHOLD"
      by simp
    then have "c0 \<le> c"
      using Cons.prems(1) by (auto simp: cw)
    with IH show ?thesis
      by (auto simp: cw)
  qed
qed

lemma first_majority_None:
  "t < MAJORITY_QUORUM_THRESHOLD \<Longrightarrow>
   first_majority cs t = None \<longleftrightarrow> t + weight_where (\<lambda>_. True) cs < MAJORITY_QUORUM_THRESHOLD"
  by (induction cs t rule: first_majority.induct) (auto simp: Let_def)


section \<open>Pages: the entries of a majority\<close>

text \<open>The number of replicas behind the pages with an entry (a page that repeats it counts again).\<close>

definition support :: "(MapPage \<times> nat) list \<Rightarrow> MapEntry \<Rightarrow> nat" where
  "support pages e = sum_list (map (\<lambda>(page, weight). weight * count_list (page_entries page) e) pages)"

lemma count_page:
  "fold (\<lambda>entry counters. counters(entry := counters entry + w)) es counters e
   = counters e + w * count_list es e"
  by (induction es arbitrary: counters) auto

lemma count_entries_eq: "count_entries pages = support pages"
proof
  fix e
  have "fold (\<lambda>(page, weight) counters.
          fold (\<lambda>entry counters. counters(entry := counters entry + weight)) (page_entries page) counters)
        pages counters e = counters e + support pages e" for counters
    by (induction pages arbitrary: counters) (auto simp: support_def count_page)
  then show "count_entries pages e = support pages e"
    by (simp add: count_entries_def)
qed

lemma support_pos: "0 < support pages e \<Longrightarrow> \<exists>page weight. (page, weight) \<in> set pages \<and> e \<in> set (page_entries page)"
proof (induction pages)
  case (Cons pw pages)
  obtain p w where pw: "pw = (p, w)" by (cases pw)
  show ?case
  proof (cases "e \<in> set (page_entries p)")
    case False
    then have "count_list (page_entries p) e = 0"
      by (simp add: count_list_0_iff)
    with Cons show ?thesis
      by (auto simp: pw support_def)
  qed (auto simp: pw)
qed (simp add: support_def)

text \<open>
  C19. Without a quorum on \<open>hscan\<close> the coordinator answers with what a majority of replicas
  reported: the reconciled page has exactly the entries whose supporting replicas number at least
  three, once each and in the order of their fields, and it promises a next page exactly if at
  least three replicas do; there is no answer exactly if fewer than three replicas sent a page.
\<close>

theorem reconcile_page_majority:
  "case reconcile_map_page responses weights of
     None \<Rightarrow> weight_where (\<lambda>_. True) (weighted as_map_page responses weights) < 3
   | Some page \<Rightarrow>
       3 \<le> weight_where (\<lambda>_. True) (weighted as_map_page responses weights)
       \<and> set (page_entries page) = {e. 3 \<le> support (weighted as_map_page responses weights) e}
       \<and> distinct (page_entries page) \<and> sorted (map entry_field (page_entries page))
       \<and> page_has_next page = (3 \<le> weight_where page_has_next (weighted as_map_page responses weights))"
proof -
  let ?pages = "weighted as_map_page responses weights"
  have total: "sum_list (map snd ?pages) = weight_where (\<lambda>_. True) ?pages"
    by (simp add: weight_where_def)
  have has_next: "sum_list (map (\<lambda>(page, weight). if page_has_next page then weight else 0) pages)
      = weight_where page_has_next pages" for pages
    by (induction pages) auto
  have entries: "{e. 3 \<le> support ?pages e}
      = set (filter (\<lambda>e. 3 \<le> support ?pages e) (remdups (concat (map (\<lambda>(page, _). page_entries page) ?pages))))"
  proof -
    have "e \<in> set (concat (map (\<lambda>(page, _). page_entries page) ?pages))" if "3 \<le> support ?pages e" for e
      using support_pos [of ?pages e] that by auto
    then show ?thesis by auto
  qed
  show ?thesis
    unfolding entries
    by (simp add: reconcile_map_page_def Let_def total has_next count_entries_eq rf_simps)
qed

end
