(* ===== verification/Read_Repair.thy ===== *)
theory Read_Repair
  imports Quorum
begin

text \<open>
  Model of \<open>crates/replication/src/coordinator/read_repair.rs\<close>: after a read has reached its quorum, the
  replicas that answered with something else are brought up to date with a write of the record that
  the quorum returned.
\<close>

definition MAX_TARGETS :: nat where
  "MAX_TARGETS = RF - MAJORITY_QUORUM_THRESHOLD"

record 'n ReadRepair =
  rr_operation :: Operation
  rr_output :: Output
  rr_targets :: "'n NodeOperator option list"

fun owned_is_repairable :: "Owned \<Rightarrow> bool" where
  "owned_is_repairable (OpGet _) = True"
| "owned_is_repairable (OpHGet _) = True"
| "owned_is_repairable _ = False"

fun is_repairable :: "Operation \<Rightarrow> bool" where
  "is_repairable (OwnedOperation op) = owned_is_repairable op"
| "is_repairable (BorrowedOperation op) = owned_is_repairable (borrowed_into_owned op)"

text \<open>\<open>array::from_fn(|_| targets.next())\<close>: the first two targets, padded with \<open>None\<close>.\<close>

definition fill_targets :: "'n NodeOperator list \<Rightarrow> 'n NodeOperator option list" where
  "fill_targets ts = map (\<lambda>i. list_get ts i) [0..<MAX_TARGETS]"

definition ReadRepair_new ::
  "Operation \<Rightarrow> ResponseBuffer \<Rightarrow> 'n Quorum \<Rightarrow> 'n ReadRepair option" where
  "ReadRepair_new operation responses q =
     (if \<not> is_repairable operation then None
      else case response_idx q of
        None \<Rightarrow> None
      | Some quorum_idx \<Rightarrow>
          (case responses ! quorum_idx of
             Some (Inr output) \<Rightarrow>
               Some \<lparr>rr_operation = operation, rr_output = output,
                 rr_targets = fill_targets (List.map_filter (\<lambda>(replica_idx, idx).
                     case idx of
                       Some i \<Rightarrow> if i \<noteq> quorum_idx \<and> (case responses ! i of Some (Inr _) \<Rightarrow> True | _ \<Rightarrow> False)
                                 then Some (replica_set q ! replica_idx) else None
                     | None \<Rightarrow> None) (enumerate 0 (replica_responses q)))\<rparr>
           | _ \<Rightarrow> None))"

text \<open>The first free target slot is taken; with no free slot the response is dropped.\<close>

fun put_target :: "'n NodeOperator \<Rightarrow> 'n NodeOperator option list \<Rightarrow> 'n NodeOperator option list" where
  "put_target operator [] = []"
| "put_target operator (None # ts) = Some operator # ts"
| "put_target operator (Some t # ts) = Some t # put_target operator ts"

definition check_response :: "'n NodeOperator \<Rightarrow> Response \<Rightarrow> 'n ReadRepair \<Rightarrow> 'n ReadRepair" where
  "check_response operator response rr =
     (case response of
        Inr output \<Rightarrow> if output \<noteq> rr_output rr then rr\<lparr>rr_targets := put_target operator (rr_targets rr)\<rparr> else rr
      | Inl _ \<Rightarrow> rr)"

fun repair_owned :: "Owned \<Rightarrow> Output \<Rightarrow> Operation option" where
  "repair_owned (OpGet get) (OutRecord (Some record)) =
     Some (BorrowedOperation (BorrowedSet \<lparr>set_namespace = get_namespace get, set_key = get_key get,
       set_record = record, set_keyspace_ver = get_keyspace_version get\<rparr>))"
| "repair_owned (OpHGet hget) (OutRecord (Some record)) =
     Some (BorrowedOperation (BorrowedHSet \<lparr>hset_namespace = hget_namespace hget, hset_key = hget_key hget,
       hset_entry = \<lparr>entry_field = hget_field hget, entry_record = record\<rparr>,
       hset_keyspace_version = hget_keyspace_version hget\<rparr>))"
| "repair_owned _ _ = None"

fun repair_operation :: "Operation \<Rightarrow> Output \<Rightarrow> Operation option" where
  "repair_operation (OwnedOperation op) output = repair_owned op output"
| "repair_operation (BorrowedOperation op) output = repair_owned (borrowed_into_owned op) output"

text \<open>\<open>run\<close>: the requests it sends, one per target. Their outcomes are only counted.\<close>

definition repair_requests :: "'n ReadRepair \<Rightarrow> ('n NodeOperator \<times> Operation) list" where
  "repair_requests rr =
     (case repair_operation (rr_operation rr) (rr_output rr) of
        None \<Rightarrow> []
      | Some operation \<Rightarrow> map (\<lambda>t. (t, operation)) (List.map_filter (\<lambda>t. t) (rr_targets rr)))"

section \<open>The target slots\<close>

text \<open>The target array with the operators \<open>ts\<close> in its first slots.\<close>

definition packed :: "'n NodeOperator list \<Rightarrow> 'n NodeOperator option list" where
  "packed ts = map Some (take MAX_TARGETS ts) @ replicate (MAX_TARGETS - length ts) None"

lemma MAX_TARGETS_eq [rf_simps]: "MAX_TARGETS = 2"
  by (simp add: MAX_TARGETS_def rf_simps)

lemma fill_targets_eq: "fill_targets ts = packed ts"
  by (rule nth_equalityI) (auto simp: fill_targets_def packed_def list_get_def nth_append)

lemma put_target_packed: "put_target operator (packed ts) = packed (ts @ [operator])"
proof -
  have put: "put_target operator (map Some xs @ replicate k None)
      = (if k = 0 then map Some xs else map Some (xs @ [operator]) @ replicate (k - 1) None)" for xs k
    by (induction xs) (cases k; simp)+
  show ?thesis
    using put [of _ 0] by (cases "length ts < MAX_TARGETS") (auto simp: packed_def put)
qed

lemma map_filter_packed: "List.map_filter (\<lambda>t. t) (packed ts) = take MAX_TARGETS ts"
proof -
  have "List.map_filter (\<lambda>t. t) (map Some xs @ replicate k None) = xs" for xs :: "'n NodeOperator list" and k
    by (induction xs) (induction k; simp add: List.map_filter_simps)+
  then show ?thesis
    by (simp add: packed_def)
qed

text \<open>The operators whose successful answer differs from the quorum's.\<close>

definition stale :: "Output \<Rightarrow> ('n NodeOperator \<times> Response) list \<Rightarrow> 'n NodeOperator list" where
  "stale out arrivals = map fst (filter (\<lambda>(_, r). case r of Inr o' \<Rightarrow> o' \<noteq> out | Inl _ \<Rightarrow> False) arrivals)"

lemma stale_simps [simp]:
  "stale out [] = []"
  "stale out ((op, r) # arrivals) =
     (case r of Inr o' \<Rightarrow> if o' \<noteq> out then op # stale out arrivals else stale out arrivals
      | Inl _ \<Rightarrow> stale out arrivals)"
  by (simp_all add: stale_def split: sum.splits)

lemma in_stale: "op \<in> set (stale out arrivals) \<longleftrightarrow> (\<exists>o'. (op, Inr o') \<in> set arrivals \<and> o' \<noteq> out)"
  by (induction arrivals) (auto split: sum.splits if_splits)

lemma fold_check_response:
  assumes "rr_targets rr = packed ts"
  shows "fold (\<lambda>(op, r). check_response op r) arrivals rr
    = rr\<lparr>rr_targets := packed (ts @ stale (rr_output rr) arrivals)\<rparr>"
  using assms
proof (induction arrivals arbitrary: rr ts)
  case Nil
  then show ?case by simp
next
  case (Cons a arrivals)
  obtain op r where a: "a = (op, r)" by (cases a)
  show ?case
  proof (cases "\<exists>o'. r = Inr o' \<and> o' \<noteq> rr_output rr")
    case True
    with Cons.prems have "check_response op r rr = rr\<lparr>rr_targets := packed (ts @ [op])\<rparr>"
      by (auto simp: check_response_def put_target_packed)
    with Cons.IH [of "rr\<lparr>rr_targets := packed (ts @ [op])\<rparr>" "ts @ [op]"] True show ?thesis
      by (auto simp: a)
  next
    case False
    then have "check_response op r rr = rr"
      by (auto simp: check_response_def split: sum.splits)
    with Cons.IH [OF Cons.prems] False show ?thesis
      by (auto simp: a split: sum.splits)
  qed
qed

section \<open>Filtering an array by position\<close>

lemma in_set_map_filter: "y \<in> set (List.map_filter h xs) \<longleftrightarrow> (\<exists>x \<in> set xs. h x = Some y)"
  by (induction xs) (auto simp: List.map_filter_simps split: option.splits)

lemma distinct_map_filter:
  assumes "distinct xs" and "inj_on g (set xs)" and "\<And>x y. x \<in> set xs \<Longrightarrow> h x = Some y \<Longrightarrow> y = g x"
  shows "distinct (List.map_filter h xs)"
  using assms
proof (induction xs)
  case (Cons x xs)
  show ?case
  proof (cases "h x")
    case (Some y)
    have "y = g x" using Cons.prems(3) Some by simp
    moreover have "g x \<notin> g ` set xs"
      using Cons.prems(1,2) by (auto simp: inj_on_def)
    moreover have "z \<in> g ` set xs" if "z \<in> set (List.map_filter h xs)" for z
      using that Cons.prems(3) by (auto simp: in_set_map_filter)
    ultimately show ?thesis
      using Some Cons by (auto simp: List.map_filter_simps)
  qed (use Cons in \<open>auto simp: List.map_filter_simps\<close>)
qed (simp add: List.map_filter_simps)

lemma map_filter_enumerate:
  "List.map_filter f (enumerate 0 xs) = List.map_filter (\<lambda>k. f (k, xs ! k)) [0..<length xs]"
proof -
  have "enumerate 0 xs = map (\<lambda>k. (k, xs ! k)) [0..<length xs]"
    by (rule nth_equalityI) (simp_all add: nth_enumerate_eq)
  then show ?thesis
    by (simp add: List.map_filter_def comp_def filter_map)
qed

section \<open>The targets known when the quorum is reached\<close>

lemma ReadRepair_new_counted:
  assumes c: "counted rs None before seen p" and rs: "wf_replica_set rs"
    and i: "response_idx (pr_primary p) = Some i" "seen ! i = Inr out"
    and from_rs: "fst ` set before \<subseteq> set rs" and op: "is_repairable operation"
  obtains rr ts where "ReadRepair_new operation (pr_responses p) (pr_primary p) = Some rr"
    and "rr_operation rr = operation" and "rr_output rr = out" and "rr_targets rr = packed ts"
    and "distinct ts" and "set ts = set (stale out before)"
proof -
  let ?q = "pr_primary p"
  have seen: "distinct seen" "pr_responses p = buffer_of seen" and t: "tally rs seen before ?q"
    using c by (simp_all add: counted_def)
  have len: "i < length seen"
    using i(1) tally_response_idx [OF t] by simp
  have q: "replica_set ?q = rs" "length (replica_responses ?q) = RF"
    using t by (simp_all add: tally_def)
  have resp: "replica_responses ?q ! k = Some j \<longleftrightarrow>
      j < length seen \<and> (\<exists>op. (op, seen ! j) \<in> set before \<and> operator_id op = operator_id (rs ! k))" if "k < RF" for k j
    using t that by (simp add: tally_def)
  define f where "f = (\<lambda>(replica_idx, idx). case idx of
      Some j \<Rightarrow> if j \<noteq> i \<and> (case buffer_of seen ! j of Some (Inr _) \<Rightarrow> True | _ \<Rightarrow> False)
                then Some (replica_set ?q ! replica_idx) else None
    | None \<Rightarrow> None)"
  define ts where "ts = List.map_filter f (enumerate 0 (replica_responses ?q))"
  have new: "ReadRepair_new operation (pr_responses p) ?q
      = Some \<lparr>rr_operation = operation, rr_output = out, rr_targets = packed ts\<rparr>"
    using op i len by (simp add: ReadRepair_new_def seen(2) nth_buffer_of fill_targets_eq ts_def f_def)
  have same_op: "op = rs ! k" if "(op, r) \<in> set before" "operator_id op = operator_id (rs ! k)" "k < RF" for op r k
  proof -
    have "op \<in> set rs" using from_rs that(1) by force
    then show ?thesis
      using that(2,3) rs nth_eq_iff_index_eq [of "map operator_id rs"]
      by (auto simp: wf_replica_set_def in_set_conv_nth)
  qed
  have f: "f (k, idx) = Some op \<longleftrightarrow> op = rs ! k \<and> (\<exists>j o'. idx = Some j \<and> j \<noteq> i \<and> seen ! j = Inr o')"
    if "idx = replica_responses ?q ! k" "k < RF" for k idx op
  proof (cases idx)
    case (Some j)
    then have "j < length seen"
      using that resp [of k j] by simp
    with Some show ?thesis
      by (cases "seen ! j") (auto simp: f_def q nth_buffer_of)
  qed (simp add: f_def)
  have ts_eq: "ts = List.map_filter (\<lambda>k. f (k, replica_responses ?q ! k)) [0..<RF]"
    by (simp add: ts_def map_filter_enumerate q)
  then have "op \<in> set ts \<longleftrightarrow> (\<exists>k < RF. f (k, replica_responses ?q ! k) = Some op)" for op
    by (auto simp: in_set_map_filter)
  then have in_ts: "op \<in> set ts \<longleftrightarrow> (\<exists>k < RF. \<exists>j o'. op = rs ! k \<and> replica_responses ?q ! k = Some j \<and> j \<noteq> i \<and> seen ! j = Inr o')" for op
    using f by blast
  have set_ts: "set ts = set (stale out before)"
  proof (intro set_eqI iffI)
    fix op
    assume "op \<in> set ts"
    then obtain k j o' where k: "k < RF" "op = rs ! k" "replica_responses ?q ! k = Some j" "j \<noteq> i" "seen ! j = Inr o'"
      using in_ts by blast
    then obtain op' where "j < length seen" "(op', Inr o') \<in> set before" "operator_id op' = operator_id (rs ! k)"
      using resp [OF k(1), of j] by auto
    moreover have "o' \<noteq> out"
      using k(4,5) i(2) len \<open>j < length seen\<close> seen(1) by (auto simp: nth_eq_iff_index_eq dest: sym)
    ultimately show "op \<in> set (stale out before)"
      using same_op k by (auto simp: in_stale)
  next
    fix op
    assume "op \<in> set (stale out before)"
    then obtain o' where o': "(op, Inr o') \<in> set before" "o' \<noteq> out"
      by (auto simp: in_stale)
    have "op \<in> set rs" using from_rs o'(1) by force
    then obtain k where k: "k < RF" "op = rs ! k"
      using rs by (auto simp: wf_replica_set_def in_set_conv_nth)
    have "Inr o' \<in> set seen"
      using c o'(1) by (force simp: counted_def)
    then obtain j where j: "j < length seen" "seen ! j = Inr o'"
      by (auto simp: in_set_conv_nth)
    then have "replica_responses ?q ! k = Some j" "j \<noteq> i"
      using resp [OF k(1), of j] k o' i(2) by auto
    with k j show "op \<in> set ts"
      using in_ts by blast
  qed
  have dist: "distinct ts"
    unfolding ts_eq
  proof (rule distinct_map_filter [where g = "\<lambda>k. rs ! k"])
    show "inj_on (\<lambda>k. rs ! k) (set [0..<RF])"
      using rs by (auto simp: inj_on_def wf_replica_set_def distinct_map nth_eq_iff_index_eq)
  qed (use f in auto)
  show ?thesis
    by (rule that [OF new, of ts]) (simp_all add: set_ts dist)
qed

end
