(* ===== verification/Coordinator.thy ===== *)
theory Coordinator
  imports Reconciliation Read_Repair
begin

text \<open>
  Model of \<open>crates/replication/src/coordinator/mod.rs\<close>: the replication coordinator. It authorizes the
  client, stamps the operation with the keyspace version, sends it to the replica set of the key (for
  a write during a migration also to the replicas of the keyspace migrated to), answers when a
  majority agrees, and repairs stale replicas after a read. The merged response stream is the
  argument \<open>arrivals\<close>: any interleaving of the replicas' responses, see \<open>merged_responses\<close>. The clock is
  read twice, once for the version and once for the shadowing of writes. Metrics and logging are left
  out.
\<close>

definition coordinator_new_inbound_connection :: "('n, 's) View \<Rightarrow> PeerId \<Rightarrow> PeerId option" where
  "coordinator_new_inbound_connection v peer_id =
     (if \<not> contains_client (view_node_operators v) peer_id then None else Some peer_id)"

definition coordinator_new_storage_api :: "('n, 's) View \<Rightarrow> PeerId \<Rightarrow> StorageError + PeerId" where
  "coordinator_new_storage_api v peer_id =
     (case coordinator_new_inbound_connection v peer_id of Some c \<Rightarrow> Inr c | None \<Rightarrow> Inl error_unauthorized)"

text \<open>The replica sets an operation goes to: the primary one, and for a write the secondary one.\<close>

definition operation_replica_sets ::
  "(u8 list \<Rightarrow> u64) \<Rightarrow> ('n, operator_idx ShardingKeyspace) View \<Rightarrow> datetime \<Rightarrow> Operation
   \<Rightarrow> ('e, 'n NodeOperator list \<times> 'n NodeOperator list option) outcome" where
  "operation_replica_sets hash v now operation =
     and_then (primary_replica_set v (hash (operation_key operation))) (\<lambda>primary.
     and_then (if is_write operation then secondary_replica_set v now (hash (operation_key operation)) else Ok None)
       (\<lambda>secondary. Ok (primary, secondary)))"

text \<open>An operator in both keyspaces is asked once.\<close>

definition is_primary_replica :: "'n NodeOperator list \<Rightarrow> 'n NodeOperator \<Rightarrow> bool" where
  "is_primary_replica primary operator = list_ex (\<lambda>op. operator_id op = operator_id operator) primary"

definition requested_operators :: "'n NodeOperator list \<Rightarrow> 'n NodeOperator list option \<Rightarrow> 'n NodeOperator list" where
  "requested_operators primary secondary =
     primary @ (case secondary of None \<Rightarrow> [] | Some rs \<Rightarrow> filter (\<lambda>op. \<not> is_primary_replica primary op) rs)"

definition coordinator_response ::
  "Operation \<Rightarrow> nat option \<Rightarrow> 'n progress \<Rightarrow> Response" where
  "coordinator_response operation quorum_response_idx p =
     (case (case quorum_response_idx of
              None \<Rightarrow>
                if is_write operation then None
                else map_option Inr (reconcile operation (take RF (pr_responses p))
                       (take RF (replicas_per_response (pr_primary p))))
            | Some idx \<Rightarrow> pr_responses p ! idx) of
        Some response \<Rightarrow> response
      | None \<Rightarrow> Inl (Error_new Internal))"

text \<open>What is sent to the callback, and the repair requests sent when all responses are in.\<close>

definition coordinate ::
  "'n NodeOperator list \<Rightarrow> 'n NodeOperator list option \<Rightarrow> Operation \<Rightarrow> ('n NodeOperator \<times> Response) list
   \<Rightarrow> ('e, Response \<times> ('n NodeOperator \<times> Operation) list) outcome" where
  "coordinate primary secondary operation arrivals =
     and_then (await_quorum (new_progress primary secondary) arrivals) (\<lambda>(idx, p, rest).
     let repair = map_option (fold (\<lambda>(op, r). check_response op r) rest)
                    (ReadRepair_new operation (pr_responses p) (pr_primary p))
     in Ok (coordinator_response operation idx p,
            case repair of None \<Rightarrow> [] | Some rr \<Rightarrow> repair_requests rr))"

definition execute_callback ::
  "(u8 list \<Rightarrow> u64) \<Rightarrow> ('n, operator_idx ShardingKeyspace) View \<Rightarrow> datetime \<Rightarrow> datetime \<Rightarrow> PeerId \<Rightarrow> Operation
   \<Rightarrow> ('n NodeOperator \<times> Response) list
   \<Rightarrow> ('e, Response \<times> ('n NodeOperator \<times> Operation) list) outcome" where
  "execute_callback hash v now_version now_shadow peer_id operation arrivals =
     (let operation = set_keyspace_version (effective_keyspace_version v now_version) operation;
          namespace = operation_namespace operation in
      if \<not> is_authorized_client (view_node_operators v) peer_id (ns_node_operator_id namespace) (ns_idx namespace)
      then Ok (Inl error_unauthorized, [])
      else and_then (operation_replica_sets hash v now_shadow operation) (\<lambda>(primary, secondary).
           coordinate primary secondary operation arrivals))"

text \<open>
  \<open>StorageApi::execute\<close>: \<open>execute_callback\<close> runs in a task of its own on the owned operation; a task that
  panics closes the response channel.
\<close>

definition coordinator_execute ::
  "(u8 list \<Rightarrow> u64) \<Rightarrow> ('n, operator_idx ShardingKeyspace) View \<Rightarrow> datetime \<Rightarrow> datetime \<Rightarrow> PeerId \<Rightarrow> Operation
   \<Rightarrow> ('n NodeOperator \<times> Response) list \<Rightarrow> Response" where
  "coordinator_execute hash v now_version now_shadow peer_id operation arrivals =
     (case execute_callback hash v now_version now_shadow peer_id (OwnedOperation (operation_into_owned operation)) arrivals
             :: (unit, _) outcome of
        Ok (resp, _) \<Rightarrow> resp
      | _ \<Rightarrow> Inl (Error_new Internal))"

text \<open>
  The response stream: every requested operator answers once with the result of \<open>execute\<close>, in any
  order.
\<close>

definition merged_responses ::
  "('n \<Rightarrow> Operation \<Rightarrow> Response) \<Rightarrow> Operation \<Rightarrow> 'n NodeOperator list \<Rightarrow> ('n NodeOperator \<times> Response) list \<Rightarrow> bool" where
  "merged_responses conn operation ops arrivals \<longleftrightarrow>
     mset (map (\<lambda>(op, r). (op, Ok r :: (unit, Response) outcome)) arrivals)
       = mset (map (\<lambda>op. (op, fst (execute conn op operation))) ops)"

section \<open>Retries\<close>

lemma try_nodes_no_transport:
  assumes "try_nodes conn operation nodes res = Inl e" and "error_kind e = Transport" and "nodes \<noteq> []"
  shows "\<forall>n \<in> set nodes. \<exists>e'. conn n operation = Inl e' \<and> error_kind e' = Transport"
  using assms
proof (induction nodes arbitrary: res)
  case (Cons n nodes)
  show ?case
  proof (cases "conn n operation")
    case (Inl e')
    then show ?thesis
      using Cons.IH [of "Inl e'"] Cons.prems by (cases "nodes = []") (auto simp: Let_def split: if_splits)
  next
    case (Inr out)
    with Cons.prems show ?thesis by (simp add: Let_def)
  qed
qed simp

lemma try_nodes_from_node:
  "nodes \<noteq> [] \<Longrightarrow> \<exists>n \<in> set nodes. try_nodes conn operation nodes res = conn n operation"
proof (induction nodes arbitrary: res)
  case (Cons n nodes)
  show ?case
  proof (cases "nodes = []")
    case False
    then obtain n' where "n' \<in> set nodes" "try_nodes conn operation nodes (conn n operation) = conn n' operation"
      using Cons.IH by blast
    then show ?thesis
      by (cases "conn n operation") (auto simp: Let_def)
  qed (auto simp: Let_def split: sum.splits)
qed simp

lemma execute_order:
  assumes "operator_wf op"
  obtains order where "fst (execute conn op operation) = (Ok (try_nodes conn operation order (Inl error_internal)) :: ('e, _) outcome)"
    and "order \<noteq> []" and "set order = set (operator_nodes op)"
proof -
  let ?k = "unat (operator_counter op) mod length (operator_nodes op)"
  have ne: "operator_nodes op \<noteq> []"
    using assms by (auto simp: operator_defs)
  have order: "set (drop ?k (operator_nodes op) @ take ?k (operator_nodes op)) = set (operator_nodes op)"
    by (metis append_take_drop_id set_append sup_commute)
  show ?thesis
  proof (rule that)
    show "fst (execute conn op operation)
        = (Ok (try_nodes conn operation (drop ?k (operator_nodes op) @ take ?k (operator_nodes op)) (Inl error_internal)) :: ('e, _) outcome)"
      using ne by (simp add: execute_def nodes_lb_iter_def fetch_add_1_def Let_def)
    show "drop ?k (operator_nodes op) @ take ?k (operator_nodes op) \<noteq> []"
      using ne order by (metis set_empty)
  qed (rule order)
qed

text \<open>
  C17. A request to an operator fails with a transport error only if all of its nodes do: on an
  operator with at least two nodes the retry loop does not panic, its result is the answer of one of
  the operator's nodes, and a transport error as result means that every node answered with one.
\<close>

theorem execute_retries_all_nodes:
  assumes "operator_wf op"
  shows "\<exists>r. fst (execute conn op operation) = (Ok r :: ('e, _) outcome)
    \<and> (\<exists>n \<in> set (operator_nodes op). r = conn n operation)
    \<and> ((\<exists>e. r = Inl e \<and> error_kind e = Transport)
        = (\<forall>n \<in> set (operator_nodes op). \<exists>e. conn n operation = Inl e \<and> error_kind e = Transport))"
proof -
  obtain order where run: "fst (execute conn op operation) = (Ok (try_nodes conn operation order (Inl error_internal)) :: ('e, _) outcome)"
    and order: "order \<noteq> []" "set order = set (operator_nodes op)"
    by (rule execute_order [OF assms])
  let ?r = "try_nodes conn operation order (Inl error_internal)"
  have from_node: "\<exists>n \<in> set (operator_nodes op). ?r = conn n operation"
    using try_nodes_from_node [OF order(1)] order(2) by metis
  moreover have "\<exists>e. conn n operation = Inl e \<and> error_kind e = Transport"
    if "?r = Inl e" "error_kind e = Transport" "n \<in> set (operator_nodes op)" for n e
    using try_nodes_no_transport [OF that(1,2) order(1)] that(3) order(2) by blast
  ultimately show ?thesis
    using run by metis
qed

theorem execute_retries_all_nodes_witness:
  "operator_wf (sample_operator [1, 2, 3])
   \<and> (\<exists>r. fst (execute (\<lambda>n _. if n = 3 then Inr OutNone else Inl (Error_new Transport)) (sample_operator [1, 2, 3])
              (OwnedOperation (OpGet \<lparr>get_namespace = 0, get_key = [], get_keyspace_version = None\<rparr>)))
            = (Ok r :: (unit, _) outcome)
        \<and> \<not> (\<exists>e. r = Inl e \<and> error_kind e = Transport))"
proof -
  let ?conn = "\<lambda>n _. if n = 3 then Inr OutNone else Inl (Error_new Transport)"
  let ?get = "OwnedOperation (OpGet \<lparr>get_namespace = 0, get_key = [], get_keyspace_version = None\<rparr>)"
  have wf: "operator_wf (sample_operator [1, 2, 3])"
    by (simp add: operator_defs sample_operator_def)
  have nodes: "3 \<in> set (operator_nodes (sample_operator [1, 2, 3]))"
    by (simp add: sample_operator_def)
  have "\<not> (\<forall>n \<in> set (operator_nodes (sample_operator [1, 2, 3])).
      \<exists>e. ?conn n ?get = Inl e \<and> error_kind e = Transport)"
    using nodes by (intro notI) (drule bspec, assumption, simp)
  then show ?thesis
    using wf execute_retries_all_nodes [where ?'e = unit, OF wf, of ?conn ?get] by metis
qed

section \<open>Replica sets and response streams\<close>

lemma distinct_map_filterI: "distinct (map f xs) \<Longrightarrow> distinct (map f (filter P xs))"
  by (induction xs) auto

lemma resolve_replica_set_operators:
  "resolve_replica_set ops rs = Ok xs \<Longrightarrow> x \<in> set xs \<Longrightarrow> \<exists>i. get_by_idx ops i = Some x"
  by (induction rs arbitrary: xs) (auto simp: resolve_replica_set_def outcome_simps unwrap_def split: option.splits)

lemma keyspace_replica_set:
  assumes "operators_wf ops" and "keyspace_resolves (shards_sound h) ops ks"
  obtains rs xs where "Keyspace_shard ks key = (Ok rs :: ('e, _) outcome)"
    and "resolve_replica_set ops rs = (Ok xs :: ('e, _) outcome)"
    and "wf_replica_set xs" and "\<forall>op \<in> set xs. operator_wf op"
proof -
  have "nops_wf ops" using assms(1) by (simp add: operators_wf_def)
  then obtain rs xs where xs: "Keyspace_shard ks key = (Ok rs :: ('e, _) outcome)"
    "resolve_replica_set ops rs = (Ok xs :: ('e, _) outcome)" "length xs = 5" "distinct (map operator_id xs)"
    using keyspace_resolves_replica_set [OF _ assms(2)] by blast
  moreover have "\<forall>op \<in> set xs. operator_wf op"
    using resolve_replica_set_operators [OF xs(2)] assms(1) by (auto simp: operators_wf_def)
  ultimately show ?thesis
    using that by (simp add: wf_replica_set_def rf_simps)
qed

lemma operation_replica_sets_wf:
  assumes "view_wf (shards_sound h) v"
  obtains primary secondary where "operation_replica_sets hash v now operation = (Ok (primary, secondary) :: ('e, _) outcome)"
    and "wf_replica_sets primary secondary" and "\<not> is_write operation \<longrightarrow> secondary = None"
    and "\<forall>op \<in> set (requested_operators primary secondary). operator_wf op"
proof -
  let ?key = "hash (operation_key operation)"
  have ops: "operators_wf (view_node_operators v)" and ks: "keyspace_resolves (shards_sound h) (view_node_operators v) (view_keyspace v)"
    using assms by (simp_all add: view_wf_def)
  from ops ks obtain primary where p: "primary_replica_set v ?key = (Ok primary :: ('e, _) outcome)"
    "wf_replica_set primary" "\<forall>op \<in> set primary. operator_wf op"
    by (rule keyspace_replica_set [where key = ?key and ?'e = 'e]) (simp add: primary_replica_set_def)
  have "\<exists>secondary. secondary_replica_set v now ?key = (Ok secondary :: ('e, _) outcome)
      \<and> (\<forall>rs. secondary = Some rs \<longrightarrow> wf_replica_set rs \<and> (\<forall>op \<in> set rs. operator_wf op))"
  proof (cases "is_secondary_keyspace_shadowing_on v now \<and> migration_keyspace (view_migration v) \<noteq> None")
    case True
    then obtain ks' where ks': "migration_keyspace (view_migration v) = Some ks'"
      by blast
    then have "keyspace_resolves (shards_sound h) (view_node_operators v) ks'"
      using assms by (simp add: view_wf_def)
    with ops obtain rs xs where "Keyspace_shard ks' ?key = (Ok rs :: ('e, _) outcome)"
      "resolve_replica_set (view_node_operators v) rs = (Ok xs :: ('e, _) outcome)"
      "wf_replica_set xs" "\<forall>op \<in> set xs. operator_wf op"
      by (rule keyspace_replica_set)
    with True ks' show ?thesis
      by (simp add: secondary_replica_set_def)
  qed (auto simp: secondary_replica_set_def)
  then obtain secondary where s: "secondary_replica_set v now ?key = (Ok secondary :: ('e, _) outcome)"
    "\<forall>rs. secondary = Some rs \<longrightarrow> wf_replica_set rs \<and> (\<forall>op \<in> set rs. operator_wf op)"
    by blast
  show ?thesis
  proof (rule that [of primary "if is_write operation then secondary else None"])
    show "operation_replica_sets hash v now operation
        = (Ok (primary, if is_write operation then secondary else None) :: ('e, _) outcome)"
      using p s by (simp add: operation_replica_sets_def)
  qed (use p s in \<open>auto simp: wf_replica_sets_def requested_operators_def split: option.splits if_splits\<close>)
qed

lemma operation_replica_sets_OkD:
  assumes "view_wf (shards_sound h) v" and "operation_replica_sets hash v now operation = (Ok (primary, secondary) :: ('e, _) outcome)"
  shows "wf_replica_sets primary secondary" and "\<not> is_write operation \<Longrightarrow> secondary = None"
    and "\<forall>op \<in> set (requested_operators primary secondary). operator_wf op"
  using operation_replica_sets_wf [where ?'e = 'e, OF assms(1), of hash now operation] assms(2) by auto

lemma requested_operators_once:
  assumes "wf_replica_sets primary secondary"
  shows "distinct (map operator_id (requested_operators primary secondary))"
    and "length (requested_operators primary secondary) \<le> RF * 2"
proof -
  have p: "wf_replica_set primary" using assms by (simp add: wf_replica_sets_def)
  show "distinct (map operator_id (requested_operators primary secondary))"
  proof (cases secondary)
    case (Some rs)
    then have "distinct (map operator_id rs)"
      using assms by (simp add: wf_replica_sets_def wf_replica_set_def)
    then have "distinct (map operator_id (filter (\<lambda>op. \<not> is_primary_replica primary op) rs))"
      by (rule distinct_map_filterI)
    with p Some show ?thesis
      by (auto simp: requested_operators_def wf_replica_set_def is_primary_replica_def list_ex_iff)
  qed (use p in \<open>simp add: requested_operators_def wf_replica_set_def\<close>)
  have "length (filter f rs) \<le> RF" if "secondary = Some rs" for f rs
    using assms that length_filter_le [of f rs] by (simp add: wf_replica_sets_def wf_replica_set_def)
  with p show "length (requested_operators primary secondary) \<le> RF * 2"
    by (cases secondary) (simp_all add: requested_operators_def wf_replica_set_def)
qed

lemma merged_responses_operators: "merged_responses conn operation ops arrivals \<Longrightarrow> mset (map fst arrivals) = mset ops"
  unfolding merged_responses_def
  by (drule arg_cong [where f = "image_mset fst"]) (simp add: image_mset.compositionality comp_def case_prod_unfold)

lemma merged_responses_once:
  assumes "merged_responses conn operation (requested_operators primary secondary) arrivals"
    and "wf_replica_sets primary secondary"
  shows "once_each arrivals" and "length arrivals \<le> RF * 2"
    and "fst ` set arrivals = set (requested_operators primary secondary)"
proof -
  note ops = merged_responses_operators [OF assms(1)]
  have "mset (map (\<lambda>(op, _). operator_id op) arrivals) = image_mset operator_id (mset (map fst arrivals))"
    by (simp add: image_mset.compositionality comp_def case_prod_unfold)
  also have "\<dots> = mset (map operator_id (requested_operators primary secondary))"
    by (simp only: mset_map [symmetric] ops)
  finally show "once_each arrivals"
    using requested_operators_once(1) [OF assms(2)] unfolding once_each_def by (rule mset_eq_imp_distinct_iff [THEN iffD2])
  show "length arrivals \<le> RF * 2"
    using requested_operators_once(2) [OF assms(2)] mset_eq_length [OF ops] by simp
  show "fst ` set arrivals = set (requested_operators primary secondary)"
    using mset_eq_setD [OF ops] by simp
qed

section \<open>The answer\<close>

lemma is_repairable_read: "is_repairable operation \<Longrightarrow> \<not> is_write operation"
proof -
  have "owned_is_repairable o' \<Longrightarrow> \<not> owned_is_write o'" for o' by (cases o') simp_all
  from this [of "operation_into_owned operation"] show "is_repairable operation \<Longrightarrow> \<not> is_write operation"
    by (cases operation) simp_all
qed

lemma reconcile_repairable: "is_repairable operation \<Longrightarrow> reconcile operation responses weights = None"
proof -
  have "owned_is_repairable o' \<Longrightarrow> reconcile_owned o' responses weights = None" for o' by (cases o') simp_all
  then show "is_repairable operation \<Longrightarrow> reconcile operation responses weights = None" by (cases operation) simp_all
qed

lemma is_repairable_set_version [simp]: "is_repairable (set_keyspace_version ver operation) = is_repairable operation"
proof -
  have "owned_is_repairable (owned_set_keyspace_version ver o') = owned_is_repairable o'" for o' by (cases o') simp_all
  then show ?thesis by (cases operation) simp_all
qed

lemma coordinate_spec:
  assumes "wf_replica_sets primary secondary" and "once_each arrivals" and "length arrivals \<le> RF * 2"
  obtains resp repairs where "coordinate primary secondary operation arrivals = (Ok (resp, repairs) :: ('e, _) outcome)"
    and "\<forall>r. agreed primary secondary arrivals r \<longrightarrow> resp = r"
    and "is_write operation \<or> is_repairable operation \<longrightarrow> (\<forall>r. \<not> agreed primary secondary arrivals r) \<longrightarrow> resp = Inl error_internal"
    and "is_write operation \<longrightarrow> repairs = []"
proof -
  from assms obtain res p rest pre seen where
    run: "await_quorum (new_progress primary secondary) arrivals = (Ok (res, p, rest) :: ('e, _) outcome)"
    and arr: "arrivals = pre @ rest" and c: "counted primary secondary pre seen p"
    and iff: "\<forall>r. agreed primary secondary arrivals r \<longleftrightarrow> (\<exists>i < length seen. res = Some i \<and> seen ! i = r)"
    and len: "\<forall>i. res = Some i \<longrightarrow> i < length seen \<and> agreed primary secondary pre (seen ! i)"
    and rest: "res = None \<longrightarrow> secondary = None \<longrightarrow> rest = []"
    by (rule await_quorum_spec)
  have buf: "pr_responses p = buffer_of seen"
    using c by (simp add: counted_def)
  have no_repair: "is_write operation \<Longrightarrow> ReadRepair_new operation (pr_responses p) (pr_primary p) = None"
    using is_repairable_read by (auto simp: ReadRepair_new_def)
  show ?thesis
  proof (rule that)
    show "coordinate primary secondary operation arrivals
        = (Ok (coordinator_response operation res p,
             case map_option (fold (\<lambda>(op, r). check_response op r) rest)
                    (ReadRepair_new operation (pr_responses p) (pr_primary p)) of
               None \<Rightarrow> [] | Some rr \<Rightarrow> repair_requests rr) :: ('e, _) outcome)"
      by (simp add: coordinate_def run)
    show "\<forall>r. agreed primary secondary arrivals r \<longrightarrow> coordinator_response operation res p = r"
      using iff by (auto simp: coordinator_response_def buf nth_buffer_of)
    show "is_write operation \<or> is_repairable operation \<longrightarrow> (\<forall>r. \<not> agreed primary secondary arrivals r)
        \<longrightarrow> coordinator_response operation res p = Inl error_internal"
    proof (intro impI)
      assume op: "is_write operation \<or> is_repairable operation" and "\<forall>r. \<not> agreed primary secondary arrivals r"
      then have "res = None"
        using iff len by (metis option.exhaust)
      with op show "coordinator_response operation res p = Inl error_internal"
        by (auto simp: coordinator_response_def error_internal_def reconcile_repairable)
    qed
  qed (simp add: no_repair)
qed

text \<open>The versioned operation that goes to the replicas.\<close>

definition versioned :: "('n, 's) View \<Rightarrow> datetime \<Rightarrow> Operation \<Rightarrow> Operation" where
  "versioned v now operation = set_keyspace_version (effective_keyspace_version v now) operation"

definition authorized_operation :: "('n, 's) View \<Rightarrow> PeerId \<Rightarrow> Operation \<Rightarrow> bool" where
  "authorized_operation v peer_id operation =
     is_authorized_client (view_node_operators v) peer_id
       (ns_node_operator_id (operation_namespace operation)) (ns_idx (operation_namespace operation))"

lemma execute_callback_eq:
  "execute_callback hash v now_version now_shadow peer_id operation arrivals =
     (if \<not> authorized_operation v peer_id operation then Ok (Inl error_unauthorized, [])
      else and_then (operation_replica_sets hash v now_shadow operation) (\<lambda>(primary, secondary).
           coordinate primary secondary (versioned v now_version operation) arrivals))"
  by (simp add: execute_callback_def authorized_operation_def versioned_def Let_def operation_replica_sets_def)

lemma agreed_unique:
  "wf_replica_sets primary secondary \<Longrightarrow> once_each arrivals \<Longrightarrow>
   agreed primary secondary arrivals r \<Longrightarrow> agreed primary secondary arrivals r' \<Longrightarrow> r = r'"
  using majority_unique by (auto simp: agreed_def wf_replica_sets_def)

text \<open>The answer to a write, or to a read of a single record, in terms of the votes.\<close>

lemma execute_callback_answer:
  assumes v: "view_wf (shards_sound h) v" and auth: "authorized_operation v peer_id operation"
    and op: "is_write operation \<or> is_repairable operation"
    and sets: "operation_replica_sets hash v now_shadow operation = (Ok (primary, secondary) :: ('e, _) outcome)"
    and arr: "merged_responses conn (versioned v now_version operation) (requested_operators primary secondary) arrivals"
  obtains resp repairs where
    "execute_callback hash v now_version now_shadow peer_id operation arrivals = (Ok (resp, repairs) :: ('e, _) outcome)"
    and "\<forall>out. resp = Inr out \<longleftrightarrow> agreed primary secondary arrivals (Inr out)"
    and "(\<forall>r. \<not> agreed primary secondary arrivals r) \<longrightarrow> resp = Inl error_internal"
    and "is_write operation \<longrightarrow> repairs = []"
proof -
  note wf = operation_replica_sets_OkD(1) [OF v sets]
  note once = merged_responses_once [OF arr wf]
  from wf once(1,2) obtain resp repairs where
    run: "coordinate primary secondary (versioned v now_version operation) arrivals = (Ok (resp, repairs) :: ('e, _) outcome)"
    and ok: "\<forall>r. agreed primary secondary arrivals r \<longrightarrow> resp = r"
    and err: "is_write (versioned v now_version operation) \<or> is_repairable (versioned v now_version operation)
      \<longrightarrow> (\<forall>r. \<not> agreed primary secondary arrivals r) \<longrightarrow> resp = Inl error_internal"
    and reps: "is_write (versioned v now_version operation) \<longrightarrow> repairs = []"
    by (rule coordinate_spec)
  have err: "(\<forall>r. \<not> agreed primary secondary arrivals r) \<longrightarrow> resp = Inl error_internal"
    using err op by (simp add: versioned_def)
  then have "\<forall>out. resp = Inr out \<longleftrightarrow> agreed primary secondary arrivals (Inr out)"
    using ok by (metis sum.distinct(1))
  moreover have "execute_callback hash v now_version now_shadow peer_id operation arrivals = (Ok (resp, repairs) :: ('e, _) outcome)"
    by (simp add: execute_callback_eq auth sets run)
  moreover have "is_write operation \<longrightarrow> repairs = []"
    using reps by (simp add: versioned_def)
  ultimately show ?thesis
    using that err by blast
qed



section \<open>Reads after writes\<close>

lemma majorities_meet:
  assumes "wf_replica_set rs" and "3 \<le> votes rs as r" and "3 \<le> votes rs bs r'"
  shows "voters rs as r \<inter> voters rs bs r' \<noteq> {}"
proof
  assume "voters rs as r \<inter> voters rs bs r' = {}"
  then have "votes rs as r + votes rs bs r' = card (voters rs as r \<union> voters rs bs r')"
    by (simp add: votes_def card_Un_disjoint)
  also have "\<dots> \<le> card (operator_id ` set rs)"
    by (rule card_mono) (auto simp: voters_def)
  also have "\<dots> \<le> 5"
    using card_image_le [of "set rs" operator_id] card_length [of rs] assms(1) by (simp add: wf_replica_set_def rf_simps)
  finally show False
    using assms(2,3) by simp
qed


section \<open>Read repair\<close>

lemma stale_append: "stale out (xs @ ys) = stale out xs @ stale out ys"
  by (simp add: stale_def)

lemma repair_operation_write:
  assumes "is_repairable operation"
  shows "\<exists>w. repair_operation (set_keyspace_version ver operation) (OutRecord (Some rec)) = Some w \<and> is_write w
    \<and> operation_namespace w = operation_namespace operation \<and> operation_key w = operation_key operation
    \<and> operation_keyspace_version w = Some ver"
proof -
  have "\<exists>w. repair_owned (owned_set_keyspace_version ver o') (OutRecord (Some rec)) = Some w \<and> is_write w
      \<and> operation_namespace w = owned_namespace o' \<and> operation_key w = owned_key o' \<and> operation_keyspace_version w = Some ver"
    if "owned_is_repairable o'" for o'
    using that by (cases o') simp_all
  from this [of "operation_into_owned operation"] assms show ?thesis by (cases operation) simp_all
qed

text \<open>A quorum leaves at most two replicas to repair.\<close>

lemma stale_at_most_two:
  assumes rs: "wf_replica_set rs" and from_rs: "fst ` set arrivals \<subseteq> set rs" and once: "once_each arrivals"
    and q: "MAJORITY_QUORUM_THRESHOLD \<le> votes rs arrivals (Inr out)"
    and ts: "distinct ts" "set ts \<subseteq> set (stale out arrivals)"
  shows "length ts \<le> MAX_TARGETS"
proof -
  have inj: "inj_on operator_id (set rs)" and card_rs: "card (operator_id ` set rs) = RF"
    using rs distinct_card [of "map operator_id rs"] by (auto simp: wf_replica_set_def distinct_map)
  have in_rs: "set ts \<subseteq> set rs"
    using ts(2) from_rs by (force simp: in_stale)
  have card_ts: "card (operator_id ` set ts) = length ts"
    using distinct_card [OF ts(1)] card_image [OF inj_on_subset [OF inj in_rs]] by simp
  have "operator_id ` set ts \<inter> voters rs arrivals (Inr out) = {}"
    using ts(2) once by (fastforce simp: in_stale voters_def once_each_def distinct_map inj_on_def)
  then have "length ts + votes rs arrivals (Inr out)
      = card (operator_id ` set ts \<union> voters rs arrivals (Inr out))"
    by (simp add: votes_def card_Un_disjoint card_ts)
  also have "\<dots> \<le> RF"
    unfolding card_rs [symmetric] by (rule card_mono) (use in_rs in \<open>auto simp: voters_def\<close>)
  finally show ?thesis
    using q by (simp add: rf_simps)
qed

lemma coordinate_repairs:
  fixes rs :: "'n NodeOperator list"
  assumes rs: "wf_replica_set rs" and once: "once_each arrivals" and ops: "fst ` set arrivals \<subseteq> set rs"
    and len: "length arrivals \<le> RF * 2"
    and op: "is_repairable operation" and q: "agreed rs None arrivals (Inr out)"
  obtains ts where "coordinate rs None operation arrivals
      = (Ok (Inr out, case repair_operation operation out of None \<Rightarrow> [] | Some w \<Rightarrow> map (\<lambda>t. (t, w)) ts) :: ('e, _) outcome)"
    and "distinct ts" and "set ts = set (stale out arrivals)"
proof -
  have wf: "wf_replica_sets rs None"
    using rs by (simp add: wf_replica_sets_def)
  from wf once len obtain res p rest pre seen where
    run: "await_quorum (new_progress rs None) arrivals = (Ok (res, p, rest) :: ('e, _) outcome)"
    and arr: "arrivals = pre @ rest" and c: "counted rs None pre seen p"
    and iff: "\<forall>r. agreed rs None arrivals r \<longleftrightarrow> (\<exists>i < length seen. res = Some i \<and> seen ! i = r)"
    and some: "\<forall>i. res = Some i \<longrightarrow> i < length seen \<and> agreed rs None pre (seen ! i)"
    and rest: "res = None \<longrightarrow> (None :: 'n NodeOperator list option) = None \<longrightarrow> rest = []"
    by (rule await_quorum_spec)
  obtain i where i: "i < length seen" "res = Some i" "seen ! i = Inr out"
    using iff q by blast
  have idx: "response_idx (pr_primary p) = Some i"
    using c some i by (auto simp: counted_def tally_response_idx agreed_def)
  have pre: "fst ` set pre \<subseteq> set rs"
    using ops arr by auto
  obtain rr ts where rr: "ReadRepair_new operation (pr_responses p) (pr_primary p) = Some rr"
    "rr_operation rr = operation" "rr_output rr = out" "rr_targets rr = packed ts"
    and ts: "distinct ts" "set ts = set (stale out pre)"
    by (rule ReadRepair_new_counted [OF c rs idx i(3) pre op])
  let ?ts = "ts @ stale out rest"
  have "distinct (map fst arrivals)"
    using once by (auto simp: once_each_def distinct_map inj_on_def case_prod_unfold)
  then have dist: "distinct ?ts"
    using ts arr by (auto simp: stale_def distinct_map inj_on_def image_iff split: sum.splits) 
  have set_ts: "set ?ts = set (stale out arrivals)"
    using ts(2) arr by (simp add: stale_append)
  have "length ?ts \<le> MAX_TARGETS"
    using stale_at_most_two [OF rs ops once _ dist equalityD1 [OF set_ts]] q by (simp add: agreed_def)
  then have "repair_requests (fold (\<lambda>(op, r). check_response op r) rest rr)
      = (case repair_operation operation out of None \<Rightarrow> [] | Some w \<Rightarrow> map (\<lambda>t. (t, w)) ?ts)"
    using rr by (simp add: fold_check_response repair_requests_def map_filter_packed split: option.split)
  moreover have "coordinator_response operation res p = Inr out"
    using c i by (simp add: coordinator_response_def counted_def nth_buffer_of)
  ultimately have "coordinate rs None operation arrivals
      = (Ok (Inr out, case repair_operation operation out of None \<Rightarrow> [] | Some w \<Rightarrow> map (\<lambda>t. (t, w)) ?ts) :: ('e, _) outcome)"
    by (simp add: coordinate_def run rr(1))
  with dist set_ts show ?thesis
    by (intro that)
qed


section \<open>Concrete runs\<close>

lemma execute_uniform:
  assumes "operator_wf op"
  shows "fst (execute (\<lambda>_ _. r) op operation) = (Ok r :: ('e, _) outcome)"
proof -
  obtain order where "fst (execute (\<lambda>_ _. r) op operation)
      = (Ok (try_nodes (\<lambda>_ _. r) operation order (Inl error_internal)) :: ('e, _) outcome)" "order \<noteq> []"
    "set order = set (operator_nodes op)"
    by (rule execute_order [OF assms])
  then show ?thesis
    using try_nodes_from_node [of order "\<lambda>_ _. r" operation] by simp
qed

lemma merged_uniform:
  "\<forall>op \<in> set ops. operator_wf op \<Longrightarrow> merged_responses (\<lambda>_ _. r) operation ops (map (\<lambda>op. (op, r)) ops)"
  unfolding merged_responses_def by (auto simp: execute_uniform comp_def intro!: image_mset_cong)

lemma votes_uniform:
  assumes "wf_replica_set rs" and "set rs \<subseteq> set ops"
  shows "votes rs (map (\<lambda>op. (op, r)) ops) r = 5"
proof -
  have "voters rs (map (\<lambda>op. (op, r)) ops) r = operator_id ` set rs"
    using assms(2) by (auto simp: voters_def image_iff)
  then show ?thesis
    using assms(1) distinct_card [of "map operator_id rs"] by (simp add: votes_def wf_replica_set_def rf_simps)
qed

definition sample_record :: Record where
  "sample_record = \<lparr>record_value = [2], record_expiration = \<lparr>unix_timestamp_secs = 9\<rparr>,
     record_version = \<lparr>unix_timestamp_micros = 8\<rparr>\<rparr>"

definition sample_set :: Operation where
  "sample_set = OwnedOperation (OpSet \<lparr>set_namespace = 0, set_key = [1], set_record = sample_record,
     set_keyspace_ver = None\<rparr>)"

definition sample_get :: Operation where
  "sample_get = OwnedOperation (OpGet \<lparr>get_namespace = 0, get_key = [1], get_keyspace_version = None\<rparr>)"

lemma sample_authorized:
  "authorized_operation (sample_view ks st) [9] sample_set" "authorized_operation (sample_view ks st) [9] sample_get"
  "\<not> authorized_operation (sample_view ks st) [8] sample_get"
proof -
  have "ns_node_operator_id 0 = 0" "ns_idx 0 = 0"
    by (simp_all add: ns_node_operator_id_def ns_idx_def ns_as_bytes_def to_be_bytes_def from_be_bytes_def upt_rec)
  moreover have "get_operator sample_operators 0 = Some ((sample_operator [1, 2])\<lparr>operator_id := 0,
         operator_clients := [\<lparr>client_peer_id = [9], authorized_namespaces = [0]\<rparr>]\<rparr>)"
    by (simp add: get_operator_def get_idx_def get_by_idx_def list_get_def sample_operators_slots)
  ultimately show "authorized_operation (sample_view ks st) [9] sample_set" "authorized_operation (sample_view ks st) [9] sample_get"
    "\<not> authorized_operation (sample_view ks st) [8] sample_get"
    by (simp_all add: authorized_operation_def sample_set_def sample_get_def sample_view_def is_authorized_client_def)
qed

lemma sample_run:
  obtains v :: "(nat, operator_idx ShardingKeyspace) View" and rs where "view_wf (shards_sound sample_hash) v"
    and "authorized_operation v [9] sample_set" and "authorized_operation v [9] sample_get"
    and "\<not> authorized_operation v [8] sample_get"
    and "operation_replica_sets (\<lambda>_. 0) v 0 sample_set = (Ok (rs, None) :: (unit, _) outcome)"
    and "operation_replica_sets (\<lambda>_. 0) v 0 sample_get = (Ok (rs, None) :: (unit, _) outcome)"
    and "\<And>r operation. merged_responses (\<lambda>_ _. r) operation (requested_operators rs None) (map (\<lambda>op. (op, r)) rs)"
    and "\<And>r. votes rs (map (\<lambda>op. (op, r)) rs) r = 5"
proof -
  obtain ks where ks: "ks_operators ks = {0, 1, 2, 3, 4}" "shards_sound sample_hash ks"
    by (rule sample_shards)
  let ?v = "sample_view ks StateCompleted :: (nat, _) View"
  note wf = sample_view_wf [OF ks]
  obtain rs sec where get: "operation_replica_sets (\<lambda>_. 0) ?v 0 sample_get = (Ok (rs, sec) :: (unit, _) outcome)"
    and rs: "wf_replica_sets rs sec" and none: "\<not> is_write sample_get \<longrightarrow> sec = None"
    and ops: "\<forall>op \<in> set (requested_operators rs sec). operator_wf op"
    by (rule operation_replica_sets_wf [OF wf, where hash = "\<lambda>_. 0" and now = 0 and operation = sample_get and ?'e = unit])
  have sec: "sec = None"
    using none by (simp add: sample_get_def)
  have "secondary_replica_set ?v 0 0 = (Ok None :: (unit, _) outcome)"
    by (simp add: secondary_replica_set_def is_secondary_keyspace_shadowing_on_def sample_view_def migration_keyspace_def)
  then have set: "operation_replica_sets (\<lambda>_. 0) ?v 0 sample_set = (Ok (rs, None) :: (unit, _) outcome)"
    using get by (auto simp: operation_replica_sets_def sample_set_def sample_get_def outcome_simps)
  have req: "requested_operators rs None = rs"
    by (simp add: requested_operators_def)
  show ?thesis
  proof (rule that)
    show "merged_responses (\<lambda>_ _. r) operation (requested_operators rs None) (map (\<lambda>op. (op, r)) rs)" for r operation
      using merged_uniform [of rs r operation] ops sec by (simp add: req)
    show "votes rs (map (\<lambda>op. (op, r)) rs) r = 5" for r
      using votes_uniform [of rs rs r] rs by (simp add: wf_replica_sets_def)
  qed (use wf get set sec sample_authorized in simp_all)
qed





end
