(* ===== verification/Replica.thy ===== *)
theory Replica
  imports Coordinator
begin

text \<open>
  Model of \<open>crates/replication/src/replica/mod.rs\<close>: a replica admits the nodes of the cluster, checks the
  keyspace version of every operation against its own view and clock, and passes the operation to its
  database. The database and the printing of its errors are parameters. The last section puts
  coordinator and replicas together.
\<close>

record 'i database =
  db_execute :: "Operation \<Rightarrow> Response"
  db_read_data :: "u64 \<times> u64 \<Rightarrow> keyspace_version \<Rightarrow> StorageError + 'i"

definition replica_new_inbound_connection :: "('n \<Rightarrow> PeerId) \<Rightarrow> ('n, 's) View \<Rightarrow> PeerId \<Rightarrow> PeerId option" where
  "replica_new_inbound_connection peer_of v peer_id =
     (if \<not> contains_node peer_of (view_node_operators v) peer_id then None else Some peer_id)"

definition replica_new_storage_api :: "('n \<Rightarrow> PeerId) \<Rightarrow> ('n, 's) View \<Rightarrow> PeerId \<Rightarrow> StorageError + PeerId" where
  "replica_new_storage_api peer_of v peer_id =
     (case replica_new_inbound_connection peer_of v peer_id of Some c \<Rightarrow> Inr c | None \<Rightarrow> Inl error_unauthorized)"

definition replica_execute_ref ::
  "(StorageError \<Rightarrow> string) \<Rightarrow> ('n, 's) View \<Rightarrow> datetime \<Rightarrow> 'i database \<Rightarrow> Operation \<Rightarrow> Response" where
  "replica_execute_ref show_error v now db operation =
     (if (case operation_keyspace_version operation of
            None \<Rightarrow> False | Some version \<Rightarrow> validate_storage_operation v now version)
      then (case db_execute db operation of
              Inr out \<Rightarrow> Inr out
            | Inl err \<Rightarrow> Inl (with_message (''Database error: '' @ show_error err) (Error_new Internal)))
      else Inl error_keyspace_version_mismatch)"

definition replica_read_data ::
  "('n, 's) View \<Rightarrow> datetime \<Rightarrow> 'i database \<Rightarrow> u64 \<times> u64 \<Rightarrow> keyspace_version \<Rightarrow> StorageError + 'i" where
  "replica_read_data v now db range' keyspace_version =
     (if \<not> validate_data_pull v now keyspace_version then Inl error_keyspace_version_mismatch
      else db_read_data db range' keyspace_version)"

section \<open>Coordinator and replicas together\<close>

lemma replica_accepts_versioned:
  assumes "now' \<le> now + int (clock_skew (view_settings v))" and "now \<le> now' + int (clock_skew (view_settings v))"
    and "db_execute db (versioned v now operation) = Inr out"
  shows "replica_execute_ref show_error v now' db (versioned v now operation) = Inr out"
  using effective_version_accepted [OF assms(1,2)] assms(3) by (simp add: replica_execute_ref_def versioned_def)

text \<open>
  An operator whose nodes all run a replica with the view \<open>v\<close>, a clock within the skew and a database
  that answers \<open>out\<close>.
\<close>

definition healthy ::
  "(StorageError \<Rightarrow> string) \<Rightarrow> ('n, 's) View \<Rightarrow> datetime \<Rightarrow> ('n \<Rightarrow> Operation \<Rightarrow> Response) \<Rightarrow> ('n \<Rightarrow> datetime) \<Rightarrow> ('n \<Rightarrow> 'i database)
   \<Rightarrow> Operation \<Rightarrow> Output \<Rightarrow> 'n NodeOperator \<Rightarrow> bool" where
  "healthy show_error v now conn clock db operation out op \<longleftrightarrow>
     (\<forall>n \<in> set (operator_nodes op).
        clock n \<le> now + int (clock_skew (view_settings v)) \<and> now \<le> clock n + int (clock_skew (view_settings v))
        \<and> conn n (versioned v now operation) = replica_execute_ref show_error v (clock n) (db n) (versioned v now operation)
        \<and> db_execute (db n) (versioned v now operation) = Inr out)"

lemma execute_healthy:
  assumes "operator_wf op" and "healthy show_error v now conn clock db operation out op"
  shows "fst (execute conn op (versioned v now operation)) = (Ok (Inr out) :: ('e, _) outcome)"
proof -
  let ?op = "versioned v now operation"
  obtain order where run: "fst (execute conn op ?op) = (Ok (try_nodes conn ?op order (Inl error_internal)) :: ('e, _) outcome)"
    and order: "order \<noteq> []" "set order = set (operator_nodes op)"
    by (rule execute_order [OF assms(1)])
  have "conn n ?op = Inr out" if "n \<in> set (operator_nodes op)" for n
    using assms(2) that replica_accepts_versioned [of "clock n" now v "db n" operation out show_error]
    by (simp add: healthy_def)
  then show ?thesis
    using run try_nodes_from_node [OF order(1), of conn ?op] order(2) by auto
qed

lemma merged_healthy:
  assumes "merged_responses conn (versioned v now operation) ops arrivals" and "op \<in> set ops" and "operator_wf op"
    and "healthy show_error v now conn clock db operation out op"
  shows "(op, Inr out) \<in> set arrivals"
proof -
  have "(op, Ok (Inr out)) \<in> set (map (\<lambda>op. (op, fst (execute conn op (versioned v now operation)) :: (unit, Response) outcome)) ops)"
    using assms(2) execute_healthy [where ?'e = unit, OF assms(3,4)] by force
  then have "(op, Ok (Inr out) :: (unit, Response) outcome) \<in> set (map (\<lambda>(op, r). (op, Ok r)) arrivals)"
    using mset_eq_setD [OF assms(1) [unfolded merged_responses_def]] by blast
  then show ?thesis by auto
qed

lemma votes_healthy:
  assumes "wf_replica_set rs" and "3 \<le> card {op \<in> set rs. H op}"
    and "\<And>op. op \<in> set rs \<Longrightarrow> H op \<Longrightarrow> \<exists>op'. (op', r) \<in> set arrivals \<and> operator_id op' = operator_id op"
  shows "3 \<le> votes rs arrivals r"
proof -
  have "inj_on operator_id {op \<in> set rs. H op}"
    using assms(1) by (auto simp: wf_replica_set_def distinct_map intro: inj_on_subset)
  then have "card {op \<in> set rs. H op} = card (operator_id ` {op \<in> set rs. H op})"
    by (simp add: card_image)
  also have "\<dots> \<le> votes rs arrivals r"
    unfolding votes_def
  proof (rule card_mono)
    show "operator_id ` {op \<in> set rs. H op} \<subseteq> voters rs arrivals r"
    proof (rule image_subsetI)
      fix op
      assume op: "op \<in> {op \<in> set rs. H op}"
      then obtain op' where "(op', r) \<in> set arrivals" "operator_id op' = operator_id op"
        using assms(3) by blast
      with op show "operator_id op \<in> voters rs arrivals r"
        unfolding voters_def by (metis (mono_tags, lifting) IntI imageI mem_Collect_eq)
    qed
  qed simp
  finally show ?thesis using assms(2) by simp
qed

text \<open>An operator in both replica sets is the same operator: its slot decides.\<close>

lemma operation_replica_sets_same:
  assumes "view_wf (shards_sound h) v" and "operation_replica_sets hash v now operation = Ok (primary, secondary)"
    and "secondary = Some rs" and "a \<in> set primary" and "b \<in> set rs" and "operator_id a = operator_id b"
  shows "a = b"
proof -
  have "\<exists>i. get_by_idx (view_node_operators v) i = Some a"
    using assms(2,4) by (auto simp: operation_replica_sets_def primary_replica_set_def outcome_simps
        dest: resolve_replica_set_operators)
  moreover have "\<exists>i. get_by_idx (view_node_operators v) i = Some b"
    using assms(2,3,5) by (auto simp: operation_replica_sets_def secondary_replica_set_def outcome_simps
        dest: resolve_replica_set_operators split: if_splits option.splits)
  ultimately show ?thesis
    using nops.ident_inj [OF view_wf_operators [OF assms(1)]] assms(6) by (metis option.inject)
qed

text \<open>
  C6. Writes stay available while a minority of each replica set is down: if three operators of the
  primary replica set, and during a migration three of the secondary one, are healthy (their nodes
  share the coordinator's view, their clocks are within the configured skew and their databases
  accept the write), then an authorized write is acknowledged, whatever the other operators answer
  and whatever the order of the answers.
\<close>

theorem write_available:
  assumes v: "view_wf (shards_sound h) v" and auth: "authorized_operation v peer_id operation" and w: "is_write operation"
    and sets: "operation_replica_sets hash v now_shadow operation = (Ok (primary, secondary) :: ('e, _) outcome)"
    and arr: "merged_responses conn (versioned v now operation) (requested_operators primary secondary) arrivals"
    and p: "3 \<le> card {op \<in> set primary. healthy show_error v now conn clock db operation out op}"
    and s: "\<forall>rs. secondary = Some rs \<longrightarrow> 3 \<le> card {op \<in> set rs. healthy show_error v now conn clock db operation out op}"
  shows "execute_callback hash v now now_shadow peer_id operation arrivals = (Ok (Inr out, []) :: ('e, _) outcome)"
proof -
  note wf = operation_replica_sets_OkD [OF v sets]
  have in_arr: "(op, Inr out) \<in> set arrivals"
    if "op \<in> set (requested_operators primary secondary)" "healthy show_error v now conn clock db operation out op" for op
    using merged_healthy [OF arr that(1) _ that(2)] wf(3) that(1) by blast
  have "3 \<le> votes primary arrivals (Inr out)"
  proof (rule votes_healthy [OF _ p])
    show "wf_replica_set primary" using wf(1) by (simp add: wf_replica_sets_def)
  qed (use in_arr in \<open>auto simp: requested_operators_def\<close>)
  moreover have "3 \<le> votes rs arrivals (Inr out)" if "secondary = Some rs" for rs
  proof (rule votes_healthy [OF _ s [rule_format, OF that]])
    show "wf_replica_set rs" using wf(1) that by (simp add: wf_replica_sets_def)
    fix op
    assume op: "op \<in> set rs" "healthy show_error v now conn clock db operation out op"
    have "op \<in> set (requested_operators primary secondary)"
      using op(1) that operation_replica_sets_same [OF v sets that] by (auto simp: requested_operators_def is_primary_replica_def list_ex_iff)
    then show "\<exists>op'. (op', Inr out) \<in> set arrivals \<and> operator_id op' = operator_id op"
      using in_arr op(2) by blast
  qed
  ultimately have "agreed primary secondary arrivals (Inr out)"
    by (simp add: agreed_def rf_simps)
  moreover obtain resp repairs where
    "execute_callback hash v now now_shadow peer_id operation arrivals = (Ok (resp, repairs) :: ('e, _) outcome)"
    "\<forall>out. resp = Inr out \<longleftrightarrow> agreed primary secondary arrivals (Inr out)"
    "(\<forall>r. \<not> agreed primary secondary arrivals r) \<longrightarrow> resp = Inl error_internal"
    "is_write operation \<longrightarrow> repairs = []"
    by (rule execute_callback_answer [OF v auth disjI1 [OF w] sets arr])
  ultimately show ?thesis
    using w by metis
qed

theorem write_available_witness:
  "\<exists>(v :: (nat, _) View) rs. operation_replica_sets (\<lambda>_. 0) v 0 sample_set = (Ok (rs, None) :: (unit, _) outcome)
     \<and> execute_callback (\<lambda>_. 0) v 0 0 [9] sample_set (map (\<lambda>op. (op, Inr OutNone)) rs) = (Ok (Inr OutNone, []) :: (unit, _) outcome)"
proof -
  obtain v :: "(nat, operator_idx ShardingKeyspace) View" and rs where
    v: "view_wf (shards_sound sample_hash) v" and auth: "authorized_operation v [9] sample_set"
    and sets: "operation_replica_sets (\<lambda>_. 0) v 0 sample_set = (Ok (rs, None) :: (unit, _) outcome)"
    and arr: "\<And>r operation. merged_responses (\<lambda>_ _. r) operation (requested_operators rs None) (map (\<lambda>op. (op, r)) rs)"
    using sample_run by metis
  have w: "is_write sample_set" by (simp add: sample_set_def)
  define db :: "nat \<Rightarrow> unit database" where
    "db = (\<lambda>_. \<lparr>db_execute = (\<lambda>_. Inr OutNone), db_read_data = (\<lambda>_ _. Inr ())\<rparr>)"
  have healthy: "healthy (\<lambda>_. []) v 0 (\<lambda>_ _. Inr OutNone) (\<lambda>_. 0) db sample_set OutNone op" for op
    using replica_accepts_versioned [of 0 0 v "db 0" sample_set OutNone "\<lambda>_. []"] by (simp add: healthy_def db_def)
  have "distinct rs" "length rs = 5"
    using operation_replica_sets_OkD(1) [OF v sets] by (auto simp: wf_replica_sets_def wf_replica_set_def rf_simps distinct_map)
  then have "3 \<le> card {op \<in> set rs. healthy (\<lambda>_. []) v 0 (\<lambda>_ _. Inr OutNone) (\<lambda>_. 0) db sample_set OutNone op}"
    by (simp add: healthy distinct_card)
  from write_available [OF v auth w sets arr this] sets show ?thesis
    by auto
qed

end
