(* ===== verification/Bitmask.thy ===== *)
theory Bitmask
  imports WCN_Prelude
begin

text \<open>
  Model of the library \<open>Bitmask\<close> of \<open>contracts/src/Cluster.sol\<close> (sets of operator slots as the bits of
  one \<open>uint256\<close>). The bit counting of solady's \<open>LibBit\<close> is the parameter \<open>lb\<close>; \<open>lib_bit_documented\<close> says
  what its documentation promises.
\<close>

unbundle bit_operations_syntax

type_synonym u256 = "256 word"

record lib_bit =
  popCount :: "u256 \<Rightarrow> u256"
  ffs :: "u256 \<Rightarrow> u256"
  fls :: "u256 \<Rightarrow> u256"

section \<open>The library\<close>

definition bm_fill :: "u256 \<Rightarrow> u256" where
  "bm_fill n = (if n = 256 then - 1 else push_bit (unat n) 1 - 1)"

definition bm_set :: "u256 \<Rightarrow> u8 \<Rightarrow> u256" where
  "bm_set self idx = self OR push_bit (unat idx) 1"

definition bm_unset :: "u256 \<Rightarrow> u8 \<Rightarrow> u256" where
  "bm_unset self idx = self AND NOT (push_bit (unat idx) 1)"

definition bm_isSet :: "u256 \<Rightarrow> u8 \<Rightarrow> bool" where
  "bm_isSet self idx \<longleftrightarrow> self AND push_bit (unat idx) 1 \<noteq> 0"

definition bm_isUnset :: "u256 \<Rightarrow> u8 \<Rightarrow> bool" where
  "bm_isUnset self idx \<longleftrightarrow> self AND push_bit (unat idx) 1 = 0"

definition bm_countSet :: "lib_bit \<Rightarrow> u256 \<Rightarrow> u16" where
  "bm_countSet lb self = ucast (popCount lb self)"

definition bm_findFirstUnset :: "lib_bit \<Rightarrow> u256 \<Rightarrow> u8" where
  "bm_findFirstUnset lb self = ucast (ffs lb (NOT self))"

definition bm_findLastSet :: "lib_bit \<Rightarrow> u256 \<Rightarrow> u8" where
  "bm_findLastSet lb self = ucast (fls lb self)"

definition bm_isSubsetOf :: "u256 \<Rightarrow> u256 \<Rightarrow> bool" where
  "bm_isSubsetOf self other \<longleftrightarrow> self AND NOT other = 0"

definition bm_fromArray :: "u8 list \<Rightarrow> u256" where
  "bm_fromArray array = fold (\<lambda>i bitmask. bm_set bitmask i) array 0"

text \<open>
  The array has \<open>countSet\<close> elements; the loop writes the next free one and reverts beyond the end
  (\<open>None\<close>). Elements that are not written stay zero.
\<close>

definition bm_intoArray :: "lib_bit \<Rightarrow> u256 \<Rightarrow> u8 list option" where
  "bm_intoArray lb self =
     (let found = map of_nat (filter (\<lambda>i. bm_isSet self (of_nat i)) [0..<unat (bm_findLastSet lb self) + 1]);
          size = unat (bm_countSet lb self)
      in if length found \<le> size then Some (found @ replicate (size - length found) 0) else None)"

section \<open>Bitmasks as sets\<close>

text \<open>The slots of a bitmask.\<close>

definition bits :: "u256 \<Rightarrow> u8 set" where
  "bits m = {i. bit m (unat i)}"

named_theorems bitmask_simps \<open>the operations of the library on the set of slots\<close>

lemma in_bits: "i \<in> bits m \<longleftrightarrow> bit m (unat i)"
  by (simp add: bits_def)

lemma unat_u8_eq_iff: "unat (i :: u8) = unat j \<longleftrightarrow> i = j"
  by (simp add: word_unat_eq_iff)

lemma bit_single: "bit (2 ^ unat (i :: u8) :: u256) n \<longleftrightarrow> n = unat i"
proof -
  have "unat i < LENGTH(256)" by simp
  then show ?thesis by (auto simp: bit_exp_iff)
qed

lemma and_single: "m AND 2 ^ unat (i :: u8) = (0 :: u256) \<longleftrightarrow> \<not> bit m (unat i)"
proof
  assume "m AND 2 ^ unat i = 0"
  then have "bit (m AND 2 ^ unat i) (unat i) = False" by simp
  then show "\<not> bit m (unat i)" by (simp add: bit_and_iff bit_single)
next
  assume "\<not> bit m (unat i)"
  then have "bit (m AND 2 ^ unat i) n = bit (0 :: u256) n" for n
    by (auto simp: bit_and_iff bit_single)
  then show "m AND 2 ^ unat i = 0"
    by (intro bit_eqI) simp
qed

lemma bm_isSet_iff [bitmask_simps]: "bm_isSet m i \<longleftrightarrow> i \<in> bits m"
  by (simp add: bm_isSet_def and_single in_bits)

lemma bm_isUnset_iff [bitmask_simps]: "bm_isUnset m i \<longleftrightarrow> i \<notin> bits m"
  by (simp add: bm_isUnset_def and_single in_bits)

lemma bits_bm_set [bitmask_simps]: "bits (bm_set m i) = insert i (bits m)"
  by (auto simp: in_bits bm_set_def bit_or_iff bit_single unat_u8_eq_iff)

lemma bits_bm_unset [bitmask_simps]: "bits (bm_unset m i) = bits m - {i}"
  by (auto simp: in_bits bm_unset_def bit_and_iff bit_not_iff bit_single unat_u8_eq_iff)

lemma bits_0 [bitmask_simps]: "bits 0 = {}"
  by (simp add: bits_def)

lemma bits_eq_iff [bitmask_simps]: "bits m = bits m' \<longleftrightarrow> m = m'"
proof
  assume eq: "bits m = bits m'"
  have "bit m n = bit m' n" for n
  proof (cases "n < 256")
    case True
    then have "unat (of_nat n :: u8) = n"
      by (simp add: unat_of_nat)
    with eq show ?thesis
      by (metis in_bits)
  qed (auto dest: bit_imp_le_length)
  then show "m = m'"
    by (intro bit_eqI) simp
qed simp

lemma bits_eq_empty [bitmask_simps]: "bits m = {} \<longleftrightarrow> m = 0"
  using bits_eq_iff [of m 0] by (simp add: bits_0)

lemma bits_neq_empty: "m \<noteq> 0 \<longleftrightarrow> bits m \<noteq> {}"
  by (simp add: bits_eq_empty)

lemma bits_full [bitmask_simps]: "bits (- 1) = UNIV"
  by (auto simp: in_bits)

lemma bits_eq_UNIV [bitmask_simps]: "bits m = UNIV \<longleftrightarrow> m = - 1"
  using bits_eq_iff [of m "- 1"] by (simp add: bits_full)

lemma bits_not [bitmask_simps]: "bits (NOT m) = - bits m"
  by (auto simp: in_bits bit_not_iff)

lemma bm_isSubsetOf_iff [bitmask_simps]: "bm_isSubsetOf m m' \<longleftrightarrow> bits m \<subseteq> bits m'"
proof -
  have "bits (m AND NOT m') = bits m - bits m'"
    by (auto simp: in_bits bit_and_iff bit_not_iff)
  then show ?thesis
    unfolding bm_isSubsetOf_def bits_eq_empty [symmetric] by blast
qed

lemma bits_fromArray [bitmask_simps]: "bits (bm_fromArray xs) = set xs"
proof -
  have "bits (fold (\<lambda>i m. bm_set m i) xs m) = bits m \<union> set xs" for m
    by (induction xs arbitrary: m) (auto simp: bits_bm_set)
  then show ?thesis
    by (simp add: bm_fromArray_def bits_0)
qed

lemma bits_fill: "n \<le> 256 \<Longrightarrow> bits (bm_fill (of_nat n)) = of_nat ` {..<n}"
proof -
  assume n: "n \<le> 256"
  have "unat (of_nat n :: u256) = n"
    using n by (simp add: unat_of_nat)
  then have "bit (bm_fill (of_nat n)) k \<longleftrightarrow> k < n" if "k < 256" for k
  proof (cases "n = 256")
    case True
    with that show ?thesis by (simp add: bm_fill_def)
  next
    case False
    have "(of_nat n :: u256) \<noteq> 256"
    proof
      assume "(of_nat n :: u256) = 256"
      then have "unat (of_nat n :: u256) = unat (256 :: u256)" by simp
      then show False using False \<open>unat (of_nat n :: u256) = n\<close> by simp
    qed
    then have "bm_fill (of_nat n) = mask n"
      using \<open>unat (of_nat n :: u256) = n\<close> by (simp add: bm_fill_def mask_eq_exp_minus_1)
    with that show ?thesis by (simp add: bit_mask_iff)
  qed
  then have iff: "i \<in> bits (bm_fill (of_nat n)) \<longleftrightarrow> unat i < n" for i
    by (simp add: in_bits)
  show ?thesis
  proof (intro set_eqI iffI)
    fix i
    assume "i \<in> bits (bm_fill (of_nat n))"
    then have "unat i < n" by (simp add: iff)
    then show "i \<in> of_nat ` {..<n}" by (intro image_eqI [of _ _ "unat i"]) auto
  next
    fix i :: u8
    assume "i \<in> of_nat ` {..<n}"
    then obtain k where "i = of_nat k" "k < n" by blast
    moreover from this have "unat i = k" using n by (simp add: unat_of_nat)
    ultimately show "i \<in> bits (bm_fill (of_nat n))" by (simp add: iff)
  qed
qed

section \<open>Bit counting\<close>

definition bit_positions :: "u256 \<Rightarrow> nat set" where
  "bit_positions m = {n. n < 256 \<and> bit m n}"

text \<open>
  \<open>popCount\<close> counts the bits; \<open>ffs\<close> and \<open>fls\<close> return the least and the greatest set bit, and 256 if there
  is none.
\<close>

definition lib_bit_documented :: "lib_bit \<Rightarrow> bool" where
  "lib_bit_documented lb \<longleftrightarrow>
     (\<forall>m. popCount lb m = of_nat (card (bit_positions m))
        \<and> ffs lb m = (if m = 0 then 256 else of_nat (Min (bit_positions m)))
        \<and> fls lb m = (if m = 0 then 256 else of_nat (Max (bit_positions m))))"

lemma bit_positions_eq: "bit_positions m = unat ` bits m"
proof (intro set_eqI iffI)
  fix n
  assume "n \<in> bit_positions m"
  then have "unat (of_nat n :: u8) = n" "bit m n"
    by (simp_all add: bit_positions_def unat_of_nat)
  then show "n \<in> unat ` bits m"
    by (metis imageI in_bits)
qed (auto simp: in_bits bit_positions_def)

lemma bit_positions_less: "n \<in> bit_positions m \<Longrightarrow> n < 256"
  by (simp add: bit_positions_def)

lemma finite_bit_positions [simp]: "finite (bit_positions m)"
  unfolding bit_positions_eq by simp

lemma bit_positions_neq_empty: "m \<noteq> 0 \<Longrightarrow> bit_positions m \<noteq> {}"
  unfolding bit_positions_eq by (simp add: bits_neq_empty)

lemma card_bit_positions: "card (bit_positions m) = card (bits m)"
  unfolding bit_positions_eq by (rule card_image) (simp add: inj_on_def unat_u8_eq_iff)

lemma card_bits_le: "card (bits m) \<le> 256"
proof -
  have "card (bits m) \<le> card (UNIV :: u8 set)"
    by (rule card_mono) simp_all
  then show ?thesis
    by (simp add: card_word)
qed

lemma unat_ucast_of_nat: "n < 256 \<Longrightarrow> unat (ucast (of_nat n :: u256) :: u8) = n"
  by (simp add: unat_ucast_mod unat_of_nat)

lemma unat_countSet [bitmask_simps]: "lib_bit_documented lb \<Longrightarrow> unat (bm_countSet lb m) = card (bits m)"
proof -
  assume "lib_bit_documented lb"
  then have "popCount lb m = of_nat (card (bits m))"
    by (simp add: lib_bit_documented_def card_bit_positions)
  moreover have "card (bits m) < 2 ^ 16"
    using card_bits_le [of m] by simp
  ultimately show "unat (bm_countSet lb m) = card (bits m)"
    by (simp add: bm_countSet_def unat_ucast_mod unat_of_nat)
qed

lemma unat_findFirstUnset:
  assumes "lib_bit_documented lb" and "m \<noteq> - 1"
  shows "unat (bm_findFirstUnset lb m) = Min (bit_positions (NOT m))"
    and "Min (bit_positions (NOT m)) \<in> bit_positions (NOT m)"
proof -
  have ne: "NOT m \<noteq> 0"
    using assms(2) by (metis bit.compl_zero bit.double_compl)
  then show min: "Min (bit_positions (NOT m)) \<in> bit_positions (NOT m)"
    by (intro Min_in finite_bit_positions bit_positions_neq_empty)
  have "ffs lb (NOT m) = of_nat (Min (bit_positions (NOT m)))"
    using assms(1) ne by (simp add: lib_bit_documented_def)
  then show "unat (bm_findFirstUnset lb m) = Min (bit_positions (NOT m))"
    by (simp only: bm_findFirstUnset_def unat_ucast_of_nat [OF bit_positions_less [OF min]])
qed

lemma findFirstUnset_notin:
  assumes "lib_bit_documented lb" and "m \<noteq> - 1"
  shows "bm_findFirstUnset lb m \<notin> bits m"
proof -
  have "unat (bm_findFirstUnset lb m) \<in> bit_positions (NOT m)"
    using unat_findFirstUnset [OF assms] by simp
  then show ?thesis
    by (auto simp: bit_positions_eq bits_not unat_u8_eq_iff)
qed

lemma below_findFirstUnset:
  assumes "lib_bit_documented lb" and "m \<noteq> - 1" and "i < bm_findFirstUnset lb m"
  shows "i \<in> bits m"
proof (rule ccontr)
  assume "i \<notin> bits m"
  then have "unat i \<in> bit_positions (NOT m)"
    by (auto simp: bit_positions_eq bits_not)
  then have "Min (bit_positions (NOT m)) \<le> unat i"
    by (rule Min_le [OF finite_bit_positions])
  then show False
    using assms(3) unat_findFirstUnset(1) [OF assms(1,2)] by (simp add: word_less_nat_alt)
qed

lemma findLastSet_in:
  assumes "lib_bit_documented lb" and "m \<noteq> 0"
  shows "bm_findLastSet lb m \<in> bits m"
proof -
  have max: "Max (bit_positions m) \<in> bit_positions m"
    using assms(2) by (intro Max_in finite_bit_positions bit_positions_neq_empty)
  have "fls lb m = of_nat (Max (bit_positions m))"
    using assms by (simp add: lib_bit_documented_def)
  then have "unat (bm_findLastSet lb m) = Max (bit_positions m)"
    by (simp only: bm_findLastSet_def unat_ucast_of_nat [OF bit_positions_less [OF max]])
  then show ?thesis
    using max by (auto simp: bit_positions_eq unat_u8_eq_iff)
qed

lemma findLastSet_max:
  assumes "lib_bit_documented lb" and "i \<in> bits m"
  shows "i \<le> bm_findLastSet lb m"
proof -
  have i: "unat i \<in> bit_positions m"
    using assms(2) by (simp add: bit_positions_eq)
  have "m \<noteq> 0"
    using assms(2) by (auto simp: bits_neq_empty)
  then have fls: "fls lb m = of_nat (Max (bit_positions m))"
    using assms(1) by (simp add: lib_bit_documented_def)
  have "Max (bit_positions m) \<in> bit_positions m"
    using i by (intro Max_in) auto
  then have "unat (bm_findLastSet lb m) = Max (bit_positions m)"
    by (simp only: bm_findLastSet_def fls unat_ucast_of_nat [OF bit_positions_less])
  then show ?thesis
    using Max_ge [OF finite_bit_positions i] by (simp add: word_le_nat_alt)
qed

text \<open>
  C32. Bitmasks and index arrays represent the same sets: \<open>intoArray\<close> never writes outside its array
  and returns the set slots in ascending order without repetition, and \<open>fromArray\<close> gives the bitmask
  back.
\<close>

theorem bitmask_array_roundtrip:
  assumes "lib_bit_documented lb"
  shows "\<exists>xs. bm_intoArray lb m = Some xs \<and> set xs = bits m \<and> sorted_wrt (<) xs \<and> bm_fromArray xs = m"
proof -
  let ?last = "unat (bm_findLastSet lb m)"
  let ?ns = "filter (\<lambda>i. bm_isSet m (of_nat i)) [0..<?last + 1]"
  let ?xs = "map (of_nat :: nat \<Rightarrow> u8) ?ns"
  have less: "?last < 256" by simp
  have unat: "unat (of_nat n :: u8) = n" if "n \<in> set ?ns" for n
  proof -
    have "n < Suc ?last" using that unfolding set_filter set_upt by simp
    then have "n < 256" using Suc_leI [OF less] by (rule less_le_trans)
    then show ?thesis by (simp add: unat_of_nat)
  qed
  have set_xs: "set ?xs = bits m"
  proof (intro set_eqI iffI)
    fix i
    assume "i \<in> bits m"
    moreover from this have "unat i \<le> ?last"
      using findLastSet_max [OF assms] by (simp add: word_le_nat_alt)
    ultimately have "unat i \<in> set ?ns"
      unfolding set_filter set_upt by (simp add: bm_isSet_iff)
    then show "i \<in> set ?xs"
      by (metis image_eqI list.set_map of_nat_unat ucast_id)
  next
    fix i
    assume "i \<in> set ?xs"
    then obtain n where "i = of_nat n" "bm_isSet m (of_nat n)"
      unfolding set_map set_filter by blast
    then show "i \<in> bits m"
      by (simp add: bm_isSet_iff)
  qed
  have sorted: "sorted_wrt (<) ?xs"
  proof -
    have "sorted_wrt (<) ?ns"
      by (intro sorted_wrt_filter sorted_wrt_upt)
    then have "sorted_wrt (\<lambda>a b. (of_nat a :: u8) < of_nat b) ?ns"
      by (rule sorted_wrt_mono_rel [rotated]) (simp add: word_less_nat_alt unat)
    then show ?thesis
      by (simp only: sorted_wrt_map)
  qed
  have "length ?xs = card (bits m)"
    using distinct_card [of ?xs] sorted strict_sorted_iff [of ?xs] unfolding set_xs by (simp only:)
  then have "bm_intoArray lb m = Some ?xs"
    unfolding bm_intoArray_def Let_def unat_countSet [OF assms] by simp
  moreover have "bm_fromArray ?xs = m"
    unfolding bits_eq_iff [symmetric] bits_fromArray by (rule set_xs)
  ultimately show ?thesis
    using set_xs sorted by blast
qed

text \<open>The documented functions, by going through the bits.\<close>

definition sample_lib_bit :: lib_bit where
  "sample_lib_bit =
     \<lparr>popCount = (\<lambda>m. of_nat (length (filter (bit m) [0..<256]))),
      ffs = (\<lambda>m. case filter (bit m) [0..<256] of [] \<Rightarrow> 256 | n # _ \<Rightarrow> of_nat n),
      fls = (\<lambda>m. case rev (filter (bit m) [0..<256]) of [] \<Rightarrow> 256 | n # _ \<Rightarrow> of_nat n)\<rparr>"

lemma sorted_hd_min: "sorted xs \<Longrightarrow> x \<in> set xs \<Longrightarrow> hd xs \<le> x"
  by (cases xs) auto

lemma sorted_last_max: "sorted xs \<Longrightarrow> x \<in> set xs \<Longrightarrow> x \<le> last xs"
  by (induction xs) auto

lemma sample_lib_bit_documented: "lib_bit_documented sample_lib_bit"
  unfolding lib_bit_documented_def
proof (intro allI conjI)
  fix m :: u256
  define xs where "xs = filter (bit m) [0..<256]"
  have set_xs: "set xs = bit_positions m"
    unfolding xs_def bit_positions_def set_filter set_upt by auto
  have xs: "sorted xs" "distinct xs"
    unfolding xs_def by (intro sorted_wrt_filter sorted_upt distinct_filter distinct_upt)+
  show "popCount sample_lib_bit m = of_nat (card (bit_positions m))"
    unfolding sample_lib_bit_def lib_bit.select_convs xs_def [symmetric] set_xs [symmetric] distinct_card [OF xs(2)] ..
  have empty: "xs = [] \<longleftrightarrow> m = 0"
    using bit_positions_neq_empty [of m] set_xs by (auto simp: bit_positions_eq bits_eq_empty bits_0)
  have ends: "Min (bit_positions m) = hd xs" "Max (bit_positions m) = last xs" if "xs \<noteq> []"
    unfolding set_xs [symmetric]
    using that xs(1) by (auto intro!: Min_eqI Max_eqI simp: sorted_hd_min sorted_last_max)
  show "ffs sample_lib_bit m = (if m = 0 then 256 else of_nat (Min (bit_positions m)))"
    unfolding sample_lib_bit_def lib_bit.select_convs xs_def [symmetric] empty [symmetric]
    using ends by (cases xs) simp_all
  show "fls sample_lib_bit m = (if m = 0 then 256 else of_nat (Max (bit_positions m)))"
    unfolding sample_lib_bit_def lib_bit.select_convs xs_def [symmetric] empty [symmetric]
    using ends by (cases xs rule: rev_cases) simp_all
qed

theorem bitmask_array_roundtrip_witness:
  "\<exists>xs. bm_intoArray sample_lib_bit 21 = Some xs \<and> set xs = bits 21 \<and> sorted_wrt (<) xs \<and> bm_fromArray xs = 21"
  by (rule bitmask_array_roundtrip [OF sample_lib_bit_documented])

end
