(* ===== verification/Cluster_Contract.thy ===== *)
theory Cluster_Contract
  imports Bitmask Smart_Contract
begin

text \<open>
  Model of the contract \<open>Cluster\<close> of \<open>contracts/src/Cluster.sol\<close>: its storage, its transactions and the
  events they emit. A reverted transaction is an \<open>Err\<close> and changes nothing. Checked arithmetic
  (Solidity 0.8) reverts with \<open>ArithmeticPanic\<close>. The ownership of the contract is OpenZeppelin's
  \<open>Ownable2Step\<close>: the owner at the time of a call is part of its environment, and \<open>onlyOwner\<close> reverts
  for every other sender. Upgrades of the contract are not modelled.
\<close>

section \<open>Storage\<close>

record SolSettings =
  maxOperatorDataBytes :: u16
  minOperators :: u8
  extra_bytes :: "u8 list"

record SolNodeOperator =
  addr :: AccountAddress
  op_data :: "u8 list"

record SolKeyspace =
  ks_bitmask :: u256
  replicationStrategy :: u8

record SolMigration =
  mig_id :: u64
  startedAt :: u64
  abortedAt :: u64
  pullingOperatorBitmask :: u256

record Contract =
  c_settings :: SolSettings
  c_version :: u128
  operatorSlots :: "u8 \<Rightarrow> SolNodeOperator"
  operatorSlotIndexes :: "AccountAddress \<Rightarrow> u8"
  operatorBitmask :: u256
  c_keyspaces :: "SolKeyspace \<times> SolKeyspace"
  keyspaceVersion :: u64
  c_migration :: SolMigration
  maintenanceSlot :: AccountAddress

record SolClusterView =
  sv_owner :: AccountAddress
  sv_settings :: SolSettings
  sv_version :: u128
  sv_keyspaceVersion :: u64
  sv_operatorSlots :: "SolNodeOperator list"
  sv_keyspaces :: "SolKeyspace \<times> SolKeyspace"
  sv_migration :: SolMigration
  sv_maintenanceSlot :: AccountAddress

datatype ContractError =
    ScUnauthorized | ScMigrationInProgress | NoMigrationInProgress | InvalidOperator
  | ScOperatorNotFound | ScOperatorNotPulling | CallerNotOperator | OperatorExists
  | OperatorInKeyspace | ScSameKeyspace | WrongMigrationId | InvalidOperatorData
  | TooManyOperators | InsufficientOperators | ScMaintenanceInProgress
  | OwnableUnauthorizedAccount AccountAddress | ArithmeticPanic

datatype SolEvent =
    ClusterInitialized "SolNodeOperator list" SolSettings u128
  | SolMigrationStarted u64 SolKeyspace u64 u128
  | SolMigrationDataPullCompleted u64 AccountAddress u128
  | SolMigrationCompleted u64 AccountAddress u128
  | SolMigrationAborted u64 u128
  | SolNodeOperatorAdded AccountAddress u8 "u8 list" u128
  | SolNodeOperatorUpdated AccountAddress u8 "u8 list" u128
  | SolNodeOperatorRemoved AccountAddress u8 u128
  | SolMaintenanceToggled AccountAddress bool u128
  | SolSettingsUpdated SolSettings AccountAddress u128

text \<open>The environment of a transaction.\<close>

record tx_env =
  msg_sender :: AccountAddress
  block_timestamp :: u256
  contract_owner :: AccountAddress

type_synonym transaction = "Contract \<Rightarrow> (ContractError, Contract \<times> SolEvent) outcome"

section \<open>Shared parts\<close>

definition MAX_OPERATORS_SOL :: nat where
  "MAX_OPERATORS_SOL = 256"

definition onlyOwner :: "tx_env \<Rightarrow> (ContractError, unit) outcome" where
  "onlyOwner env =
     guard_oc (msg_sender env = contract_owner env) (OwnableUnauthorizedAccount (msg_sender env))"

text \<open>\<open>x++\<close> and \<open>x--\<close> in checked arithmetic.\<close>

definition checked_inc :: "'a::len word \<Rightarrow> (ContractError, 'a word) outcome" where
  "checked_inc x = (if x = - 1 then Err ArithmeticPanic else Ok (x + 1))"

definition checked_dec :: "'a::len word \<Rightarrow> (ContractError, 'a word) outcome" where
  "checked_dec x = (if x = 0 then Err ArithmeticPanic else Ok (x - 1))"

text \<open>\<open>keyspaces[v % 2]\<close>\<close>

definition keyspace_at :: "u64 \<Rightarrow> Contract \<Rightarrow> SolKeyspace" where
  "keyspace_at v c = (if even (unat v) then fst (c_keyspaces c) else snd (c_keyspaces c))"

definition set_keyspace_at :: "u64 \<Rightarrow> SolKeyspace \<Rightarrow> Contract \<Rightarrow> Contract" where
  "set_keyspace_at v ks c =
     c\<lparr>c_keyspaces := (if even (unat v) then (ks, snd (c_keyspaces c)) else (fst (c_keyspaces c), ks))\<rparr>"

definition validateOperatorData :: "u8 list \<Rightarrow> SolSettings \<Rightarrow> (ContractError, unit) outcome" where
  "validateOperatorData data s =
     and_then (guard_oc (length data \<noteq> 0) InvalidOperatorData) (\<lambda>_.
     guard_oc (\<not> length data > unat (maxOperatorDataBytes s)) InvalidOperatorData)"

definition isSlotInKeyspace :: "u8 \<Rightarrow> u64 \<Rightarrow> Contract \<Rightarrow> bool" where
  "isSlotInKeyspace slot keyspaceIndex c = bm_isSet (ks_bitmask (keyspace_at keyspaceIndex c)) slot"

text \<open>\<open>emit ...(++version)\<close>\<close>

definition emit :: "(u128 \<Rightarrow> SolEvent) \<Rightarrow> Contract \<Rightarrow> (ContractError, Contract \<times> SolEvent) outcome" where
  "emit evt c = and_then (checked_inc (c_version c)) (\<lambda>v. Ok (c\<lparr>c_version := v\<rparr>, evt v))"

definition put_operator :: "u8 \<Rightarrow> SolNodeOperator \<Rightarrow> Contract \<Rightarrow> Contract" where
  "put_operator slotIdx op c =
     c\<lparr>operatorSlots := (operatorSlots c)(slotIdx := op),
       operatorSlotIndexes := (operatorSlotIndexes c)(addr op := slotIdx),
       operatorBitmask := bm_set (operatorBitmask c) slotIdx\<rparr>"

section \<open>Initialization\<close>

definition empty_operator :: SolNodeOperator where
  "empty_operator = \<lparr>addr = 0, op_data = []\<rparr>"

definition blank_contract :: Contract where
  "blank_contract =
     \<lparr>c_settings = \<lparr>maxOperatorDataBytes = 0, minOperators = 0, extra_bytes = []\<rparr>, c_version = 0,
      operatorSlots = (\<lambda>_. empty_operator), operatorSlotIndexes = (\<lambda>_. 0), operatorBitmask = 0,
      c_keyspaces = (\<lparr>ks_bitmask = 0, replicationStrategy = 0\<rparr>, \<lparr>ks_bitmask = 0, replicationStrategy = 0\<rparr>),
      keyspaceVersion = 0,
      c_migration = \<lparr>mig_id = 0, startedAt = 0, abortedAt = 0, pullingOperatorBitmask = 0\<rparr>,
      maintenanceSlot = 0\<rparr>"

definition init_operator :: "nat \<times> SolNodeOperator \<Rightarrow> Contract \<Rightarrow> (ContractError, Contract) outcome" where
  "init_operator iop c =
     (let op = snd iop; slotIdx = of_nat (fst iop) in
      and_then (validateOperatorData (op_data op) (c_settings c)) (\<lambda>_.
      and_then (guard_oc (\<not> bm_isSet (operatorBitmask c) slotIdx) OperatorExists) (\<lambda>_.
      Ok (put_operator slotIdx op c))))"

definition sol_initialize :: "SolSettings \<Rightarrow> SolNodeOperator list \<Rightarrow> transaction" where
  "sol_initialize initialSettings initialOperators c =
     and_then (guard_oc (\<not> length initialOperators > MAX_OPERATORS_SOL) TooManyOperators) (\<lambda>_.
     and_then (guard_oc (\<not> length initialOperators < unat (minOperators initialSettings)) InsufficientOperators) (\<lambda>_.
     and_then (try_fold init_operator (enumerate 0 initialOperators) (c\<lparr>c_settings := initialSettings\<rparr>)) (\<lambda>c.
     let c = c\<lparr>c_keyspaces := ((fst (c_keyspaces c))\<lparr>ks_bitmask := bm_fill (of_nat (length initialOperators))\<rparr>,
                                snd (c_keyspaces c))\<rparr>
     in emit (ClusterInitialized initialOperators (c_settings c)) c)))"

section \<open>Migrations\<close>

definition startMigration :: "lib_bit \<Rightarrow> tx_env \<Rightarrow> SolKeyspace \<Rightarrow> transaction" where
  "startMigration lb env newKeyspace c =
     and_then (onlyOwner env) (\<lambda>_.
     and_then (guard_oc (maintenanceSlot c = 0) ScMaintenanceInProgress) (\<lambda>_.
     and_then (guard_oc (\<not> pullingOperatorBitmask (c_migration c) > 0) ScMigrationInProgress) (\<lambda>_.
     and_then (guard_oc (\<not> bm_countSet lb (ks_bitmask newKeyspace) < ucast (minOperators (c_settings c)))
                 InsufficientOperators) (\<lambda>_.
     and_then (guard_oc (bm_isSubsetOf (ks_bitmask newKeyspace) (operatorBitmask c)) ScOperatorNotFound) (\<lambda>_.
     let keyspace = keyspace_at (keyspaceVersion c) c in
     and_then (guard_oc (\<not> (ks_bitmask keyspace = ks_bitmask newKeyspace
                             \<and> replicationStrategy keyspace = replicationStrategy newKeyspace)) ScSameKeyspace) (\<lambda>_.
     and_then (checked_inc (mig_id (c_migration c))) (\<lambda>id'.
     and_then (checked_inc (keyspaceVersion c)) (\<lambda>ver.
     let c = set_keyspace_at ver newKeyspace
               (c\<lparr>c_migration := (c_migration c)\<lparr>mig_id := id', startedAt := ucast (block_timestamp env),
                                                pullingOperatorBitmask := ks_bitmask newKeyspace\<rparr>,
                  keyspaceVersion := ver\<rparr>)
     in emit (SolMigrationStarted id' newKeyspace ver) c))))))))"

definition completeMigration :: "tx_env \<Rightarrow> u64 \<Rightarrow> transaction" where
  "completeMigration env id' c =
     and_then (guard_oc (pullingOperatorBitmask (c_migration c) \<noteq> 0) NoMigrationInProgress) (\<lambda>_.
     and_then (guard_oc (id' = mig_id (c_migration c)) WrongMigrationId) (\<lambda>_.
     let slotIdx = operatorSlotIndexes c (msg_sender env) in
     and_then (guard_oc (addr (operatorSlots c slotIdx) = msg_sender env) CallerNotOperator) (\<lambda>_.
     and_then (guard_oc (\<not> bm_isUnset (pullingOperatorBitmask (c_migration c)) slotIdx) ScOperatorNotPulling) (\<lambda>_.
     let pulling = bm_unset (pullingOperatorBitmask (c_migration c)) slotIdx;
         c = c\<lparr>c_migration := (c_migration c)\<lparr>pullingOperatorBitmask := pulling\<rparr>\<rparr>
     in if pulling = 0 then emit (SolMigrationCompleted id' (msg_sender env)) c
        else emit (SolMigrationDataPullCompleted id' (msg_sender env)) c))))"

definition abortMigration :: "tx_env \<Rightarrow> u64 \<Rightarrow> transaction" where
  "abortMigration env id' c =
     and_then (onlyOwner env) (\<lambda>_.
     and_then (guard_oc (pullingOperatorBitmask (c_migration c) \<noteq> 0) NoMigrationInProgress) (\<lambda>_.
     and_then (guard_oc (id' = mig_id (c_migration c)) WrongMigrationId) (\<lambda>_.
     and_then (checked_dec (keyspaceVersion c)) (\<lambda>ver.
     emit (SolMigrationAborted id')
       (c\<lparr>c_migration := (c_migration c)\<lparr>abortedAt := ucast (block_timestamp env), pullingOperatorBitmask := 0\<rparr>,
          keyspaceVersion := ver\<rparr>)))))"

section \<open>Operators, maintenance, settings\<close>

definition addNodeOperator :: "lib_bit \<Rightarrow> tx_env \<Rightarrow> SolNodeOperator \<Rightarrow> transaction" where
  "addNodeOperator lb env operator c =
     and_then (onlyOwner env) (\<lambda>_.
     and_then (guard_oc (operatorBitmask c \<noteq> - 1) TooManyOperators) (\<lambda>_.
     and_then (guard_oc (addr operator \<noteq> 0) InvalidOperator) (\<lambda>_.
     and_then (guard_oc (\<not> (operatorSlotIndexes c (addr operator) \<noteq> 0
                             \<or> addr (operatorSlots c 0) = addr operator)) OperatorExists) (\<lambda>_.
     and_then (validateOperatorData (op_data operator) (c_settings c)) (\<lambda>_.
     let slotIdx = bm_findFirstUnset lb (operatorBitmask c)
     in emit (SolNodeOperatorAdded (addr operator) slotIdx (op_data operator)) (put_operator slotIdx operator c))))))"

definition updateNodeOperatorData :: "tx_env \<Rightarrow> AccountAddress \<Rightarrow> u8 list \<Rightarrow> transaction" where
  "updateNodeOperatorData env operatorAddress newData c =
     and_then (guard_oc (msg_sender env = operatorAddress \<or> msg_sender env = contract_owner env) ScUnauthorized) (\<lambda>_.
     and_then (validateOperatorData newData (c_settings c)) (\<lambda>_.
     let slotIdx = operatorSlotIndexes c operatorAddress in
     and_then (guard_oc (addr (operatorSlots c slotIdx) = operatorAddress) ScOperatorNotFound) (\<lambda>_.
     emit (SolNodeOperatorUpdated operatorAddress slotIdx newData)
       (c\<lparr>operatorSlots := (operatorSlots c)(slotIdx := (operatorSlots c slotIdx)\<lparr>op_data := newData\<rparr>)\<rparr>))))"

definition removeNodeOperator :: "lib_bit \<Rightarrow> tx_env \<Rightarrow> AccountAddress \<Rightarrow> transaction" where
  "removeNodeOperator lb env operatorAddr c =
     and_then (onlyOwner env) (\<lambda>_.
     let slotIdx = operatorSlotIndexes c operatorAddr in
     and_then (guard_oc (addr (operatorSlots c slotIdx) = operatorAddr) ScOperatorNotFound) (\<lambda>_.
     and_then (guard_oc (\<not> bm_countSet lb (operatorBitmask c) \<le> ucast (minOperators (c_settings c)))
                 InsufficientOperators) (\<lambda>_.
     and_then (guard_oc (\<not> (if pullingOperatorBitmask (c_migration c) > 0
                            then isSlotInKeyspace slotIdx 0 c \<or> isSlotInKeyspace slotIdx 1 c
                            else isSlotInKeyspace slotIdx (keyspaceVersion c) c)) OperatorInKeyspace) (\<lambda>_.
     emit (SolNodeOperatorRemoved operatorAddr slotIdx)
       (c\<lparr>operatorSlots := (operatorSlots c)(slotIdx := empty_operator),
          operatorSlotIndexes := (operatorSlotIndexes c)(operatorAddr := 0),
          operatorBitmask := bm_unset (operatorBitmask c) slotIdx\<rparr>)))))"

definition setMaintenance :: "tx_env \<Rightarrow> bool \<Rightarrow> transaction" where
  "setMaintenance env active c =
     and_then (if active then
                 and_then (guard_oc (maintenanceSlot c = 0) ScMaintenanceInProgress) (\<lambda>_.
                 Ok (c\<lparr>maintenanceSlot := msg_sender env\<rparr>))
               else
                 and_then (guard_oc (maintenanceSlot c = msg_sender env \<or> msg_sender env = contract_owner env)
                             ScUnauthorized) (\<lambda>_.
                 Ok (c\<lparr>maintenanceSlot := 0\<rparr>))) (\<lambda>c.
     and_then (if msg_sender env \<noteq> contract_owner env
               then guard_oc (addr (operatorSlots c (operatorSlotIndexes c (msg_sender env))) = msg_sender env) ScUnauthorized
               else Ok ()) (\<lambda>_.
     emit (SolMaintenanceToggled (msg_sender env) active) c))"

definition updateSettings :: "lib_bit \<Rightarrow> tx_env \<Rightarrow> SolSettings \<Rightarrow> transaction" where
  "updateSettings lb env newSettings c =
     and_then (onlyOwner env) (\<lambda>_.
     and_then (guard_oc (\<not> bm_countSet lb (operatorBitmask c) < ucast (minOperators newSettings))
                 InsufficientOperators) (\<lambda>_.
     emit (SolSettingsUpdated newSettings (msg_sender env)) (c\<lparr>c_settings := newSettings\<rparr>)))"

section \<open>View functions\<close>

definition getOperatorCount :: "lib_bit \<Rightarrow> Contract \<Rightarrow> u16" where
  "getOperatorCount lb c = bm_countSet lb (operatorBitmask c)"

definition getOperatorAt :: "u8 \<Rightarrow> Contract \<Rightarrow> (ContractError, AccountAddress) outcome" where
  "getOperatorAt slotIdx c =
     and_then (guard_oc (\<not> bm_isUnset (operatorBitmask c) slotIdx) ScOperatorNotFound) (\<lambda>_.
     Ok (addr (operatorSlots c slotIdx)))"

definition isOperator :: "AccountAddress \<Rightarrow> Contract \<Rightarrow> bool" where
  "isOperator a c = (addr (operatorSlots c (operatorSlotIndexes c a)) = a)"

definition getCurrentKeyspace :: "lib_bit \<Rightarrow> Contract \<Rightarrow> (u8 list \<times> u8) option" where
  "getCurrentKeyspace lb c =
     (let currentKeyspace = keyspace_at (keyspaceVersion c) c
      in map_option (\<lambda>xs. (xs, replicationStrategy currentKeyspace)) (bm_intoArray lb (ks_bitmask currentKeyspace)))"

definition getMigrationStatus :: "lib_bit \<Rightarrow> Contract \<Rightarrow> u64 \<times> u16 \<times> bool" where
  "getMigrationStatus lb c =
     (mig_id (c_migration c), bm_countSet lb (pullingOperatorBitmask (c_migration c)),
      pullingOperatorBitmask (c_migration c) > 0)"

definition getPullingOperators :: "lib_bit \<Rightarrow> Contract \<Rightarrow> u8 list option" where
  "getPullingOperators lb c = bm_intoArray lb (pullingOperatorBitmask (c_migration c))"

definition getView :: "lib_bit \<Rightarrow> AccountAddress \<Rightarrow> Contract \<Rightarrow> SolClusterView" where
  "getView lb own c =
     (let highestOccupiedSlot = unat (bm_findLastSet lb (operatorBitmask c));
          operators = map (\<lambda>i. if bm_isSet (operatorBitmask c) (of_nat i) then operatorSlots c (of_nat i)
                               else empty_operator) [0..<highestOccupiedSlot + 1]
      in \<lparr>sv_owner = own, sv_settings = c_settings c, sv_version = c_version c,
          sv_keyspaceVersion = keyspaceVersion c, sv_operatorSlots = operators, sv_keyspaces = c_keyspaces c,
          sv_migration = c_migration c, sv_maintenanceSlot = maintenanceSlot c\<rparr>)"

section \<open>Transactions\<close>

datatype ContractCall =
    CStartMigration SolKeyspace | CCompleteMigration u64 | CAbortMigration u64
  | CAddNodeOperator SolNodeOperator | CUpdateNodeOperatorData AccountAddress "u8 list"
  | CRemoveNodeOperator AccountAddress | CSetMaintenance bool | CUpdateSettings SolSettings

fun exec_call :: "lib_bit \<Rightarrow> tx_env \<Rightarrow> ContractCall \<Rightarrow> transaction" where
  "exec_call lb env (CStartMigration ks) = startMigration lb env ks"
| "exec_call lb env (CCompleteMigration id') = completeMigration env id'"
| "exec_call lb env (CAbortMigration id') = abortMigration env id'"
| "exec_call lb env (CAddNodeOperator op) = addNodeOperator lb env op"
| "exec_call lb env (CUpdateNodeOperatorData a d) = updateNodeOperatorData env a d"
| "exec_call lb env (CRemoveNodeOperator a) = removeNodeOperator lb env a"
| "exec_call lb env (CSetMaintenance b) = setMaintenance env b"
| "exec_call lb env (CUpdateSettings s) = updateSettings lb env s"

text \<open>
  The states the contract can reach. \<open>initialize\<close> does not look at the addresses: that they are
  different and not zero is up to the deployer (the Rust API checks it, see \<open>NodeOperators::from_slots\<close>).
\<close>

inductive reachable_contract :: "lib_bit \<Rightarrow> Contract \<Rightarrow> bool" for lb where
  init: "distinct (map addr ops) \<Longrightarrow> 0 \<notin> addr ` set ops \<Longrightarrow> sol_initialize s ops blank_contract = Ok (c, e)
    \<Longrightarrow> reachable_contract lb c"
| step: "reachable_contract lb c \<Longrightarrow> exec_call lb env call c = Ok (c', e) \<Longrightarrow> reachable_contract lb c'"

section \<open>The invariant\<close>

text \<open>Slots, addresses and the bitmask of occupied slots determine each other.\<close>

definition slots_wf :: "Contract \<Rightarrow> bool" where
  "slots_wf c \<longleftrightarrow>
     (\<forall>i. i \<in> bits (operatorBitmask c) \<longleftrightarrow> addr (operatorSlots c i) \<noteq> 0)
     \<and> (\<forall>i \<in> bits (operatorBitmask c). operatorSlotIndexes c (addr (operatorSlots c i)) = i)
     \<and> (\<forall>a. operatorSlotIndexes c a \<noteq> 0 \<longrightarrow> addr (operatorSlots c (operatorSlotIndexes c a)) = a)
     \<and> operatorSlotIndexes c 0 = 0"

text \<open>The keyspace in use: during a migration the one before the current version.\<close>

definition primary_sol_keyspace :: "Contract \<Rightarrow> SolKeyspace" where
  "primary_sol_keyspace c =
     keyspace_at (if pullingOperatorBitmask (c_migration c) = 0 then keyspaceVersion c else keyspaceVersion c - 1) c"

definition contract_wf :: "Contract \<Rightarrow> bool" where
  "contract_wf c \<longleftrightarrow>
     slots_wf c
     \<and> bits (ks_bitmask (primary_sol_keyspace c)) \<subseteq> bits (operatorBitmask c)
     \<and> (pullingOperatorBitmask (c_migration c) \<noteq> 0 \<longrightarrow>
          keyspaceVersion c \<noteq> 0
          \<and> bits (ks_bitmask (keyspace_at (keyspaceVersion c) c)) \<subseteq> bits (operatorBitmask c)
          \<and> bits (pullingOperatorBitmask (c_migration c)) \<subseteq> bits (ks_bitmask (keyspace_at (keyspaceVersion c) c)))"

named_theorems call_defs \<open>definitions of the transactions\<close>

lemmas [call_defs] = startMigration_def completeMigration_def abortMigration_def addNodeOperator_def
  updateNodeOperatorData_def removeNodeOperator_def setMaintenance_def updateSettings_def
  onlyOwner_def validateOperatorData_def checked_inc_def checked_dec_def emit_def Let_def

lemma unat_add_1: "x \<noteq> - 1 \<Longrightarrow> unat (x + 1 :: 'a::len word) = unat x + 1"
proof -
  assume "x \<noteq> - 1"
  then have "1 + x \<noteq> 0" by (metis add_eq_0_iff2 minus_equation_iff)
  then show "unat (x + 1) = unat x + 1" by (simp add: unatSuc add.commute)
qed

lemma parity_inc: "ver \<noteq> (- 1 :: u64) \<Longrightarrow> even (unat (ver + 1)) = odd (unat ver)"
proof -
  assume "ver \<noteq> - 1"
  then have "unat (ver + 1) = unat ver + 1"
    by (rule unat_add_1)
  then show ?thesis by simp
qed

lemma keyspace_at_inc:
  assumes "ver \<noteq> - 1"
  shows "keyspace_at ver (set_keyspace_at (ver + 1) ks c) = keyspace_at ver c"
    and "keyspace_at (ver + 1) (set_keyspace_at (ver + 1) ks c) = ks"
  using parity_inc [OF assms] by (auto simp: keyspace_at_def set_keyspace_at_def)

lemma slots_wf_put:
  assumes "slots_wf c" and "i \<notin> bits (operatorBitmask c)" and "addr op \<noteq> 0"
    and "\<forall>j \<in> bits (operatorBitmask c). addr (operatorSlots c j) \<noteq> addr op"
  shows "slots_wf (put_operator i op c)"
  using assms by (auto simp: slots_wf_def put_operator_def bitmask_simps)

lemma slots_wf_remove:
  assumes "slots_wf c" and "addr (operatorSlots c (operatorSlotIndexes c a)) = a"
  shows "slots_wf (c\<lparr>operatorSlots := (operatorSlots c)(operatorSlotIndexes c a := empty_operator),
          operatorSlotIndexes := (operatorSlotIndexes c)(a := 0),
          operatorBitmask := bm_unset (operatorBitmask c) (operatorSlotIndexes c a)\<rparr>)"
proof -
  have ne: "operatorSlotIndexes c b \<noteq> operatorSlotIndexes c a" if "b \<noteq> a" "operatorSlotIndexes c b \<noteq> 0" for b
  proof
    assume "operatorSlotIndexes c b = operatorSlotIndexes c a"
    moreover have "addr (operatorSlots c (operatorSlotIndexes c b)) = b"
      using assms(1) that(2) by (simp add: slots_wf_def)
    ultimately show False
      using assms(2) that(1) by simp
  qed
  show ?thesis
    using assms by (auto simp: slots_wf_def bitmask_simps empty_operator_def) (metis ne)
qed

text \<open>What an accepted transaction has checked, and its effect.\<close>

lemma startMigration_OkD:
  assumes "startMigration lb env ks c = Ok (c', e)"
  shows "msg_sender env = contract_owner env" "maintenanceSlot c = 0" "pullingOperatorBitmask (c_migration c) = 0"
    "bits (ks_bitmask ks) \<subseteq> bits (operatorBitmask c)"
    "\<not> (ks_bitmask (keyspace_at (keyspaceVersion c) c) = ks_bitmask ks
         \<and> replicationStrategy (keyspace_at (keyspaceVersion c) c) = replicationStrategy ks)"
    "\<not> bm_countSet lb (ks_bitmask ks) < ucast (minOperators (c_settings c))"
    "keyspaceVersion c \<noteq> - 1" "mig_id (c_migration c) \<noteq> - 1" "c_version c \<noteq> - 1"
    "c' = (set_keyspace_at (keyspaceVersion c + 1) ks c)\<lparr>
       c_migration := (c_migration c)\<lparr>mig_id := mig_id (c_migration c) + 1, startedAt := ucast (block_timestamp env),
           pullingOperatorBitmask := ks_bitmask ks\<rparr>,
       keyspaceVersion := keyspaceVersion c + 1, c_version := c_version c + 1\<rparr>"
    "e = SolMigrationStarted (mig_id (c_migration c) + 1) ks (keyspaceVersion c + 1) (c_version c + 1)"
  using assms
  by (auto simp: call_defs outcome_simps bitmask_simps set_keyspace_at_def word_gt_0 split: if_splits)

lemma completeMigration_OkD:
  assumes "completeMigration env id' c = Ok (c', e)"
  defines "i \<equiv> operatorSlotIndexes c (msg_sender env)"
  defines "pulling \<equiv> bm_unset (pullingOperatorBitmask (c_migration c)) i"
  shows "pullingOperatorBitmask (c_migration c) \<noteq> 0" "id' = mig_id (c_migration c)"
    "addr (operatorSlots c i) = msg_sender env" "i \<in> bits (pullingOperatorBitmask (c_migration c))" "c_version c \<noteq> - 1"
    "c' = c\<lparr>c_migration := (c_migration c)\<lparr>pullingOperatorBitmask := pulling\<rparr>, c_version := c_version c + 1\<rparr>"
    "e = (if pulling = 0 then SolMigrationCompleted else SolMigrationDataPullCompleted) id' (msg_sender env) (c_version c + 1)"
  using assms(1) by (auto simp: call_defs outcome_simps bitmask_simps i_def pulling_def split: if_splits)

lemma abortMigration_OkD:
  assumes "abortMigration env id' c = Ok (c', e)"
  shows "msg_sender env = contract_owner env" "pullingOperatorBitmask (c_migration c) \<noteq> 0" "id' = mig_id (c_migration c)"
    "keyspaceVersion c \<noteq> 0" "c_version c \<noteq> - 1"
    "c' = c\<lparr>c_migration := (c_migration c)\<lparr>abortedAt := ucast (block_timestamp env), pullingOperatorBitmask := 0\<rparr>,
            keyspaceVersion := keyspaceVersion c - 1, c_version := c_version c + 1\<rparr>"
    "e = SolMigrationAborted id' (c_version c + 1)"
  using assms by (auto simp: call_defs outcome_simps split: if_splits)

lemma addNodeOperator_OkD:
  assumes "addNodeOperator lb env op c = Ok (c', e)"
  defines "i \<equiv> bm_findFirstUnset lb (operatorBitmask c)"
  shows "msg_sender env = contract_owner env" "operatorBitmask c \<noteq> - 1" "addr op \<noteq> 0"
    "operatorSlotIndexes c (addr op) = 0" "addr (operatorSlots c 0) \<noteq> addr op" "c_version c \<noteq> - 1"
    "op_data op \<noteq> []" "length (op_data op) \<le> unat (maxOperatorDataBytes (c_settings c))"
    "c' = (put_operator i op c)\<lparr>c_version := c_version c + 1\<rparr>"
    "e = SolNodeOperatorAdded (addr op) i (op_data op) (c_version c + 1)"
  using assms(1) by (auto simp: call_defs outcome_simps i_def put_operator_def split: if_splits)

lemma updateNodeOperatorData_OkD:
  assumes "updateNodeOperatorData env a data c = Ok (c', e)"
  defines "i \<equiv> operatorSlotIndexes c a"
  shows "msg_sender env = a \<or> msg_sender env = contract_owner env" "addr (operatorSlots c i) = a" "c_version c \<noteq> - 1"
    "data \<noteq> []" "length data \<le> unat (maxOperatorDataBytes (c_settings c))"
    "c' = c\<lparr>operatorSlots := (operatorSlots c)(i := (operatorSlots c i)\<lparr>op_data := data\<rparr>), c_version := c_version c + 1\<rparr>"
    "e = SolNodeOperatorUpdated a i data (c_version c + 1)"
  using assms(1) by (auto simp: call_defs outcome_simps i_def split: if_splits)

lemma removeNodeOperator_OkD:
  assumes "removeNodeOperator lb env a c = Ok (c', e)"
  defines "i \<equiv> operatorSlotIndexes c a"
  shows "msg_sender env = contract_owner env" "addr (operatorSlots c i) = a" "c_version c \<noteq> - 1"
    "\<not> bm_countSet lb (operatorBitmask c) \<le> ucast (minOperators (c_settings c))"
    "i \<notin> bits (ks_bitmask (keyspace_at (keyspaceVersion c) c))"
    "pullingOperatorBitmask (c_migration c) \<noteq> 0 \<longrightarrow> i \<notin> bits (ks_bitmask (keyspace_at (keyspaceVersion c - 1) c))"
    "c' = c\<lparr>operatorSlots := (operatorSlots c)(i := empty_operator),
            operatorSlotIndexes := (operatorSlotIndexes c)(a := 0),
            operatorBitmask := bm_unset (operatorBitmask c) i, c_version := c_version c + 1\<rparr>"
    "e = SolNodeOperatorRemoved a i (c_version c + 1)"
  using assms(1)
  by (auto simp: call_defs outcome_simps i_def bitmask_simps word_gt_0 isSlotInKeyspace_def keyspace_at_def split: if_splits)

lemma setMaintenance_OkD:
  assumes "setMaintenance env active c = Ok (c', e)"
  shows "if active then maintenanceSlot c = 0 else maintenanceSlot c = msg_sender env \<or> msg_sender env = contract_owner env"
    "msg_sender env = contract_owner env \<or> addr (operatorSlots c (operatorSlotIndexes c (msg_sender env))) = msg_sender env"
    "c_version c \<noteq> - 1"
    "c' = c\<lparr>maintenanceSlot := (if active then msg_sender env else 0), c_version := c_version c + 1\<rparr>"
    "e = SolMaintenanceToggled (msg_sender env) active (c_version c + 1)"
  using assms by (auto simp: call_defs outcome_simps split: if_splits)

lemma updateSettings_OkD:
  assumes "updateSettings lb env s c = Ok (c', e)"
  shows "msg_sender env = contract_owner env" "\<not> bm_countSet lb (operatorBitmask c) < ucast (minOperators s)" "c_version c \<noteq> - 1"
    "c' = c\<lparr>c_settings := s, c_version := c_version c + 1\<rparr>"
    "e = SolSettingsUpdated s (msg_sender env) (c_version c + 1)"
  using assms by (auto simp: call_defs outcome_simps split: if_splits)

lemma slots_wf_cong:
  "operatorSlots c' = operatorSlots c \<Longrightarrow> operatorSlotIndexes c' = operatorSlotIndexes c \<Longrightarrow>
   operatorBitmask c' = operatorBitmask c \<Longrightarrow> slots_wf c' = slots_wf c"
  by (simp add: slots_wf_def)

lemma slots_wf_addr_cong:
  assumes "\<And>i. addr (operatorSlots c' i) = addr (operatorSlots c i)" and "operatorSlotIndexes c' = operatorSlotIndexes c"
    and "operatorBitmask c' = operatorBitmask c"
  shows "slots_wf c' = slots_wf c"
  unfolding slots_wf_def assms ..

lemma keyspace_at_cong: "c_keyspaces c' = c_keyspaces c \<Longrightarrow> keyspace_at ver c' = keyspace_at ver c"
  by (simp add: keyspace_at_def)

lemma contract_wf_cong:
  assumes "operatorSlots c' = operatorSlots c" "operatorSlotIndexes c' = operatorSlotIndexes c"
    "operatorBitmask c' = operatorBitmask c" "c_keyspaces c' = c_keyspaces c" "keyspaceVersion c' = keyspaceVersion c"
    "c_migration c' = c_migration c"
  shows "contract_wf c' = contract_wf c"
  unfolding contract_wf_def slots_wf_cong [OF assms(1-3)] primary_sol_keyspace_def assms(3,5,6) keyspace_at_cong [OF assms(4)] ..

lemma startMigration_wf:
  assumes "contract_wf c" and "startMigration lb env ks c = Ok (c', e)"
  shows "contract_wf c'"
proof -
  note d = startMigration_OkD [OF assms(2)]
  have ks: "keyspace_at ver c' = keyspace_at ver (set_keyspace_at (keyspaceVersion c + 1) ks c)" for ver
    by (simp add: d(10) keyspace_at_def)
  have primary: "primary_sol_keyspace c' = (if ks_bitmask ks = 0 then ks else keyspace_at (keyspaceVersion c) c)"
    unfolding primary_sol_keyspace_def ks by (simp add: d(10) keyspace_at_inc [OF d(7)])
  have ver: "keyspaceVersion c' = keyspaceVersion c + 1" "keyspaceVersion c + 1 \<noteq> 0"
    using d(7) unat_add_1 [OF d(7)] by (auto simp: d(10))
  have mask: "operatorBitmask c' = operatorBitmask c" "pullingOperatorBitmask (c_migration c') = ks_bitmask ks"
    and slots: "slots_wf c' = slots_wf c"
    by (simp_all add: d(10) set_keyspace_at_def slots_wf_def)
  show ?thesis
    using assms(1) d(3,4)
    by (auto simp: contract_wf_def mask slots primary ver ks keyspace_at_inc [OF d(7)] primary_sol_keyspace_def bitmask_simps)
qed

lemma completeMigration_wf:
  assumes "contract_wf c" and "completeMigration env id' c = Ok (c', e)"
  shows "contract_wf c'"
proof -
  note d = completeMigration_OkD [OF assms(2)]
  have ks: "keyspace_at ver c' = keyspace_at ver c" for ver
    by (simp add: d(6) keyspace_at_def)
  show ?thesis
    using assms(1) d(1)
    by (auto simp: contract_wf_def slots_wf_def primary_sol_keyspace_def ks) (auto simp: d(6) bitmask_simps)
qed

lemma abortMigration_wf:
  assumes "contract_wf c" and "abortMigration env id' c = Ok (c', e)"
  shows "contract_wf c'"
proof -
  note d = abortMigration_OkD [OF assms(2)]
  have ks: "keyspace_at ver c' = keyspace_at ver c" for ver
    by (simp add: d(6) keyspace_at_def)
  show ?thesis
    using assms(1) d(2) by (auto simp: contract_wf_def slots_wf_def primary_sol_keyspace_def ks) (auto simp: d(6))
qed

lemma addNodeOperator_wf:
  assumes "contract_wf c" and lb: "lib_bit_documented lb" and "addNodeOperator lb env op c = Ok (c', e)"
  shows "contract_wf c'"
proof -
  note d = addNodeOperator_OkD [OF assms(3)]
  let ?i = "bm_findFirstUnset lb (operatorBitmask c)"
  have ks: "keyspace_at ver c' = keyspace_at ver c" for ver
    by (simp add: d(9) put_operator_def keyspace_at_def)
  have slots: "slots_wf c" using assms(1) by (simp add: contract_wf_def)
  have "addr (operatorSlots c j) \<noteq> addr op" if "j \<in> bits (operatorBitmask c)" for j
    using slots that d(4,5) by (metis slots_wf_def)
  then have "slots_wf c'"
    using slots_wf_put [OF slots findFirstUnset_notin [OF lb d(2)] d(3)] by (simp add: d(9) slots_wf_def)
  then show ?thesis
    using assms(1) by (auto simp: contract_wf_def primary_sol_keyspace_def ks) (auto simp: d(9) put_operator_def bitmask_simps)
qed

lemma updateNodeOperatorData_wf:
  assumes "contract_wf c" and "updateNodeOperatorData env a data c = Ok (c', e)"
  shows "contract_wf c'"
proof -
  note d = updateNodeOperatorData_OkD [OF assms(2)]
  have ks: "keyspace_at ver c' = keyspace_at ver c" for ver
    by (simp add: d(6) keyspace_at_def)
  have "slots_wf c' = slots_wf c"
    using d(2) by (intro slots_wf_addr_cong) (simp_all add: d(6))
  then show ?thesis
    using assms(1) unfolding contract_wf_def primary_sol_keyspace_def ks by (simp add: d(6) split: if_splits)
qed

lemma removeNodeOperator_wf:
  assumes "contract_wf c" and "removeNodeOperator lb env a c = Ok (c', e)"
  shows "contract_wf c'"
proof -
  note d = removeNodeOperator_OkD [OF assms(2)]
  have ks: "keyspace_at ver c' = keyspace_at ver c" for ver
    by (simp add: d(7) keyspace_at_def)
  have "slots_wf c'"
    using slots_wf_remove [OF _ d(2)] assms(1) by (simp add: d(7) contract_wf_def slots_wf_def)
  then show ?thesis
    using assms(1) d(5,6) by (auto simp: contract_wf_def primary_sol_keyspace_def ks) (auto simp: d(7) bitmask_simps)
qed

lemma setMaintenance_wf:
  assumes "contract_wf c" and "setMaintenance env b c = Ok (c', e)"
  shows "contract_wf c'"
proof -
  have "contract_wf c' = contract_wf c"
    by (rule contract_wf_cong) (simp_all add: setMaintenance_OkD(4) [OF assms(2)])
  with assms(1) show ?thesis by simp
qed

lemma updateSettings_wf:
  assumes "contract_wf c" and "updateSettings lb env s c = Ok (c', e)"
  shows "contract_wf c'"
proof -
  have "contract_wf c' = contract_wf c"
    by (rule contract_wf_cong) (simp_all add: updateSettings_OkD(4) [OF assms(2)])
  with assms(1) show ?thesis by simp
qed

lemma exec_call_wf:
  assumes "contract_wf c" and "lib_bit_documented lb" and "exec_call lb env call c = Ok (c', e)"
  shows "contract_wf c'"
  using assms(3)
proof (cases call)
  case (CStartMigration ks)
  with assms(3) show ?thesis using startMigration_wf [OF assms(1)] by simp
next
  case (CCompleteMigration id')
  with assms(3) show ?thesis using completeMigration_wf [OF assms(1)] by simp
next
  case (CAbortMigration id')
  with assms(3) show ?thesis using abortMigration_wf [OF assms(1)] by simp
next
  case (CAddNodeOperator op)
  with assms(3) show ?thesis using addNodeOperator_wf [OF assms(1,2)] by simp
next
  case (CUpdateNodeOperatorData a d)
  with assms(3) show ?thesis using updateNodeOperatorData_wf [OF assms(1)] by simp
next
  case (CRemoveNodeOperator a)
  with assms(3) show ?thesis using removeNodeOperator_wf [OF assms(1)] by simp
next
  case (CSetMaintenance b)
  with assms(3) show ?thesis using setMaintenance_wf [OF assms(1)] by simp
next
  case (CUpdateSettings s)
  with assms(3) show ?thesis using updateSettings_wf [OF assms(1)] by simp
qed

lemma exec_call_version:
  assumes "exec_call lb env call c = Ok (c', e)"
  shows "c_version c \<noteq> - 1 \<and> c_version c' = c_version c + 1"
proof (cases call)
  case (CStartMigration ks)
  with assms show ?thesis by (auto dest: startMigration_OkD(9,10))
next
  case (CCompleteMigration id')
  with assms show ?thesis by (auto dest: completeMigration_OkD(5,6))
next
  case (CAbortMigration id')
  with assms show ?thesis by (auto dest: abortMigration_OkD(5,6))
next
  case (CAddNodeOperator op)
  with assms show ?thesis by (auto dest: addNodeOperator_OkD(6,9))
next
  case (CUpdateNodeOperatorData a d)
  with assms show ?thesis by (auto dest: updateNodeOperatorData_OkD(3,6))
next
  case (CRemoveNodeOperator a)
  with assms show ?thesis by (auto dest: removeNodeOperator_OkD(3,7))
next
  case (CSetMaintenance b)
  with assms show ?thesis by (auto dest: setMaintenance_OkD(3,4))
next
  case (CUpdateSettings s)
  with assms show ?thesis by (auto dest: updateSettings_OkD(3,4))
qed

lemma validateOperatorData_Ok: "validateOperatorData d s = Ok u \<longleftrightarrow> d \<noteq> [] \<and> length d \<le> unat (maxOperatorDataBytes s)"
  by (auto simp: validateOperatorData_def outcome_simps)

lemma init_operator_Ok:
  "init_operator (n, op) c = Ok c' \<longleftrightarrow>
     op_data op \<noteq> [] \<and> length (op_data op) \<le> unat (maxOperatorDataBytes (c_settings c))
     \<and> of_nat n \<notin> bits (operatorBitmask c) \<and> c' = put_operator (of_nat n) op c"
  by (auto simp: init_operator_def Let_def outcome_simps validateOperatorData_Ok bitmask_simps)

text \<open>The loop of \<open>initialize\<close> fills the slots from the first one on.\<close>

lemma init_loop:
  assumes "try_fold init_operator (enumerate n ops) c = Ok c'" and "n + length ops \<le> 256"
    and "slots_wf c" and "bits (operatorBitmask c) = of_nat ` {..<n}"
    and "distinct (map addr ops)" and "0 \<notin> addr ` set ops"
    and "\<forall>i \<in> bits (operatorBitmask c). addr (operatorSlots c i) \<notin> addr ` set ops"
  shows "slots_wf c' \<and> bits (operatorBitmask c') = of_nat ` {..<n + length ops}
    \<and> c_keyspaces c' = c_keyspaces c \<and> c_migration c' = c_migration c \<and> keyspaceVersion c' = keyspaceVersion c"
  using assms
proof (induction ops arbitrary: n c)
  case Nil
  then show ?case by simp
next
  case (Cons op ops)
  let ?d = "put_operator (of_nat n) op c"
  have step: "try_fold init_operator (enumerate (Suc n) ops) ?d = Ok c'"
    using Cons.prems(1) by (auto simp: init_operator_Ok outcome_simps)
  have free: "of_nat n \<notin> bits (operatorBitmask c)"
  proof
    assume "of_nat n \<in> bits (operatorBitmask c)"
    then obtain k where "k < n" "(of_nat n :: u8) = of_nat k"
      using Cons.prems(4) by auto
    moreover from this(2) have "unat (of_nat n :: u8) = unat (of_nat k :: u8)"
      by simp
    then have "n mod 256 = k mod 256"
      by (simp add: unat_of_nat)
    ultimately show False
      using Cons.prems(2) by simp
  qed
  have "slots_wf ?d"
    using Cons.prems(3,6,7) free by (intro slots_wf_put) auto
  moreover have "bits (operatorBitmask ?d) = of_nat ` {..<Suc n}"
    using Cons.prems(4) by (simp add: put_operator_def bitmask_simps lessThan_Suc)
  moreover have "\<forall>i \<in> bits (operatorBitmask ?d). addr (operatorSlots ?d i) \<notin> addr ` set ops"
    using Cons.prems(5,7) by (auto simp: put_operator_def bitmask_simps)
  ultimately show ?case
    using Cons.IH [OF step] Cons.prems(2,5,6) by (simp add: put_operator_def)
qed

lemma sol_initialize_wf:
  assumes "distinct (map addr ops)" and "0 \<notin> addr ` set ops" and "sol_initialize s ops blank_contract = Ok (c, e)"
  shows "contract_wf c" and "bits (operatorBitmask c) = of_nat ` {..<length ops}"
proof -
  let ?b = "blank_contract\<lparr>c_settings := s\<rparr>"
  obtain d where len: "length ops \<le> 256"
    and loop: "try_fold init_operator (enumerate 0 ops) ?b = Ok d"
    and c: "operatorSlots c = operatorSlots d" "operatorSlotIndexes c = operatorSlotIndexes d" "operatorBitmask c = operatorBitmask d"
      "c_migration c = c_migration d" "keyspaceVersion c = keyspaceVersion d"
      "ks_bitmask (fst (c_keyspaces c)) = bm_fill (of_nat (length ops))"
    using assms(3) by (auto simp: sol_initialize_def emit_def outcome_simps checked_inc_def Let_def MAX_OPERATORS_SOL_def split: if_splits)
  have "slots_wf ?b"
    by (simp add: slots_wf_def blank_contract_def bitmask_simps empty_operator_def)
  then have d: "slots_wf d" "bits (operatorBitmask d) = of_nat ` {..<length ops}"
    "c_migration d = c_migration ?b" "keyspaceVersion d = keyspaceVersion ?b"
    using init_loop [OF loop] len assms(1,2) by (auto simp: blank_contract_def bitmask_simps)
  show mask: "bits (operatorBitmask c) = of_nat ` {..<length ops}"
    using d c by simp
  have "primary_sol_keyspace c = fst (c_keyspaces c)"
    using c d by (simp add: primary_sol_keyspace_def blank_contract_def keyspace_at_def)
  then show "contract_wf c"
    using c d mask bits_fill [OF len] by (simp add: contract_wf_def slots_wf_cong [OF c(1-3)] blank_contract_def)
qed

lemma reachable_contract_wf:
  assumes "lib_bit_documented lb" and "reachable_contract lb c"
  shows "contract_wf c"
  using assms(2)
proof induction
  case (init ops s c e)
  then show ?case by (rule sol_initialize_wf(1))
next
  case (step c env call c' e)
  then show ?case using exec_call_wf [OF _ assms(1)] by blast
qed


definition sample_contract_settings :: SolSettings where
  "sample_contract_settings = \<lparr>maxOperatorDataBytes = 100, minOperators = 1, extra_bytes = []\<rparr>"

definition sample_contract_operators :: "SolNodeOperator list" where
  "sample_contract_operators = [\<lparr>addr = 7, op_data = [1]\<rparr>, \<lparr>addr = 9, op_data = [2]\<rparr>]"

lemma sample_initialize:
  "\<exists>c e. sol_initialize sample_contract_settings sample_contract_operators blank_contract = Ok (c, e)
         \<and> operatorBitmask c = 3 \<and> c_version c = 1"
  by (simp add: sol_initialize_def sample_contract_operators_def sample_contract_settings_def blank_contract_def
      init_operator_def validateOperatorData_def put_operator_def emit_def checked_inc_def MAX_OPERATORS_SOL_def
      bm_isSet_def bm_set_def outcome_simps)


end
