(* ===== verification/Evm_Contract.thy ===== *)
theory Evm_Contract
  imports Cluster_Contract Node_Operators
begin

text \<open>
  Model of the conversions of \<open>crates/cluster/src/smart_contract/evm.rs\<close> between the types of the Rust
  code and those of the Solidity contract, and of the calls that the \<open>Write\<close> trait makes on the contract.
  Account addresses are the same 20 bytes on both sides. Sending transactions, waiting for receipts
  and subscribing to logs is the work of the \<open>alloy\<close> library and is not modelled; the timestamp of the
  block of a log is the argument \<open>timestamp\<close>.
\<close>

section \<open>Data\<close>

definition NodeOperator_into_sol :: "ScNodeOperator \<Rightarrow> SolNodeOperator" where
  "NodeOperator_into_sol op = \<lparr>addr = sc_operator_id op, op_data = sc_operator_data op\<rparr>"

definition NodeOperator_from_sol :: "SolNodeOperator \<Rightarrow> ScNodeOperator" where
  "NodeOperator_from_sol op = \<lparr>sc_operator_id = addr op, sc_operator_data = op_data op\<rparr>"

definition Settings_into_sol :: "ScSettings \<Rightarrow> SolSettings" where
  "Settings_into_sol s =
     \<lparr>maxOperatorDataBytes = sc_max_node_operator_data_bytes s, minOperators = of_nat MIN_OPERATORS,
      extra_bytes = sc_extra s\<rparr>"

definition Settings_from_sol :: "SolSettings \<Rightarrow> ScSettings" where
  "Settings_from_sol s =
     \<lparr>sc_max_node_operator_data_bytes = maxOperatorDataBytes s, sc_extra = extra_bytes s\<rparr>"

text \<open>The loops over \<open>0..=u8::MAX\<close> and over the operators, with \<open>U256::bit\<close> and \<open>U256::set_bit\<close>.\<close>

definition bitmask_to_hashset :: "u256 \<Rightarrow> u8 set" where
  "bitmask_to_hashset bitmask =
     fold (\<lambda>idx s. if bit bitmask (unat idx) then insert idx s else s) (map of_nat [0..<256]) {}"

definition Keyspace_into_sol :: "ScKeyspace \<Rightarrow> SolKeyspace" where
  "Keyspace_into_sol ks =
     \<lparr>ks_bitmask = fold (\<lambda>idx m. set_bit (unat idx) m) (sorted_list_of_set (sc_keyspace_operators ks)) 0,
      replicationStrategy = sc_replication_strategy ks\<rparr>"

definition Keyspace_from_sol :: "SolKeyspace \<Rightarrow> ScKeyspace" where
  "Keyspace_from_sol ks =
     \<lparr>sc_keyspace_operators = bitmask_to_hashset (ks_bitmask ks), sc_replication_strategy = replicationStrategy ks\<rparr>"

definition Migration_from_sol :: "SolMigration \<Rightarrow> ScMigration" where
  "Migration_from_sol m =
     \<lparr>sc_migration_id = mig_id m, sc_pulling_operators = bitmask_to_hashset (pullingOperatorBitmask m),
      sc_started_at = startedAt m,
      sc_aborted_at = (if abortedAt m \<ge> startedAt m \<and> pullingOperatorBitmask m = 0 then Some (abortedAt m) else None)\<rparr>"

definition ClusterView_from_sol :: "SolClusterView \<Rightarrow> ScClusterView" where
  "ClusterView_from_sol v =
     \<lparr>sc_owner = sv_owner v, sc_settings = Settings_from_sol (sv_settings v),
      sc_node_operators = map (\<lambda>slot. if addr slot = 0 then None else Some (NodeOperator_from_sol slot)) (sv_operatorSlots v),
      sc_keyspaces = (Keyspace_from_sol (fst (sv_keyspaces v)), Keyspace_from_sol (snd (sv_keyspaces v))),
      sc_keyspace_version = sv_keyspaceVersion v, sc_migration = Migration_from_sol (sv_migration v),
      sc_maintenance = \<lparr>sc_slot = (if sv_maintenanceSlot v = 0 then None else Some (sv_maintenanceSlot v))\<rparr>,
      sc_cluster_version = sv_version v\<rparr>"

section \<open>Events\<close>

definition from_migration_started :: "u64 \<Rightarrow> SolKeyspace \<Rightarrow> u128 \<Rightarrow> u64 \<Rightarrow> Event" where
  "from_migration_started id' newKeyspace version timestamp =
     EvMigrationStarted \<lparr>ms_migration_id = id', ms_new_keyspace = Keyspace_from_sol newKeyspace,
       ms_at = timestamp, ms_cluster_version = version\<rparr>"

definition from_migration_aborted :: "u64 \<Rightarrow> u128 \<Rightarrow> u64 \<Rightarrow> Event" where
  "from_migration_aborted id' version timestamp =
     EvMigrationAborted \<lparr>ma_migration_id = id', ma_at = timestamp, ma_cluster_version = version\<rparr>"

fun Event_from_sol :: "u64 \<Rightarrow> SolEvent \<Rightarrow> Event option" where
  "Event_from_sol ts (SolMaintenanceToggled operator active version) =
     Some (if active then EvMaintenanceStarted \<lparr>mts_by = operator, mts_cluster_version = version\<rparr>
           else EvMaintenanceFinished \<lparr>mtf_cluster_version = version\<rparr>)"
| "Event_from_sol ts (SolMigrationAborted id' version) = Some (from_migration_aborted id' version ts)"
| "Event_from_sol ts (SolMigrationCompleted id' operator version) =
     Some (EvMigrationCompleted \<lparr>mc_migration_id = id', mc_operator_id = operator, mc_cluster_version = version\<rparr>)"
| "Event_from_sol ts (SolMigrationDataPullCompleted id' operator version) =
     Some (EvMigrationDataPullCompleted \<lparr>mp_migration_id = id', mp_operator_id = operator, mp_cluster_version = version\<rparr>)"
| "Event_from_sol ts (SolMigrationStarted id' newKeyspace _ version) = Some (from_migration_started id' newKeyspace version ts)"
| "Event_from_sol ts (SolNodeOperatorAdded operator slot operatorData version) =
     Some (EvNodeOperatorAdded \<lparr>noa_idx = slot,
       noa_operator = NodeOperator_from_sol \<lparr>addr = operator, op_data = operatorData\<rparr>, noa_cluster_version = version\<rparr>)"
| "Event_from_sol ts (SolNodeOperatorRemoved operator slot version) =
     Some (EvNodeOperatorRemoved \<lparr>nor_id = operator, nor_cluster_version = version\<rparr>)"
| "Event_from_sol ts (SolNodeOperatorUpdated operator slot operatorData version) =
     Some (EvNodeOperatorUpdated \<lparr>nou_operator = NodeOperator_from_sol \<lparr>addr = operator, op_data = operatorData\<rparr>,
       nou_cluster_version = version\<rparr>)"
| "Event_from_sol ts (SolSettingsUpdated newSettings _ version) =
     Some (EvSettingsUpdated \<lparr>su_settings = Settings_from_sol newSettings, su_cluster_version = version\<rparr>)"
| "Event_from_sol ts (ClusterInitialized _ _ _) = None"

section \<open>Calls\<close>

text \<open>The calls of the \<open>Write\<close> trait on the contract; ownership calls go to OpenZeppelin's code.\<close>

datatype WriteCall =
    WStartMigration ScKeyspace | WCompleteMigration u64 | WAbortMigration u64
  | WStartMaintenance | WFinishMaintenance
  | WAddNodeOperator ScNodeOperator | WUpdateNodeOperator ScNodeOperator | WRemoveNodeOperator operator_id
  | WUpdateSettings ScSettings | WTransferOwnership AccountAddress | WAcceptOwnership

fun contract_call :: "WriteCall \<Rightarrow> ContractCall option" where
  "contract_call (WStartMigration ks) = Some (CStartMigration (Keyspace_into_sol ks))"
| "contract_call (WCompleteMigration id') = Some (CCompleteMigration id')"
| "contract_call (WAbortMigration id') = Some (CAbortMigration id')"
| "contract_call WStartMaintenance = Some (CSetMaintenance True)"
| "contract_call WFinishMaintenance = Some (CSetMaintenance False)"
| "contract_call (WAddNodeOperator op) = Some (CAddNodeOperator (NodeOperator_into_sol op))"
| "contract_call (WUpdateNodeOperator op) =
     (let op = NodeOperator_into_sol op in Some (CUpdateNodeOperatorData (addr op) (op_data op)))"
| "contract_call (WRemoveNodeOperator id') = Some (CRemoveNodeOperator id')"
| "contract_call (WUpdateSettings s) = Some (CUpdateSettings (Settings_into_sol s))"
| "contract_call (WTransferOwnership _) = None"
| "contract_call WAcceptOwnership = None"

section \<open>Lemmas\<close>

lemma all_u8: "set (map (of_nat :: nat \<Rightarrow> u8) [0..<256]) = UNIV"
proof -
  have "i \<in> of_nat ` {0..<256}" for i :: u8
  proof (rule image_eqI)
    show "i = of_nat (unat i)" by simp
    show "unat i \<in> {0..<256}" by simp
  qed
  then show ?thesis
    unfolding set_map set_upt by blast
qed

lemma bitmask_to_hashset_eq [bitmask_simps]: "bitmask_to_hashset m = bits m"
proof -
  have "fold (\<lambda>idx s. if bit m (unat idx) then insert idx s else s) xs s = s \<union> (bits m \<inter> set xs)" for xs s
    by (induction xs arbitrary: s) (auto simp: in_bits)
  then show ?thesis
    by (simp only: bitmask_to_hashset_def all_u8) simp
qed

lemma bits_set_bit [bitmask_simps]: "bits (set_bit (unat i) m) = insert i (bits m)"
  by (auto simp: in_bits bit_set_bit_iff unat_u8_eq_iff)

lemma bits_Keyspace_into_sol [bitmask_simps]: "bits (ks_bitmask (Keyspace_into_sol ks)) = sc_keyspace_operators ks"
proof -
  have "bits (fold (\<lambda>idx m. set_bit (unat idx) m) xs m) = bits m \<union> set xs" for xs :: "u8 list" and m
    by (induction xs arbitrary: m) (auto simp: bits_set_bit)
  then show ?thesis
    by (simp add: Keyspace_into_sol_def bits_0)
qed

text \<open>
  C31. What the API writes to the chain is what the nodes read from it: keyspaces, node operators and
  settings survive the conversion to the contract's types and back.
\<close>

theorem sol_conversions_roundtrip:
  "Keyspace_from_sol (Keyspace_into_sol ks) = ks
   \<and> NodeOperator_from_sol (NodeOperator_into_sol op) = op
   \<and> Settings_from_sol (Settings_into_sol s) = s"
proof (intro conjI)
  have "sc_keyspace_operators (Keyspace_from_sol (Keyspace_into_sol ks)) = sc_keyspace_operators ks"
    by (simp add: Keyspace_from_sol_def bitmask_simps)
  then show "Keyspace_from_sol (Keyspace_into_sol ks) = ks"
    by (simp add: Keyspace_from_sol_def Keyspace_into_sol_def)
qed (simp_all add: NodeOperator_from_sol_def NodeOperator_into_sol_def Settings_from_sol_def Settings_into_sol_def)

end
