(* ===== verification/Cluster_Api.thy ===== *)
theory Cluster_Api
  imports Cluster_View Evm_Contract
begin

text \<open>
  Model of \<open>crates/cluster/src/lib.rs\<close> and \<open>task.rs\<close>: the handle of a cluster, its construction, the
  operations that check a request against the current view before they call the contract, and the
  background task that keeps the view up to date. The contract is a parameter: \<open>write\<close> is the outcome
  of a call, a \<open>read_contract\<close> holds what its two read functions return. An event stream is the list
  of the items it delivers before it ends or the invalidation timer stops the loop.
\<close>

section \<open>Construction\<close>

record read_contract =
  rc_events :: "(ReadError, (ReadError, Event) outcome list) outcome"
  rc_cluster_view :: "(ReadError, ScClusterView) outcome"

text \<open>The fields of \<open>Inner\<close>; \<open>cl_updates\<close> counts the sends on the watch channel.\<close>

record ('n, 's) Cluster =
  cl_config :: "'n config"
  cl_view :: "('n, 's) View"
  cl_updates :: nat

datatype CreationError = CrInvalidClusterView ViewTryFromError | CrSmartContractRead ReadError

datatype ClDeploymentError =
    DpInvalidSettings SettingsTryIntoError
  | DpNodeOperatorsCreation NodeOperatorsCreationError
  | DpInvalidNodeOperator NodeOperatorTryIntoError
  | DpInvalidClusterView ViewTryFromError
  | DpDataTooLarge DataTooLargeError
  | DpSmartContractRead ReadError
  | DpSmartContract DeploymentError

datatype ClConnectionError =
    CnSmartContract ConnectionError
  | CnSmartContractRead ReadError
  | CnInvalidClusterView ViewTryFromError

fun DeploymentError_from :: "CreationError \<Rightarrow> ClDeploymentError" where
  "DeploymentError_from (CrInvalidClusterView e) = DpInvalidClusterView e"
| "DeploymentError_from (CrSmartContractRead e) = DpSmartContractRead e"

fun ConnectionError_from :: "CreationError \<Rightarrow> ClConnectionError" where
  "ConnectionError_from (CrInvalidClusterView e) = CnInvalidClusterView e"
| "ConnectionError_from (CrSmartContractRead e) = CnSmartContractRead e"

text \<open>The cluster and the event stream that its task starts with.\<close>

definition Cluster_new ::
  "third_party \<Rightarrow> (unit Keyspace \<Rightarrow> 's Keyspace option) \<Rightarrow> 'n config \<Rightarrow> read_contract
   \<Rightarrow> (CreationError, ('n, 's) Cluster \<times> (ReadError, Event) outcome list) outcome" where
  "Cluster_new tp calc cfg contract =
     and_then (map_err CrSmartContractRead (rc_events contract)) (\<lambda>events.
     and_then (map_err CrSmartContractRead (rc_cluster_view contract)) (\<lambda>sc.
     let (cfg, r) = View_try_from_sc tp calc sc cfg in
     and_then (map_err CrInvalidClusterView r) (\<lambda>view.
     Ok (\<lparr>cl_config = cfg, cl_view = view, cl_updates = 0\<rparr>, events))))"

definition Cluster_deploy ::
  "third_party \<Rightarrow> (unit Keyspace \<Rightarrow> 's Keyspace option) \<Rightarrow> 'n config
   \<Rightarrow> (ScSettings \<Rightarrow> ScNodeOperator list \<Rightarrow> (DeploymentError, read_contract) outcome)
   \<Rightarrow> Settings \<Rightarrow> Node NodeOperator list
   \<Rightarrow> (ClDeploymentError, ('n, 's) Cluster \<times> (ReadError, Event) outcome list) outcome" where
  "Cluster_deploy tp calc cfg deployer initial_settings initial_operators =
     and_then (map_err DpNodeOperatorsCreation (from_slots (map Some initial_operators))) (\<lambda>ops.
     and_then (map_err DpInvalidNodeOperator
                 (try_map (NodeOperator_try_into_sc tp (cfg_encryption_key cfg))
                    (List.map_filter (\<lambda>slot. slot) (slots ops)))) (\<lambda>operators.
     and_then (map_err DpInvalidSettings (Settings_try_into_sc (tp_extra_v1 tp) initial_settings)) (\<lambda>settings.
     and_then (map_err DpSmartContract (deployer settings operators)) (\<lambda>contract.
     map_err DeploymentError_from (Cluster_new tp calc cfg contract)))))"

definition Cluster_connect ::
  "third_party \<Rightarrow> (unit Keyspace \<Rightarrow> 's Keyspace option) \<Rightarrow> 'n config
   \<Rightarrow> (AccountAddress \<Rightarrow> (ConnectionError, read_contract) outcome) \<Rightarrow> AccountAddress
   \<Rightarrow> (ClConnectionError, ('n, 's) Cluster \<times> (ReadError, Event) outcome list) outcome" where
  "Cluster_connect tp calc cfg connector contract_address =
     and_then (map_err CnSmartContract (connector contract_address)) (\<lambda>contract.
     map_err ConnectionError_from (Cluster_new tp calc cfg contract))"

definition Cluster_contains_node :: "('n \<Rightarrow> PeerId) \<Rightarrow> ('n, 's) Cluster \<Rightarrow> PeerId \<Rightarrow> bool" where
  "Cluster_contains_node peer_of cl peer_id = contains_node peer_of (view_node_operators (cl_view cl)) peer_id"

section \<open>Requests\<close>

text \<open>Each request first checks the view and yields the call, then makes it.\<close>

datatype NoSmartContractSignerError = NoSmartContractSignerError

definition smart_contract_signer :: "AccountAddress option \<Rightarrow> (NoSmartContractSignerError, AccountAddress) outcome" where
  "smart_contract_signer signer = ok_or NoSmartContractSignerError signer"

datatype StartMigrationError =
    SmNotOwner NotOwnerError
  | SmMigrationInProgress MigrationInProgressError
  | SmMaintenanceInProgress MaintenanceInProgressError
  | SmUnknownOperator OperatorNotFoundError
  | SmNotInKeyspace operator_id
  | SmAlreadyInKeyspace operator_id
  | SmKeyspaceCreation KeyspaceCreationError
  | SmSameKeyspace SameKeyspaceError
  | SmNoSigner NoSmartContractSignerError
  | SmSmartContract WriteError

definition plan_remove_step ::
  "('n, 's) View \<Rightarrow> operator_id \<Rightarrow> operator_idx set \<Rightarrow> (StartMigrationError, operator_idx set) outcome" where
  "plan_remove_step v id' new_operators =
     and_then (map_err SmUnknownOperator (require_idx (view_node_operators v) id')) (\<lambda>idx.
     and_then (guard_oc (contains_operator (view_keyspace v) idx) (SmNotInKeyspace id')) (\<lambda>_.
     Ok (new_operators - {idx})))"

definition plan_add_step ::
  "('n, 's) View \<Rightarrow> operator_id \<Rightarrow> operator_idx set \<Rightarrow> (StartMigrationError, operator_idx set) outcome" where
  "plan_add_step v id' new_operators =
     and_then (map_err SmUnknownOperator (require_idx (view_node_operators v) id')) (\<lambda>idx.
     and_then (guard_oc (\<not> contains_operator (view_keyspace v) idx) (SmAlreadyInKeyspace id')) (\<lambda>_.
     Ok (insert idx new_operators)))"

definition start_migration_call ::
  "AccountAddress option \<Rightarrow> ('n, 's) View \<Rightarrow> Plan \<Rightarrow> (StartMigrationError, WriteCall) outcome" where
  "start_migration_call signer v plan =
     and_then (map_err SmNoSigner (smart_contract_signer signer)) (\<lambda>signer.
     and_then (map_err SmNotOwner (require_owner (view_ownership v) signer)) (\<lambda>_.
     and_then (map_err SmMigrationInProgress (require_no_migration v)) (\<lambda>_.
     and_then (map_err SmMaintenanceInProgress (require_no_maintenance v)) (\<lambda>_.
     and_then (try_fold (plan_remove_step v) (sorted_list_of_set (plan_remove plan)) (ks_operators (view_keyspace v)))
       (\<lambda>new_operators.
     and_then (try_fold (plan_add_step v) (sorted_list_of_set (plan_add plan)) new_operators) (\<lambda>new_operators.
     and_then (map_err SmKeyspaceCreation (Keyspace_new new_operators (plan_replication_strategy plan))) (\<lambda>new_keyspace.
     and_then (map_err SmSameKeyspace (require_diff (view_keyspace v) new_keyspace)) (\<lambda>_.
     Ok (WStartMigration (Keyspace_into_sc new_keyspace))))))))))"

definition api_start_migration ::
  "(WriteCall \<Rightarrow> (WriteError, unit) outcome) \<Rightarrow> AccountAddress option \<Rightarrow> ('n, 's) View \<Rightarrow> Plan
   \<Rightarrow> (StartMigrationError, unit) outcome" where
  "api_start_migration write_sc signer v plan =
     and_then (start_migration_call signer v plan) (\<lambda>call. map_err SmSmartContract (write_sc call))"

datatype CompleteMigrationError =
    CmUnknownOperator OperatorNotFoundError
  | CmNoMigration MigrationNotFoundError
  | CmWrongMigrationId WrongIdError
  | CmOperatorNotPulling OperatorNotPullingError
  | CmNoSigner NoSmartContractSignerError
  | CmSmartContract WriteError

definition complete_migration_call ::
  "AccountAddress option \<Rightarrow> ('n, 's) View \<Rightarrow> migration_ident \<Rightarrow> (CompleteMigrationError, WriteCall) outcome" where
  "complete_migration_call signer v id' =
     and_then (map_err CmNoSigner (smart_contract_signer signer)) (\<lambda>signer.
     and_then (map_err CmUnknownOperator (require_idx (view_node_operators v) signer)) (\<lambda>operator_idx.
     and_then (map_err CmNoMigration (require_migration v)) (\<lambda>mig.
     and_then (map_err CmWrongMigrationId (require_id mig id')) (\<lambda>_.
     and_then (map_err CmOperatorNotPulling (require_pulling mig operator_idx)) (\<lambda>_.
     Ok (WCompleteMigration id'))))))"

definition api_complete_migration ::
  "(WriteCall \<Rightarrow> (WriteError, unit) outcome) \<Rightarrow> AccountAddress option \<Rightarrow> ('n, 's) View \<Rightarrow> migration_ident
   \<Rightarrow> (CompleteMigrationError, unit) outcome" where
  "api_complete_migration write_sc signer v id' =
     and_then (complete_migration_call signer v id') (\<lambda>call. map_err CmSmartContract (write_sc call))"

datatype AbortMigrationError =
    AmNotOwner NotOwnerError
  | AmNoMigration MigrationNotFoundError
  | AmWrongMigrationId WrongIdError
  | AmNoSigner NoSmartContractSignerError
  | AmSmartContract WriteError

definition abort_migration_call ::
  "AccountAddress option \<Rightarrow> ('n, 's) View \<Rightarrow> migration_ident \<Rightarrow> (AbortMigrationError, WriteCall) outcome" where
  "abort_migration_call signer v id' =
     and_then (map_err AmNoSigner (smart_contract_signer signer)) (\<lambda>signer.
     and_then (map_err AmNotOwner (require_owner (view_ownership v) signer)) (\<lambda>_.
     and_then (map_err AmNoMigration (require_migration v)) (\<lambda>mig.
     and_then (map_err AmWrongMigrationId (require_id mig id')) (\<lambda>_.
     Ok (WAbortMigration id')))))"

definition api_abort_migration ::
  "(WriteCall \<Rightarrow> (WriteError, unit) outcome) \<Rightarrow> AccountAddress option \<Rightarrow> ('n, 's) View \<Rightarrow> migration_ident
   \<Rightarrow> (AbortMigrationError, unit) outcome" where
  "api_abort_migration write_sc signer v id' =
     and_then (abort_migration_call signer v id') (\<lambda>call. map_err AmSmartContract (write_sc call))"

datatype StartMaintenanceError =
    StUnauthorized
  | StMigrationInProgress MigrationInProgressError
  | StMaintenanceInProgress MaintenanceInProgressError
  | StNoSigner NoSmartContractSignerError
  | StSmartContract WriteError

definition start_maintenance_call ::
  "AccountAddress option \<Rightarrow> ('n, 's) View \<Rightarrow> (StartMaintenanceError, WriteCall) outcome" where
  "start_maintenance_call signer v =
     and_then (map_err StNoSigner (smart_contract_signer signer)) (\<lambda>signer.
     and_then (guard_oc (contains (view_node_operators v) signer \<or> is_owner (view_ownership v) signer) StUnauthorized) (\<lambda>_.
     and_then (map_err StMigrationInProgress (require_no_migration v)) (\<lambda>_.
     and_then (map_err StMaintenanceInProgress (require_no_maintenance v)) (\<lambda>_.
     Ok WStartMaintenance))))"

definition api_start_maintenance ::
  "(WriteCall \<Rightarrow> (WriteError, unit) outcome) \<Rightarrow> AccountAddress option \<Rightarrow> ('n, 's) View
   \<Rightarrow> (StartMaintenanceError, unit) outcome" where
  "api_start_maintenance write_sc signer v =
     and_then (start_maintenance_call signer v) (\<lambda>call. map_err StSmartContract (write_sc call))"

datatype FinishMaintenanceError =
    FmNoMaintenance MaintenanceNotFoundError
  | FmUnauthorized
  | FmNoSigner NoSmartContractSignerError
  | FmSmartContract WriteError

definition finish_maintenance_call ::
  "AccountAddress option \<Rightarrow> ('n, 's) View \<Rightarrow> (FinishMaintenanceError, WriteCall) outcome" where
  "finish_maintenance_call signer v =
     and_then (map_err FmNoSigner (smart_contract_signer signer)) (\<lambda>signer.
     and_then (map_err FmNoMaintenance (require_maintenance v)) (\<lambda>maintenance.
     and_then (guard_oc (signer = maintenance_slot maintenance \<or> is_owner (view_ownership v) signer) FmUnauthorized) (\<lambda>_.
     Ok WFinishMaintenance)))"

definition api_finish_maintenance ::
  "(WriteCall \<Rightarrow> (WriteError, unit) outcome) \<Rightarrow> AccountAddress option \<Rightarrow> ('n, 's) View
   \<Rightarrow> (FinishMaintenanceError, unit) outcome" where
  "api_finish_maintenance write_sc signer v =
     and_then (finish_maintenance_call signer v) (\<lambda>call. map_err FmSmartContract (write_sc call))"

datatype AddNodeOperatorError =
    AoNotOwner NotOwnerError
  | AoAlreadyExists OperatorAlreadyExistsError
  | AoNoAvailableSlots NoAvailableSlotsError
  | AoInvalidNodeOperator NodeOperatorTryIntoError
  | AoDataTooLarge DataTooLargeError
  | AoNoSigner NoSmartContractSignerError
  | AoSmartContract WriteError

definition add_node_operator_call ::
  "third_party \<Rightarrow> EncryptionKey \<Rightarrow> AccountAddress option \<Rightarrow> ('n, 's) View \<Rightarrow> Node NodeOperator
   \<Rightarrow> (AddNodeOperatorError, WriteCall) outcome" where
  "add_node_operator_call tp key signer v operator =
     and_then (map_err AoNoSigner (smart_contract_signer signer)) (\<lambda>signer.
     and_then (map_err AoNotOwner (require_owner (view_ownership v) signer)) (\<lambda>_.
     and_then (map_err AoAlreadyExists (require_not_exists (view_node_operators v) (operator_id operator))) (\<lambda>_.
     and_then (map_err AoNoAvailableSlots (require_not_full (view_node_operators v))) (\<lambda>_.
     and_then (map_err AoInvalidNodeOperator (NodeOperator_try_into_sc tp key operator)) (\<lambda>operator.
     and_then (map_err AoDataTooLarge (validate_data (sc_operator_data operator) (view_settings v))) (\<lambda>_.
     Ok (WAddNodeOperator operator)))))))"

definition api_add_node_operator ::
  "third_party \<Rightarrow> EncryptionKey \<Rightarrow> (WriteCall \<Rightarrow> (WriteError, unit) outcome) \<Rightarrow> AccountAddress option
   \<Rightarrow> ('n, 's) View \<Rightarrow> Node NodeOperator \<Rightarrow> (AddNodeOperatorError, unit) outcome" where
  "api_add_node_operator tp key write_sc signer v operator =
     and_then (add_node_operator_call tp key signer v operator) (\<lambda>call. map_err AoSmartContract (write_sc call))"

datatype UpdateNodeOperatorError =
    UoUnauthorized
  | UoNotFoundError OperatorNotFoundError
  | UoInvalidNodeOperator NodeOperatorTryIntoError
  | UoDataTooLarge DataTooLargeError
  | UoNoSigner NoSmartContractSignerError
  | UoSmartContract WriteError

definition update_node_operator_call ::
  "third_party \<Rightarrow> EncryptionKey \<Rightarrow> AccountAddress option \<Rightarrow> ('n, 's) View \<Rightarrow> Node NodeOperator
   \<Rightarrow> (UpdateNodeOperatorError, WriteCall) outcome" where
  "update_node_operator_call tp key signer v operator =
     and_then (map_err UoNoSigner (smart_contract_signer signer)) (\<lambda>signer.
     and_then (guard_oc (signer = operator_id operator \<or> is_owner (view_ownership v) signer) UoUnauthorized) (\<lambda>_.
     and_then (map_err UoNotFoundError (require_idx (view_node_operators v) (operator_id operator))) (\<lambda>_.
     and_then (map_err UoInvalidNodeOperator (NodeOperator_try_into_sc tp key operator)) (\<lambda>operator.
     and_then (map_err UoDataTooLarge (validate_data (sc_operator_data operator) (view_settings v))) (\<lambda>_.
     Ok (WUpdateNodeOperator operator))))))"

definition api_update_node_operator ::
  "third_party \<Rightarrow> EncryptionKey \<Rightarrow> (WriteCall \<Rightarrow> (WriteError, unit) outcome) \<Rightarrow> AccountAddress option
   \<Rightarrow> ('n, 's) View \<Rightarrow> Node NodeOperator \<Rightarrow> (UpdateNodeOperatorError, unit) outcome" where
  "api_update_node_operator tp key write_sc signer v operator =
     and_then (update_node_operator_call tp key signer v operator) (\<lambda>call. map_err UoSmartContract (write_sc call))"

datatype RemoveNodeOperatorError =
    RoNotOwner NotOwnerError
  | RoNotFoundError OperatorNotFoundError
  | RoInKeyspace
  | RoSmartContract WriteError

definition remove_node_operator_call ::
  "('n, 's) View \<Rightarrow> operator_id \<Rightarrow> (RemoveNodeOperatorError, WriteCall) outcome" where
  "remove_node_operator_call v id' =
     and_then (map_err RoNotFoundError (require_idx (view_node_operators v) id')) (\<lambda>idx.
     and_then (guard_oc (\<not> contains_operator (view_keyspace v) idx) RoInKeyspace) (\<lambda>_.
     and_then (case migration_keyspace (view_migration v) of
                 Some keyspace \<Rightarrow> guard_oc (\<not> contains_operator keyspace idx) RoInKeyspace
               | None \<Rightarrow> Ok ()) (\<lambda>_.
     Ok (WRemoveNodeOperator id'))))"

definition api_remove_node_operator ::
  "(WriteCall \<Rightarrow> (WriteError, unit) outcome) \<Rightarrow> ('n, 's) View \<Rightarrow> operator_id
   \<Rightarrow> (RemoveNodeOperatorError, unit) outcome" where
  "api_remove_node_operator write_sc v id' =
     and_then (remove_node_operator_call v id') (\<lambda>call. map_err RoSmartContract (write_sc call))"

datatype UpdateSettingsError =
    UsNotOwner NotOwnerError
  | UsNoSigner NoSmartContractSignerError
  | UsInvalidSettings SettingsTryIntoError
  | UsSmartContract WriteError

definition update_settings_call ::
  "third_party \<Rightarrow> AccountAddress option \<Rightarrow> ('n, 's) View \<Rightarrow> Settings \<Rightarrow> (UpdateSettingsError, WriteCall) outcome" where
  "update_settings_call tp signer v new_settings =
     and_then (map_err UsNoSigner (smart_contract_signer signer)) (\<lambda>signer.
     and_then (map_err UsNotOwner (require_owner (view_ownership v) signer)) (\<lambda>_.
     and_then (map_err UsInvalidSettings (Settings_try_into_sc (tp_extra_v1 tp) new_settings)) (\<lambda>settings.
     Ok (WUpdateSettings settings))))"

definition api_update_settings ::
  "third_party \<Rightarrow> (WriteCall \<Rightarrow> (WriteError, unit) outcome) \<Rightarrow> AccountAddress option \<Rightarrow> ('n, 's) View \<Rightarrow> Settings
   \<Rightarrow> (UpdateSettingsError, unit) outcome" where
  "api_update_settings tp write_sc signer v new_settings =
     and_then (update_settings_call tp signer v new_settings) (\<lambda>call. map_err UsSmartContract (write_sc call))"

datatype TransferOwnershipError =
    ToNoSigner NoSmartContractSignerError
  | ToNotOwner NotOwnerError
  | ToSmartContract WriteError

definition transfer_ownership_call ::
  "AccountAddress option \<Rightarrow> ('n, 's) View \<Rightarrow> AccountAddress \<Rightarrow> (TransferOwnershipError, WriteCall) outcome" where
  "transfer_ownership_call signer v new_owner =
     and_then (map_err ToNoSigner (smart_contract_signer signer)) (\<lambda>signer.
     and_then (map_err ToNotOwner (require_owner (view_ownership v) signer)) (\<lambda>_.
     Ok (WTransferOwnership new_owner)))"

definition api_transfer_ownership ::
  "(WriteCall \<Rightarrow> (WriteError, unit) outcome) \<Rightarrow> AccountAddress option \<Rightarrow> ('n, 's) View \<Rightarrow> AccountAddress
   \<Rightarrow> (TransferOwnershipError, unit) outcome" where
  "api_transfer_ownership write_sc signer v new_owner =
     and_then (transfer_ownership_call signer v new_owner) (\<lambda>call. map_err ToSmartContract (write_sc call))"

definition api_accept_ownership :: "(WriteCall \<Rightarrow> (WriteError, unit) outcome) \<Rightarrow> (WriteError, unit) outcome" where
  "api_accept_ownership write_sc = write_sc WAcceptOwnership"

section \<open>The background task\<close>

datatype TaskError =
    TkApplyEvent ViewError
  | TkInvalidClusterView ViewTryFromError
  | TkSmartContractRead ReadError

fun apply_events ::
  "third_party \<Rightarrow> (unit Keyspace \<Rightarrow> 's Keyspace option) \<Rightarrow> (ReadError, Event) outcome list \<Rightarrow> ('n, 's) Cluster
   \<Rightarrow> ('n, 's) Cluster \<times> (TaskError, unit) outcome" where
  "apply_events tp calc [] cl = (cl, Ok ())"
| "apply_events tp calc (res # items) cl =
     (case res of
        Err e \<Rightarrow> (cl, Err (TkSmartContractRead e))
      | Panic \<Rightarrow> (cl, Panic)
      | Ok event \<Rightarrow>
          (case apply_event tp calc (cl_config cl) event (cl_view cl) of
             (cfg, Ok view) \<Rightarrow>
               apply_events tp calc items (cl\<lparr>cl_config := cfg, cl_view := view, cl_updates := cl_updates cl + 1\<rparr>)
           | (cfg, Err e) \<Rightarrow> (cl\<lparr>cl_config := cfg\<rparr>, Err (TkApplyEvent e))
           | (cfg, Panic) \<Rightarrow> (cl\<lparr>cl_config := cfg\<rparr>, Panic)))"

definition update_view ::
  "third_party \<Rightarrow> (unit Keyspace \<Rightarrow> 's Keyspace option) \<Rightarrow> read_contract \<Rightarrow> ('n, 's) Cluster
   \<Rightarrow> ('n, 's) Cluster \<times> (TaskError, unit) outcome" where
  "update_view tp calc contract cl =
     (case rc_events contract of
        Err e \<Rightarrow> (cl, Err (TkSmartContractRead e))
      | Panic \<Rightarrow> (cl, Panic)
      | Ok events \<Rightarrow>
          (case rc_cluster_view contract of
             Err e \<Rightarrow> (cl, Err (TkSmartContractRead e))
           | Panic \<Rightarrow> (cl, Panic)
           | Ok new_view \<Rightarrow>
               if view_cluster_version (cl_view cl) \<noteq> sc_cluster_version new_view then
                 (case View_try_from_sc tp calc new_view (cl_config cl) of
                    (cfg, Ok view) \<Rightarrow>
                      apply_events tp calc events
                        (cl\<lparr>cl_config := cfg, cl_view := view, cl_updates := cl_updates cl + 1\<rparr>)
                  | (cfg, Err e) \<Rightarrow> (cl\<lparr>cl_config := cfg\<rparr>, Err (TkInvalidClusterView e))
                  | (cfg, Panic) \<Rightarrow> (cl\<lparr>cl_config := cfg\<rparr>, Panic))
               else apply_events tp calc events cl))"

text \<open>
  The loop of \<open>run\<close>, for the given number of rounds; what the contract returns in each round is an
  argument. A panic ends the task; errors and the end of a stream lead to the next round.
\<close>

fun run_rounds ::
  "third_party \<Rightarrow> (unit Keyspace \<Rightarrow> 's Keyspace option) \<Rightarrow> read_contract list \<Rightarrow> ('n, 's) Cluster
   \<Rightarrow> ('n, 's) Cluster \<times> (TaskError, unit) outcome" where
  "run_rounds tp calc [] cl = (cl, Ok ())"
| "run_rounds tp calc (contract # rounds) cl =
     (case update_view tp calc contract cl of
        (cl, Panic) \<Rightarrow> (cl, Panic)
      | (cl, Ok _) \<Rightarrow> run_rounds tp calc rounds cl
      | (cl, Err _) \<Rightarrow> run_rounds tp calc rounds cl)"

definition task_run ::
  "third_party \<Rightarrow> (unit Keyspace \<Rightarrow> 's Keyspace option) \<Rightarrow> (ReadError, Event) outcome list \<Rightarrow> read_contract list
   \<Rightarrow> ('n, 's) Cluster \<Rightarrow> ('n, 's) Cluster \<times> (TaskError, unit) outcome" where
  "task_run tp calc initial_events rounds cl =
     (case apply_events tp calc initial_events cl of
        (cl, Panic) \<Rightarrow> (cl, Panic)
      | (cl, Ok _) \<Rightarrow> run_rounds tp calc rounds cl
      | (cl, Err _) \<Rightarrow> run_rounds tp calc rounds cl)"

text \<open>One poll of the invalidation timer: a version that differs from the view's ends the event loop.\<close>

definition invalidation_poll :: "(ReadError, ScClusterView) outcome \<Rightarrow> ('n, 's) Cluster \<Rightarrow> bool" where
  "invalidation_poll res cl =
     (case res of
        Ok new_view \<Rightarrow> view_cluster_version (cl_view cl) \<noteq> sc_cluster_version new_view
      | _ \<Rightarrow> False)"

end
