(* ===== verification/Chain_Refinement.thy ===== *)
theory Chain_Refinement
  imports Cluster_Api
begin

text \<open>
  The contract and the views that the nodes derive from it. \<open>reflects\<close> relates a state of the contract to
  a view of it; the load-balancing counters of the view are its own. A transaction of the contract and
  the event it emits are one step of a simulation: applying the event to a view that reflects the
  contract gives a view that reflects the new state.
\<close>

section \<open>Views that reflect a contract\<close>

definition operator_reflects :: "third_party \<Rightarrow> 'n config \<Rightarrow> 'n NodeOperator \<Rightarrow> SolNodeOperator \<Rightarrow> bool" where
  "operator_reflects tp cfg op slot \<longleftrightarrow>
     (case NodeOperator_from_sc tp cfg (NodeOperator_from_sol slot) :: (unit, 'n NodeOperator) outcome of
        Ok op' \<Rightarrow> op\<lparr>operator_counter := 0\<rparr> = op'\<lparr>operator_counter := 0\<rparr>
      | _ \<Rightarrow> False)"

fun slot_reflects :: "third_party \<Rightarrow> 'n config \<Rightarrow> 'n NodeOperator option \<Rightarrow> SolNodeOperator \<Rightarrow> bool" where
  "slot_reflects tp cfg None slot \<longleftrightarrow> addr slot = 0"
| "slot_reflects tp cfg (Some op) slot \<longleftrightarrow> addr slot \<noteq> 0 \<and> operator_reflects tp cfg op slot"

definition operators_reflect :: "third_party \<Rightarrow> 'n config \<Rightarrow> 'n NodeOperators \<Rightarrow> Contract \<Rightarrow> bool" where
  "operators_reflect tp cfg ops c \<longleftrightarrow>
     nops_wf ops \<and> (\<forall>i. slot_reflects tp cfg (get_by_idx ops i) (operatorSlots c i))"

definition keyspace_reflects :: "(unit Keyspace \<Rightarrow> 's Keyspace option) \<Rightarrow> 's Keyspace \<Rightarrow> SolKeyspace \<Rightarrow> bool" where
  "keyspace_reflects calc ks sol \<longleftrightarrow>
     (case Keyspace_try_from_sc (Keyspace_from_sol sol) of Ok ks' \<Rightarrow> calc ks' = Some ks | _ \<Rightarrow> False)"

definition migration_reflects :: "(unit Keyspace \<Rightarrow> 's Keyspace option) \<Rightarrow> 's Migration \<Rightarrow> Contract \<Rightarrow> bool" where
  "migration_reflects calc mig c \<longleftrightarrow>
     migration_id mig = mig_id (c_migration c)
     \<and> (case migration_state mig of
          StateStarted ks ops \<Rightarrow>
            pullingOperatorBitmask (c_migration c) \<noteq> 0
            \<and> ops = bits (pullingOperatorBitmask (c_migration c))
            \<and> keyspace_reflects calc ks (keyspace_at (keyspaceVersion c) c)
            \<and> parse_timestamp (startedAt (c_migration c)) = Ok (started_at mig)
        | StateAborted at \<Rightarrow>
            pullingOperatorBitmask (c_migration c) = 0 \<and> parse_timestamp (abortedAt (c_migration c)) = Ok at
        | StateCompleted \<Rightarrow> pullingOperatorBitmask (c_migration c) = 0)"

definition reflects ::
  "third_party \<Rightarrow> (unit Keyspace \<Rightarrow> 's Keyspace option) \<Rightarrow> 'n config \<Rightarrow> AccountAddress \<Rightarrow> Contract \<Rightarrow> ('n, 's) View \<Rightarrow> bool" where
  "reflects tp calc cfg own c v \<longleftrightarrow>
     owner (view_ownership v) = own
     \<and> Settings_try_from_sc (tp_extra_v0 tp) (tp_extra_v1 tp) (Settings_from_sol (c_settings c)) = Ok (view_settings v)
     \<and> minOperators (c_settings c) = of_nat MIN_OPERATORS
     \<and> operators_reflect tp cfg (view_node_operators v) c
     \<and> keyspace_reflects calc (view_keyspace v) (primary_sol_keyspace c)
     \<and> view_keyspace_version v = keyspaceVersion c
     \<and> migration_reflects calc (view_migration v) c
     \<and> view_maintenance v = (if maintenanceSlot c = 0 then None else Some (Maintenance_new (maintenanceSlot c)))
     \<and> view_cluster_version v = c_version c"

text \<open>
  The calls whose events the nodes accept. The contract itself takes more: unknown replication
  strategies, settings and times that cannot be read, the zero address, and maintenance that starts
  during a migration or ends before it started.
\<close>

fun supported :: "third_party \<Rightarrow> 'n config \<Rightarrow> tx_env \<Rightarrow> Contract \<Rightarrow> ContractCall \<Rightarrow> bool" where
  "supported tp cfg env c (CStartMigration ks) \<longleftrightarrow>
     replicationStrategy ks = 0 \<and> (\<exists>at. parse_timestamp (ucast (block_timestamp env)) = Ok at)"
| "supported tp cfg env c (CCompleteMigration _) \<longleftrightarrow> msg_sender env \<noteq> 0"
| "supported tp cfg env c (CAbortMigration _) \<longleftrightarrow> (\<exists>at. parse_timestamp (ucast (block_timestamp env)) = Ok at)"
| "supported tp cfg env c (CAddNodeOperator op) \<longleftrightarrow>
     NodeOperator_from_sc tp cfg (NodeOperator_from_sol op) \<noteq> (Panic :: (unit, _) outcome)"
| "supported tp cfg env c (CUpdateNodeOperatorData a d) \<longleftrightarrow>
     a \<noteq> 0 \<and> NodeOperator_from_sc tp cfg (NodeOperator_from_sol \<lparr>addr = a, op_data = d\<rparr>) \<noteq> (Panic :: (unit, _) outcome)"
| "supported tp cfg env c (CRemoveNodeOperator a) \<longleftrightarrow> a \<noteq> 0"
| "supported tp cfg env c (CSetMaintenance active) \<longleftrightarrow>
     (if active then msg_sender env \<noteq> 0 \<and> pullingOperatorBitmask (c_migration c) = 0 else maintenanceSlot c \<noteq> 0)"
| "supported tp cfg env c (CUpdateSettings s) \<longleftrightarrow>
     minOperators s = of_nat MIN_OPERATORS
     \<and> (\<exists>s'. Settings_try_from_sc (tp_extra_v0 tp) (tp_extra_v1 tp) (Settings_from_sol s) = Ok s')"

section \<open>Consequences of the relation\<close>

lemma NodeOperator_from_sc_Ok_cast:
  "NodeOperator_from_sc tp cfg sc = (Ok op :: ('a, _) outcome) \<longleftrightarrow> NodeOperator_from_sc tp cfg sc = (Ok op :: ('b, _) outcome)"
  by (auto simp: NodeOperator_from_sc_def split: outcome.splits)

lemma operator_reflects_iff:
  "operator_reflects tp cfg op slot \<longleftrightarrow>
     (\<exists>op'. NodeOperator_from_sc tp cfg (NodeOperator_from_sol slot) = (Ok op' :: (ViewError, _) outcome)
        \<and> op\<lparr>operator_counter := 0\<rparr> = op'\<lparr>operator_counter := 0\<rparr>)"
  unfolding operator_reflects_def NodeOperator_from_sc_Ok_cast [where 'a = ViewError and 'b = unit]
  by (auto split: outcome.splits)

lemma operator_reflects_id:
  assumes "operator_reflects tp cfg op slot"
  shows "operator_id op = addr slot"
proof -
  obtain op' where op': "NodeOperator_from_sc tp cfg (NodeOperator_from_sol slot) = (Ok op' :: (ViewError, _) outcome)"
    and eq: "op\<lparr>operator_counter := 0\<rparr> = op'\<lparr>operator_counter := 0\<rparr>"
    using assms by (auto simp: operator_reflects_iff)
  have "operator_id op = operator_id op'"
    using arg_cong [OF eq, of operator_id] by simp
  then show ?thesis
    using NodeOperator_from_sc_OkD(2) [OF op'] by (simp add: NodeOperator_from_sol_def)
qed

lemma operators_reflect_idx:
  assumes "operators_reflect tp cfg ops c"
  shows "get_by_idx ops i = None \<longleftrightarrow> addr (operatorSlots c i) = 0"
    and "get_by_idx ops i = Some op \<Longrightarrow> operator_id op = addr (operatorSlots c i)"
    and "get_by_idx ops i = Some op \<Longrightarrow> operator_reflects tp cfg op (operatorSlots c i)"
proof -
  have at: "slot_reflects tp cfg (get_by_idx ops i) (operatorSlots c i)"
    using assms by (simp add: operators_reflect_def)
  show "get_by_idx ops i = None \<longleftrightarrow> addr (operatorSlots c i) = 0"
    using at by (cases "get_by_idx ops i") auto
  show "get_by_idx ops i = Some op \<Longrightarrow> operator_reflects tp cfg op (operatorSlots c i)"
    using at by simp
  then show "get_by_idx ops i = Some op \<Longrightarrow> operator_id op = addr (operatorSlots c i)"
    by (rule operator_reflects_id)
qed

lemma contains_idx_bits:
  assumes "operators_reflect tp cfg ops c" and "slots_wf c"
  shows "contains_idx ops i \<longleftrightarrow> i \<in> bits (operatorBitmask c)"
  using operators_reflect_idx(1) [OF assms(1), of i] assms(2) by (auto simp: contains_idx_def slots_wf_def)

lemma get_idx_slot:
  assumes "operators_reflect tp cfg ops c" and "slots_wf c"
  shows "get_idx ops a = Some i \<longleftrightarrow> a \<noteq> 0 \<and> operatorSlotIndexes c a = i \<and> addr (operatorSlots c i) = a"
proof -
  have "nops_wf ops"
    using assms(1) by (simp add: operators_reflect_def)
  then have "get_idx ops a = Some i \<longleftrightarrow> (\<exists>op. get_by_idx ops i = Some op \<and> operator_id op = a)"
    by (rule nops.index_iff)
  also have "\<dots> \<longleftrightarrow> addr (operatorSlots c i) \<noteq> 0 \<and> addr (operatorSlots c i) = a"
    using operators_reflect_idx [OF assms(1), of i] by (metis not_None_eq)
  also have "\<dots> \<longleftrightarrow> a \<noteq> 0 \<and> operatorSlotIndexes c a = i \<and> addr (operatorSlots c i) = a"
    using assms(2) by (auto simp: slots_wf_def)
  finally show ?thesis .
qed

lemma get_idx_absent:
  assumes "operators_reflect tp cfg ops c" and "slots_wf c" and "a \<noteq> 0"
  shows "get_idx ops a = None \<longleftrightarrow> addr (operatorSlots c (operatorSlotIndexes c a)) \<noteq> a"
  using get_idx_slot [OF assms(1,2), of a] assms(3) by (metis not_None_eq)

text \<open>The first free slot of the contract is inside the slots of the view or next to them.\<close>

lemma first_free_fits:
  assumes "operators_reflect tp cfg ops c" and "slots_wf c" and "lib_bit_documented lb" and "operatorBitmask c \<noteq> - 1"
  shows "idx_fits ops (bm_findFirstUnset lb (operatorBitmask c))"
proof (rule ccontr)
  let ?i = "bm_findFirstUnset lb (operatorBitmask c)"
  assume "\<not> idx_fits ops ?i"
  then have less: "length (slots ops) < unat ?i"
    by (simp add: idx_fits_def)
  define j :: u8 where "j = of_nat (length (slots ops))"
  have "length (slots ops) < 256"
    using less unat_u8_less [of ?i] by linarith
  then have j: "unat j = length (slots ops)"
    by (simp add: j_def)
  then have "j < ?i"
    using less by (simp add: word_less_nat_alt)
  then have "j \<in> bits (operatorBitmask c)"
    by (rule below_findFirstUnset [OF assms(3,4)])
  then have "get_by_idx ops j \<noteq> None"
    using contains_idx_bits [OF assms(1,2)] by (simp add: contains_idx_def)
  then show False
    using j by (auto simp: get_by_idx_eq_Some)
qed

text \<open>Writing a slot on both sides.\<close>

lemma operators_reflect_put:
  assumes "operators_reflect tp cfg ops c" and "nops_wf ops'"
    and "\<And>j. get_by_idx ops' j = (if j = i then slot else get_by_idx ops j)"
    and "\<And>j. operatorSlots c' j = (if j = i then s else operatorSlots c j)"
    and "slot_reflects tp cfg slot s"
  shows "operators_reflect tp cfg ops' c'"
  using assms by (simp add: operators_reflect_def)

lemma operators_reflect_cong:
  "operatorSlots c' = operatorSlots c \<Longrightarrow> operators_reflect tp cfg ops c' = operators_reflect tp cfg ops c"
  by (simp add: operators_reflect_def)

lemma operators_reflect_settings:
  "operators_reflect tp (update_settings s cfg) ops c = operators_reflect tp cfg ops c"
proof -
  have cfg: "cfg_encryption_key (update_settings s cfg) = cfg_encryption_key cfg"
    "cfg_new_node (update_settings s cfg) = cfg_new_node cfg"
    by (simp_all add: update_settings_def)
  have "NodeOperator_from_sc tp (update_settings s cfg) sc = (NodeOperator_from_sc tp cfg sc :: (unit, _) outcome)" for sc
    unfolding NodeOperator_from_sc_def NodeOperator_try_from_sc_def new_corrupted_def new_nodes_def cfg ..
  then have "slot_reflects tp (update_settings s cfg) slot sol = slot_reflects tp cfg slot sol" for slot sol
    by (cases slot) (simp_all add: operator_reflects_def)
  then show ?thesis
    by (simp add: operators_reflect_def)
qed

lemma migration_reflects_cong:
  assumes "c_migration c' = c_migration c" and "c_keyspaces c' = c_keyspaces c" and "keyspaceVersion c' = keyspaceVersion c"
  shows "migration_reflects calc mig c' = migration_reflects calc mig c"
    and "primary_sol_keyspace c' = primary_sol_keyspace c"
  unfolding migration_reflects_def primary_sol_keyspace_def keyspace_at_def assms by (rule refl)+

lemma in_progress_reflects:
  assumes "migration_reflects calc mig c"
  shows "is_in_progress mig \<longleftrightarrow> pullingOperatorBitmask (c_migration c) \<noteq> 0"
  using assms by (auto simp: migration_reflects_def is_in_progress_def split: MigrationState.splits)

section \<open>The simulation\<close>

text \<open>The event is accepted and the new view reflects the new state.\<close>

definition follows ::
  "third_party \<Rightarrow> (unit Keyspace \<Rightarrow> 's Keyspace option) \<Rightarrow> 'n config \<Rightarrow> AccountAddress \<Rightarrow> Event \<Rightarrow> ('n, 's) View \<Rightarrow> Contract \<Rightarrow> bool" where
  "follows tp calc cfg own ev v c' \<longleftrightarrow>
     (case apply_event tp calc cfg ev v of
        (cfg', Ok v') \<Rightarrow> reflects tp calc cfg' own c' v'
      | _ \<Rightarrow> False)"

lemma followsI:
  assumes "event_cluster_version ev = view_cluster_version v + 1"
    and "apply_event_body tp calc cfg ev v = (cfg', Ok v')"
    and "reflects tp calc cfg' own c' (v'\<lparr>view_cluster_version := event_cluster_version ev\<rparr>)"
  shows "follows tp calc cfg own ev v c'"
  using assms by (simp add: follows_def apply_event_def)

lemma keyspace_reflects_operators:
  assumes "shard_calculation calc sound" and "keyspace_reflects calc ks sol"
  shows "ks_operators ks = bits (ks_bitmask sol)" and "keyspace_wf ks" and "replicationStrategy sol = 0"
proof -
  obtain ks' where ks': "Keyspace_try_from_sc (Keyspace_from_sol sol) = Ok ks'" and calc: "calc ks' = Some ks"
    using assms(2) by (auto simp: keyspace_reflects_def split: outcome.splits)
  note wf = Keyspace_try_from_sc_OkD [OF ks']
  show "ks_operators ks = bits (ks_bitmask sol)"
    using shard_calculation.calc_SomeD(1) [OF assms(1) wf(1) calc] wf(2)
    by (simp add: Keyspace_from_sol_def bitmask_simps)
  show "keyspace_wf ks"
    by (rule shard_calculation.calc_SomeD(3) [OF assms(1) wf(1) calc])
  show "replicationStrategy sol = 0"
    using ks' by (auto simp: Keyspace_try_from_sc_def outcome_simps Keyspace_from_sol_def ReplicationStrategy_try_from_def split: if_splits)
qed

text \<open>Steps that change neither slots nor keyspaces nor the migration.\<close>

lemma reflects_frame:
  assumes "reflects tp calc cfg own c v"
    and c': "operatorSlots c' = operatorSlots c" "c_migration c' = c_migration c" "c_keyspaces c' = c_keyspaces c"
      "keyspaceVersion c' = keyspaceVersion c"
    and v': "view_ownership v' = view_ownership v" "view_node_operators v' = view_node_operators v"
      "view_keyspace v' = view_keyspace v" "view_keyspace_version v' = view_keyspace_version v"
      "view_migration v' = view_migration v"
    and "cfg' = cfg \<or> (\<exists>s. cfg' = update_settings s cfg)"
    and "Settings_try_from_sc (tp_extra_v0 tp) (tp_extra_v1 tp) (Settings_from_sol (c_settings c')) = Ok (view_settings v')"
    and "minOperators (c_settings c') = of_nat MIN_OPERATORS"
    and "view_maintenance v' = (if maintenanceSlot c' = 0 then None else Some (Maintenance_new (maintenanceSlot c')))"
    and "view_cluster_version v' = c_version c'"
  shows "reflects tp calc cfg' own c' v'"
proof -
  have "operators_reflect tp cfg' (view_node_operators v) c' = operators_reflect tp cfg (view_node_operators v) c"
    using assms(11) unfolding operators_reflect_cong [OF c'(1)] by (auto simp: operators_reflect_settings)
  then show ?thesis
    using assms(1,12-15) unfolding reflects_def v' c'(4) migration_reflects_cong [OF c'(2,3,4)] by blast
qed

lemma maintenance_follows:
  assumes "reflects tp calc cfg own c v" and "exec_call lb env (CSetMaintenance active) c = Ok (c', e)"
    and "supported tp cfg env c (CSetMaintenance active)" and "Event_from_sol ts e = Some ev"
  shows "follows tp calc cfg own ev v c'"
proof -
  note d = setMaintenance_OkD [OF assms(2) [unfolded exec_call.simps]]
  define v' where "v' = v\<lparr>view_maintenance := (if active then Some (Maintenance_new (msg_sender env)) else None)\<rparr>"
  have ev: "ev = (if active then EvMaintenanceStarted \<lparr>mts_by = msg_sender env, mts_cluster_version = c_version c + 1\<rparr>
        else EvMaintenanceFinished \<lparr>mtf_cluster_version = c_version c + 1\<rparr>)"
    using assms(4) unfolding d(5) by simp
  have "\<not> is_in_progress (view_migration v)" if active
    using that assms(1,3) in_progress_reflects by (auto simp: reflects_def)
  then have "apply_event_body tp calc cfg ev v = (cfg, Ok v')"
    using assms(1,3) d(1) by (auto simp: ev reflects_def event_defs view_guards v'_def ok_or_def guard_oc_def)
  moreover have "reflects tp calc cfg own c' (v'\<lparr>view_cluster_version := c_version c + 1\<rparr>)"
    by (rule reflects_frame [OF assms(1)]) (use assms(1,3) in \<open>auto simp: d(4) v'_def reflects_def\<close>)
  ultimately show ?thesis
    using assms(1) by (intro followsI [where cfg' = cfg and v' = v']) (auto simp: ev reflects_def)
qed

lemma settings_follow:
  assumes "reflects tp calc cfg own c v" and "exec_call lb env (CUpdateSettings s) c = Ok (c', e)"
    and "supported tp cfg env c (CUpdateSettings s)" and "Event_from_sol ts e = Some ev"
  shows "follows tp calc cfg own ev v c'"
proof -
  note d = updateSettings_OkD [OF assms(2) [unfolded exec_call.simps]]
  obtain s' where s': "Settings_try_from_sc (tp_extra_v0 tp) (tp_extra_v1 tp) (Settings_from_sol s) = Ok s'"
    using assms(3) by auto
  define v' where "v' = v\<lparr>view_settings := s'\<rparr>"
  have ev: "ev = EvSettingsUpdated \<lparr>su_settings = Settings_from_sol s, su_cluster_version = c_version c + 1\<rparr>"
    using assms(4) unfolding d(5) by simp
  have "apply_event_body tp calc cfg ev v = (update_settings s' cfg, Ok v')"
    by (simp add: ev event_defs s' v'_def)
  moreover have "reflects tp calc (update_settings s' cfg) own c' (v'\<lparr>view_cluster_version := c_version c + 1\<rparr>)"
    by (rule reflects_frame [OF assms(1)]) (use assms(1,3) s' in \<open>auto simp: d(4) v'_def reflects_def\<close>)
  ultimately show ?thesis
    using assms(1) by (intro followsI [where cfg' = "update_settings s' cfg" and v' = v']) (auto simp: ev reflects_def)
qed

text \<open>Steps that write one slot.\<close>

lemma reflects_slot:
  assumes "reflects tp calc cfg own c v" and "operators_reflect tp cfg ops' c'"
    and c': "c_settings c' = c_settings c" "c_migration c' = c_migration c" "c_keyspaces c' = c_keyspaces c"
      "keyspaceVersion c' = keyspaceVersion c" "maintenanceSlot c' = maintenanceSlot c"
    and "n = c_version c'"
  shows "reflects tp calc cfg own c' (v\<lparr>view_node_operators := ops', view_cluster_version := n\<rparr>)"
  using assms(1,2,8) unfolding reflects_def c'(1,4,5) migration_reflects_cong [OF c'(2,3,4)] by simp

lemma NodeOperator_from_sc_notPanic:
  assumes "NodeOperator_from_sc tp cfg sc \<noteq> (Panic :: (unit, _) outcome)"
  obtains op where "NodeOperator_from_sc tp cfg sc = (Ok op :: ('e, _) outcome)"
proof (cases "NodeOperator_from_sc tp cfg sc :: (unit, _) outcome")
  case (Ok op)
  then show thesis
    using that NodeOperator_from_sc_Ok_cast [where 'a = unit] by blast
qed (use assms in simp_all)

lemma add_follows:
  assumes "reflects tp calc cfg own c v" and "contract_wf c" and "lib_bit_documented lb"
    and "exec_call lb env (CAddNodeOperator sol) c = Ok (c', e)"
    and "supported tp cfg env c (CAddNodeOperator sol)" and "Event_from_sol ts e = Some ev"
  shows "follows tp calc cfg own ev v c'"
proof -
  note d = addNodeOperator_OkD [OF assms(4) [unfolded exec_call.simps]]
  let ?ops = "view_node_operators v" and ?i = "bm_findFirstUnset lb (operatorBitmask c)"
  have r: "operators_reflect tp cfg ?ops c" "nops_wf ?ops" and w: "slots_wf c"
    using assms(1,2) by (simp_all add: reflects_def operators_reflect_def contract_wf_def)
  obtain op where op: "NodeOperator_from_sc tp cfg (NodeOperator_from_sol sol) = (Ok op :: (ViewError, _) outcome)"
    using assms(5) NodeOperator_from_sc_notPanic by (metis supported.simps(4))
  have id: "operator_id op = addr sol"
    using NodeOperator_from_sc_OkD(2) [OF op] by (simp add: NodeOperator_from_sol_def)
  have new: "get_idx ?ops (addr sol) = None"
    using get_idx_absent [OF r(1) w d(3)] d(4,5) by simp
  obtain ops' where ops': "set_slot ?i (Some op) ?ops = (Ok ops' :: (ViewError, _) outcome)" "nops_wf ops'"
    "\<And>j. get_by_idx ops' j = (if j = ?i then Some op else get_by_idx ?ops j)"
    using nops.put_new [OF r(2) first_free_fits [OF r(1) w assms(3) d(2)]] new id by metis
  have ev: "ev = EvNodeOperatorAdded \<lparr>noa_idx = ?i, noa_operator = NodeOperator_from_sol sol, noa_cluster_version = c_version c + 1\<rparr>"
    using assms(6) unfolding d(10) by (simp add: NodeOperator_from_sol_def)
  have "apply_event_body tp calc cfg ev v = (cfg, Ok (v\<lparr>view_node_operators := ops'\<rparr>))"
    using new contains_idx_bits [OF r(1) w] findFirstUnset_notin [OF assms(3) d(2)] op ops'(1)
    by (simp add: ev event_defs view_guards contains_def NodeOperator_from_sol_def outcome_simps)
  moreover have "operators_reflect tp cfg ops' c'"
    by (rule operators_reflect_put [OF r(1) ops'(2,3), where s = sol])
      (use op d(3) in \<open>auto simp: d(9) put_operator_def operator_reflects_iff\<close>)
  then have "reflects tp calc cfg own c' (v\<lparr>view_node_operators := ops', view_cluster_version := c_version c + 1\<rparr>)"
    by (rule reflects_slot [OF assms(1)]) (simp_all add: d(9) put_operator_def)
  ultimately show ?thesis
    using assms(1) by (intro followsI [where cfg' = cfg]) (auto simp: ev reflects_def)
qed

lemma update_follows:
  assumes "reflects tp calc cfg own c v" and "contract_wf c"
    and "exec_call lb env (CUpdateNodeOperatorData a data) c = Ok (c', e)"
    and "supported tp cfg env c (CUpdateNodeOperatorData a data)" and "Event_from_sol ts e = Some ev"
  shows "follows tp calc cfg own ev v c'"
proof -
  note d = updateNodeOperatorData_OkD [OF assms(3) [unfolded exec_call.simps]]
  let ?ops = "view_node_operators v" and ?i = "operatorSlotIndexes c a" and ?sol = "\<lparr>addr = a, op_data = data\<rparr>"
  have r: "operators_reflect tp cfg ?ops c" "nops_wf ?ops" and w: "slots_wf c"
    using assms(1,2) by (simp_all add: reflects_def operators_reflect_def contract_wf_def)
  obtain op where op: "NodeOperator_from_sc tp cfg (NodeOperator_from_sol ?sol) = (Ok op :: (ViewError, _) outcome)"
    using assms(4) NodeOperator_from_sc_notPanic by (metis supported.simps(5))
  have id: "operator_id op = a"
    using NodeOperator_from_sc_OkD(2) [OF op] by (simp add: NodeOperator_from_sol_def)
  have idx: "get_idx ?ops a = Some ?i"
    using get_idx_slot [OF r(1) w] d(2) assms(4) by simp
  obtain ops' where ops': "set_slot ?i (Some op) ?ops = (Ok ops' :: (ViewError, _) outcome)" "nops_wf ops'"
    "\<And>j. get_by_idx ops' j = (if j = ?i then Some op else get_by_idx ?ops j)"
    using nops.put_same [OF r(2)] idx id by metis
  have ev: "ev = EvNodeOperatorUpdated \<lparr>nou_operator = NodeOperator_from_sol ?sol, nou_cluster_version = c_version c + 1\<rparr>"
    using assms(5) unfolding d(7) by simp
  have "apply_event_body tp calc cfg ev v = (cfg, Ok (v\<lparr>view_node_operators := ops'\<rparr>))"
    using idx op ops'(1)
    by (simp add: ev event_defs view_guards NodeOperator_from_sol_def outcome_simps)
  moreover have "operators_reflect tp cfg ops' c'"
    by (rule operators_reflect_put [OF r(1) ops'(2,3), where s = ?sol])
      (use op d(2) assms(4) in \<open>auto simp: d(6) operator_reflects_iff\<close>)
  then have "reflects tp calc cfg own c' (v\<lparr>view_node_operators := ops', view_cluster_version := c_version c + 1\<rparr>)"
    by (rule reflects_slot [OF assms(1)]) (simp_all add: d(6))
  ultimately show ?thesis
    using assms(1) by (intro followsI [where cfg' = cfg]) (auto simp: ev reflects_def)
qed

lemma remove_follows:
  assumes "reflects tp calc cfg own c v" and "contract_wf c"
    and "exec_call lb env (CRemoveNodeOperator a) c = Ok (c', e)"
    and "supported tp cfg env c (CRemoveNodeOperator a)" and "Event_from_sol ts e = Some ev"
  shows "follows tp calc cfg own ev v c'"
proof -
  note d = removeNodeOperator_OkD [OF assms(3) [unfolded exec_call.simps]]
  let ?ops = "view_node_operators v" and ?i = "operatorSlotIndexes c a"
  have r: "operators_reflect tp cfg ?ops c" "nops_wf ?ops" and w: "slots_wf c"
    using assms(1,2) by (simp_all add: reflects_def operators_reflect_def contract_wf_def)
  have idx: "get_idx ?ops a = Some ?i"
    using get_idx_slot [OF r(1) w] d(2) assms(4) by simp
  obtain ops' where ops': "set_slot ?i None ?ops = (Ok ops' :: (ViewError, _) outcome)" "nops_wf ops'"
    "\<And>j. get_by_idx ops' j = (if j = ?i then None else get_by_idx ?ops j)"
    using nops.put_none [OF r(2) nops.occupied_fits [OF nops.index_occupied [OF r(2) idx]]] by metis
  have ev: "ev = EvNodeOperatorRemoved \<lparr>nor_id = a, nor_cluster_version = c_version c + 1\<rparr>"
    using assms(5) unfolding d(8) by simp
  have "apply_event_body tp calc cfg ev v = (cfg, Ok (v\<lparr>view_node_operators := ops'\<rparr>))"
    using idx ops'(1) by (simp add: ev event_defs view_guards outcome_simps)
  moreover have "operators_reflect tp cfg ops' c'"
    by (rule operators_reflect_put [OF r(1) ops'(2,3), where s = empty_operator])
      (auto simp: d(7) empty_operator_def)
  then have "reflects tp calc cfg own c' (v\<lparr>view_node_operators := ops', view_cluster_version := c_version c + 1\<rparr>)"
    by (rule reflects_slot [OF assms(1)]) (simp_all add: d(7))
  ultimately show ?thesis
    using assms(1) by (intro followsI [where cfg' = cfg]) (auto simp: ev reflects_def)
qed

text \<open>Steps of a migration.\<close>

lemma card_countSet:
  assumes "lib_bit_documented lb" and "\<not> bm_countSet lb m < ucast (n :: u8)"
  shows "unat n \<le> card (bits m)"
proof -
  have "unat (ucast n :: u16) = unat n"
    using unat_u8_less [of n] by (simp add: unat_ucast_mod del: unat_u8_less)
  then show ?thesis
    using assms by (simp add: unat_countSet word_less_nat_alt)
qed

lemma start_follows:
  assumes "shard_calculation calc sound" and "reflects tp calc cfg own c v" and "contract_wf c" and "lib_bit_documented lb"
    and "exec_call lb env (CStartMigration ks) c = Ok (c', e)"
    and "supported tp cfg env c (CStartMigration ks)" and "Event_from_sol (ucast (block_timestamp env)) e = Some ev"
  shows "follows tp calc cfg own ev v c'"
proof -
  note d = startMigration_OkD [OF assms(5) [unfolded exec_call.simps]]
  have r: "operators_reflect tp cfg (view_node_operators v) c" "migration_reflects calc (view_migration v) c"
    "keyspace_reflects calc (view_keyspace v) (primary_sol_keyspace c)" and w: "slots_wf c"
    using assms(2,3) by (simp_all add: reflects_def contract_wf_def)
  note primary = keyspace_reflects_operators [OF assms(1) r(3)]
  obtain at where at: "parse_timestamp (ucast (block_timestamp env)) = Ok at" and strategy: "replicationStrategy ks = 0"
    using assms(6) by auto
  have "unat (of_nat MIN_OPERATORS :: u8) \<le> card (bits (ks_bitmask ks))"
    using card_countSet [OF assms(4) d(6)] assms(2) by (simp add: reflects_def)
  then have card: "REPLICATION_FACTOR \<le> card (bits (ks_bitmask ks))"
    by (simp add: MIN_OPERATORS_def REPLICATION_FACTOR_def)
  then have ne: "ks_bitmask ks \<noteq> 0"
    by (auto simp: bits_0 REPLICATION_FACTOR_def)
  define ks' where "ks' = \<lparr>ks_operators = bits (ks_bitmask ks), ks_shards = (), ks_replication_strategy = UniformDistribution\<rparr>"
  have ks': "Keyspace_try_from_sc (Keyspace_from_sol ks) = Ok ks'"
    using card by (simp add: Keyspace_try_from_sc_def Keyspace_from_sol_def strategy ReplicationStrategy_try_from_def
        Keyspace_new_eq_Ok map_err_eq_Ok ok_or_def bitmask_simps ks'_def)
  note wf = Keyspace_try_from_sc_OkD [OF ks']
  obtain new where new: "calc ks' = Some new" "ks_operators new = ks_operators ks'"
    using shard_calculation.calc_wf [OF assms(1) wf(1)] by blast
  let ?mig = "\<lparr>migration_id = mig_id (c_migration c) + 1, started_at = at,
      migration_state = StateStarted new (bits (ks_bitmask ks))\<rparr>"
  let ?v = "v\<lparr>view_migration := ?mig, view_keyspace_version := keyspaceVersion c + 1\<rparr>"
  have ev: "ev = EvMigrationStarted \<lparr>ms_migration_id = mig_id (c_migration c) + 1, ms_new_keyspace = Keyspace_from_sol ks,
      ms_at = ucast (block_timestamp env), ms_cluster_version = c_version c + 1\<rparr>"
    using assms(7) unfolding d(11) by (simp add: from_migration_started_def)
  have "\<not> is_in_progress (view_migration v)"
    using in_progress_reflects [OF r(2)] d(3) by simp
  moreover have "Keyspace_validate ks' (view_node_operators v) = Ok ()"
    using d(4) contains_idx_bits [OF r(1) w] by (auto simp: Keyspace_validate_iff ks'_def)
  moreover have "ks_operators (view_keyspace v) \<noteq> ks_operators ks'"
    using d(3,5) primary strategy by (auto simp: primary_sol_keyspace_def ks'_def bits_eq_iff)
  ultimately have "apply_event_body tp calc cfg ev v = (cfg, Ok ?v)"
    using assms(2) d(2) ks' new at
    by (simp add: ev event_defs view_guards reflects_def outcome_simps ks'_def guard_oc_def)
  moreover have "keyspace_at ver c' = keyspace_at ver (set_keyspace_at (keyspaceVersion c + 1) ks c)" for ver
    by (simp add: d(10) keyspace_at_def)
  then have at': "keyspace_at (keyspaceVersion c + 1) c' = ks" "keyspace_at (keyspaceVersion c) c' = keyspace_at (keyspaceVersion c) c"
    by (simp_all add: keyspace_at_inc [OF d(7)])
  have c': "c_settings c' = c_settings c" "maintenanceSlot c' = maintenanceSlot c" "operatorSlots c' = operatorSlots c"
    "keyspaceVersion c' = keyspaceVersion c + 1" "c_version c' = c_version c + 1"
    "c_migration c' = (c_migration c)\<lparr>mig_id := mig_id (c_migration c) + 1, startedAt := ucast (block_timestamp env),
       pullingOperatorBitmask := ks_bitmask ks\<rparr>"
    by (simp_all add: d(10) set_keyspace_at_def)
  have "reflects tp calc cfg own c' (?v\<lparr>view_cluster_version := c_version c + 1\<rparr>)"
    using assms(2) d(3) ne ks' new(1) at r(1) unfolding reflects_def migration_reflects_def primary_sol_keyspace_def c'
    by (simp add: at' keyspace_reflects_def operators_reflect_cong [OF c'(3)])
  ultimately show ?thesis
    using assms(2) by (intro followsI [where cfg' = cfg]) (auto simp: ev reflects_def)
qed

lemma abort_follows:
  assumes "reflects tp calc cfg own c v" and "exec_call lb env (CAbortMigration id') c = Ok (c', e)"
    and "supported tp cfg env c (CAbortMigration id')" and "Event_from_sol (ucast (block_timestamp env)) e = Some ev"
  shows "follows tp calc cfg own ev v c'"
proof -
  note d = abortMigration_OkD [OF assms(2) [unfolded exec_call.simps]]
  have r: "migration_reflects calc (view_migration v) c"
    using assms(1) by (simp add: reflects_def)
  obtain at where at: "parse_timestamp (ucast (block_timestamp env)) = Ok at"
    using assms(3) by auto
  let ?v = "v\<lparr>view_migration := (view_migration v)\<lparr>migration_state := StateAborted at\<rparr>, view_keyspace_version := keyspaceVersion c - 1\<rparr>"
  have ev: "ev = EvMigrationAborted \<lparr>ma_migration_id = id', ma_at = ucast (block_timestamp env), ma_cluster_version = c_version c + 1\<rparr>"
    using assms(4) unfolding d(7) by (simp add: from_migration_aborted_def)
  have "is_in_progress (view_migration v)" "migration_id (view_migration v) = id'"
    using in_progress_reflects [OF r] r d(2,3) by (simp_all add: migration_reflects_def)
  then have "apply_event_body tp calc cfg ev v = (cfg, Ok ?v)"
    using assms(1) at by (simp add: ev event_defs view_guards reflects_def outcome_simps guard_oc_def)
  moreover have ks: "keyspace_at ver c' = keyspace_at ver c" for ver
    by (rule keyspace_at_cong) (simp add: d(6))
  moreover have c': "c_settings c' = c_settings c" "maintenanceSlot c' = maintenanceSlot c" "operatorSlots c' = operatorSlots c"
    "keyspaceVersion c' = keyspaceVersion c - 1" "c_version c' = c_version c + 1"
    "c_migration c' = (c_migration c)\<lparr>abortedAt := ucast (block_timestamp env), pullingOperatorBitmask := 0\<rparr>"
    by (simp_all add: d(6))
  moreover have "reflects tp calc cfg own c' (?v\<lparr>view_cluster_version := c_version c + 1\<rparr>)"
    using assms(1) d(2,3) at unfolding reflects_def migration_reflects_def primary_sol_keyspace_def ks c'
    by (simp add: operators_reflect_cong [OF c'(3)])
  ultimately show ?thesis
    using assms(1) by (intro followsI [where cfg' = cfg]) (auto simp: ev reflects_def)
qed

lemma complete_follows:
  assumes "reflects tp calc cfg own c v" and "contract_wf c"
    and "exec_call lb env (CCompleteMigration id') c = Ok (c', e)"
    and "supported tp cfg env c (CCompleteMigration id')" and "Event_from_sol ts e = Some ev"
  shows "follows tp calc cfg own ev v c'"
proof -
  note d = completeMigration_OkD [OF assms(3) [unfolded exec_call.simps]]
  let ?i = "operatorSlotIndexes c (msg_sender env)" and ?pulling = "pullingOperatorBitmask (c_migration c)"
  have r: "operators_reflect tp cfg (view_node_operators v) c" "migration_reflects calc (view_migration v) c" and w: "slots_wf c"
    using assms(1,2) by (simp_all add: reflects_def contract_wf_def)
  have idx: "get_idx (view_node_operators v) (msg_sender env) = Some ?i"
    using get_idx_slot [OF r(1) w] d(3) assms(4) by simp
  obtain ks where state: "migration_state (view_migration v) = StateStarted ks (bits ?pulling)"
    and ks: "keyspace_reflects calc ks (keyspace_at (keyspaceVersion c) c)" and id: "migration_id (view_migration v) = id'"
    and started: "parse_timestamp (startedAt (c_migration c)) = Ok (started_at (view_migration v))"
    using r(2) d(1,2) by (auto simp: migration_reflects_def split: MigrationState.splits)
  have at': "keyspace_at ver c' = keyspace_at ver c" for ver
    by (rule keyspace_at_cong) (simp add: d(6))
  have c': "c_settings c' = c_settings c" "maintenanceSlot c' = maintenanceSlot c" "operatorSlots c' = operatorSlots c"
    "keyspaceVersion c' = keyspaceVersion c" "c_version c' = c_version c + 1"
    "c_migration c' = (c_migration c)\<lparr>pullingOperatorBitmask := bm_unset ?pulling ?i\<rparr>"
    by (simp_all add: d(6))
  show ?thesis
  proof (cases "bm_unset ?pulling ?i = 0")
    case True
    then have pulling: "bits ?pulling = {?i}"
      using d(4) bits_bm_unset [of ?pulling ?i] by (auto simp: bits_0)
    have ev: "ev = EvMigrationCompleted \<lparr>mc_migration_id = id', mc_operator_id = msg_sender env, mc_cluster_version = c_version c + 1\<rparr>"
      using assms(5) True unfolding d(7) by simp
    let ?v = "v\<lparr>view_keyspace := ks, view_migration := (view_migration v)\<lparr>migration_state := StateCompleted\<rparr>\<rparr>"
    have "apply_event_body tp calc cfg ev v = (cfg, Ok ?v)"
      using idx state id pulling
      by (simp add: ev event_defs view_guards outcome_simps guard_oc_def is_in_progress_def migration_is_pulling_def
          pulling_count_def complete_migration_def)
    moreover have "reflects tp calc cfg own c' (?v\<lparr>view_cluster_version := c_version c + 1\<rparr>)"
      using assms(1) ks True unfolding reflects_def migration_reflects_def primary_sol_keyspace_def at' c'
      by (simp add: operators_reflect_cong [OF c'(3)])
    ultimately show ?thesis
      using assms(1) by (intro followsI [where cfg' = cfg]) (auto simp: ev reflects_def)
  next
    case False
    have ev: "ev = EvMigrationDataPullCompleted \<lparr>mp_migration_id = id', mp_operator_id = msg_sender env, mp_cluster_version = c_version c + 1\<rparr>"
      using assms(5) False unfolding d(7) by simp
    let ?v = "v\<lparr>view_migration := (view_migration v)\<lparr>migration_state := StateStarted ks (bits ?pulling - {?i})\<rparr>\<rparr>"
    have "apply_event_body tp calc cfg ev v = (cfg, Ok ?v)"
      using idx state id d(4)
      by (simp add: ev event_defs view_guards outcome_simps guard_oc_def is_in_progress_def migration_is_pulling_def
          complete_pull_def)
    moreover have "reflects tp calc cfg own c' (?v\<lparr>view_cluster_version := c_version c + 1\<rparr>)"
      using assms(1) ks False started d(1) bits_bm_unset [of ?pulling ?i]
      unfolding reflects_def migration_reflects_def primary_sol_keyspace_def at' c'
      by (simp add: operators_reflect_cong [OF c'(3)])
    ultimately show ?thesis
      using assms(1) by (intro followsI [where cfg' = cfg]) (auto simp: ev reflects_def)
  qed
qed

lemma call_follows:
  assumes "shard_calculation calc sound" and "reflects tp calc cfg own c v" and "contract_wf c" and "lib_bit_documented lb"
    and "exec_call lb env call c = Ok (c', e)" and "supported tp cfg env c call"
  obtains ev where "Event_from_sol (ucast (block_timestamp env)) e = Some ev" and "follows tp calc cfg own ev v c'"
proof -
  obtain ev where ev: "Event_from_sol (ucast (block_timestamp env)) e = Some ev"
    using assms(5) by (cases call) (auto simp: call_defs outcome_simps split: if_splits)
  have "follows tp calc cfg own ev v c'"
  proof (cases call)
    case CStartMigration
    then show ?thesis using start_follows [OF assms(1-4) _ _ ev] assms(5,6) by blast
  next
    case CCompleteMigration
    then show ?thesis using complete_follows [OF assms(2,3) _ _ ev] assms(5,6) by blast
  next
    case CAbortMigration
    then show ?thesis using abort_follows [OF assms(2) _ _ ev] assms(5,6) by blast
  next
    case CAddNodeOperator
    then show ?thesis using add_follows [OF assms(2-4) _ _ ev] assms(5,6) by blast
  next
    case CUpdateNodeOperatorData
    then show ?thesis using update_follows [OF assms(2,3) _ _ ev] assms(5,6) by blast
  next
    case CRemoveNodeOperator
    then show ?thesis using remove_follows [OF assms(2,3) _ _ ev] assms(5,6) by blast
  next
    case CSetMaintenance
    then show ?thesis using maintenance_follows [OF assms(2) _ _ ev] assms(5,6) by blast
  next
    case CUpdateSettings
    then show ?thesis using settings_follow [OF assms(2) _ _ ev] assms(5,6) by blast
  qed
  with ev that show thesis by blast
qed

section \<open>Runs of the contract\<close>

text \<open>Accepted transactions in sequence, with the events that the nodes receive.\<close>

inductive chain_run :: "lib_bit \<Rightarrow> third_party \<Rightarrow> 'n config \<Rightarrow> Contract \<Rightarrow> Event list \<Rightarrow> Contract \<Rightarrow> bool"
  for lb tp cfg where
  idle: "chain_run lb tp cfg c [] c"
| step: "exec_call lb env call c = Ok (c1, e) \<Longrightarrow> supported tp cfg env c call \<Longrightarrow>
    Event_from_sol (ucast (block_timestamp env)) e = Some ev \<Longrightarrow> chain_run lb tp cfg c1 evs c' \<Longrightarrow>
    chain_run lb tp cfg c (ev # evs) c'"

text \<open>The configuration matters only up to its settings.\<close>

definition same_decoding :: "'n config \<Rightarrow> 'n config \<Rightarrow> bool" where
  "same_decoding cfg cfg' \<longleftrightarrow>
     cfg_encryption_key cfg' = cfg_encryption_key cfg \<and> cfg_new_node cfg' = cfg_new_node cfg"

lemma same_decoding_from_sc:
  assumes "same_decoding cfg cfg'"
  shows "NodeOperator_from_sc tp cfg' sc = (NodeOperator_from_sc tp cfg sc :: ('e, _) outcome)"
  using assms
  unfolding NodeOperator_from_sc_def NodeOperator_try_from_sc_def new_corrupted_def new_nodes_def same_decoding_def
  by presburger

lemma same_decoding_supported:
  assumes "same_decoding cfg cfg'"
  shows "supported tp cfg' env c call = supported tp cfg env c call"
  by (cases call) (simp_all add: same_decoding_from_sc [OF assms])

lemma apply_event_config:
  assumes "apply_event tp calc cfg ev v = (cfg', r)"
  shows "same_decoding cfg cfg'"
proof -
  have "same_decoding cfg (fst (apply_event_body tp calc cfg ev v))"
    by (cases ev) (auto simp: same_decoding_def update_settings_def apply_SettingsUpdated_def split: outcome.splits)
  then show ?thesis
    using assms by (auto simp: apply_event_def Let_def same_decoding_def split: if_splits prod.splits)
qed

lemma chain_run_config:
  assumes "chain_run lb tp cfg c evs c'" and "same_decoding cfg cfg'"
  shows "chain_run lb tp cfg' c evs c'"
  using assms
  by (induction rule: chain_run.induct)
    (auto intro: chain_run.intros simp: same_decoding_supported [OF assms(2), symmetric])

lemma apply_events_run:
  assumes "shard_calculation calc sound" and "lib_bit_documented lb" and "chain_run lb tp cfg0 c evs c'"
    and "same_decoding cfg0 (cl_config cl)" and "contract_wf c" and "reflects tp calc (cl_config cl) own c (cl_view cl)"
  shows "\<exists>cl'. apply_events tp calc (map Ok evs) cl = (cl', Ok ()) \<and> contract_wf c'
    \<and> reflects tp calc (cl_config cl') own c' (cl_view cl') \<and> cl_updates cl' = cl_updates cl + length evs"
  using assms(3-6)
proof (induction arbitrary: cl rule: chain_run.induct)
  case (step env call c c1 e ev evs c')
  have sup: "supported tp (cl_config cl) env c call"
    using step.hyps(2) same_decoding_supported [OF step.prems(1)] by blast
  have "follows tp calc (cl_config cl) own ev (cl_view cl) c1"
    using call_follows [OF assms(1) step.prems(3,2) assms(2) step.hyps(1) sup] step.hyps(3) by fastforce
  then obtain cfg' v' where app: "apply_event tp calc (cl_config cl) ev (cl_view cl) = (cfg', Ok v')"
    and r: "reflects tp calc cfg' own c1 v'"
    by (auto simp: follows_def split: prod.splits outcome.splits)
  have "same_decoding cfg0 cfg'"
    using apply_event_config [OF app] step.prems(1) by (simp add: same_decoding_def)
  moreover have "contract_wf c1"
    using exec_call_wf [OF step.prems(2) assms(2) step.hyps(1)] .
  ultimately obtain cl' where "apply_events tp calc (map Ok evs) (cl\<lparr>cl_config := cfg', cl_view := v', cl_updates := cl_updates cl + 1\<rparr>) = (cl', Ok ())"
    "contract_wf c'" "reflects tp calc (cl_config cl') own c' (cl_view cl')" "cl_updates cl' = cl_updates cl + 1 + length evs"
    using step.IH [of "cl\<lparr>cl_config := cfg', cl_view := v', cl_updates := cl_updates cl + 1\<rparr>"] r by auto
  with app show ?case by simp
qed simp

section \<open>Reading the contract\<close>

lemma getView_slot:
  assumes "lib_bit_documented lb" and "slots_wf c"
  shows "Option.bind (list_get (sc_node_operators (ClusterView_from_sol (getView lb own c))) (unat i)) (\<lambda>slot. slot)
    = (if addr (operatorSlots c i) = 0 then None else Some (NodeOperator_from_sol (operatorSlots c i)))"
proof -
  let ?last = "unat (bm_findLastSet lb (operatorBitmask c))"
  have i: "(of_nat (unat i) :: u8) = i" by simp
  have "unat i \<le> ?last" if "i \<in> bits (operatorBitmask c)"
    using findLastSet_max [OF assms(1) that] by (simp add: word_le_nat_alt)
  moreover have "i \<in> bits (operatorBitmask c) \<longleftrightarrow> addr (operatorSlots c i) \<noteq> 0"
    using assms(2) by (simp add: slots_wf_def)
  ultimately show ?thesis
    by (auto simp: ClusterView_from_sol_def getView_def Let_def list_get_def bitmask_simps i empty_operator_def
        simp del: upt_Suc of_nat_unat unat_of_nat)
qed

lemma operators_and_settings_reflect:
  assumes "lib_bit_documented lb" and "slots_wf c"
    and "operators_and_settings tp (ClusterView_from_sol (getView lb own c)) cfg = Ok (ops, settings)"
  shows "operators_reflect tp cfg ops c"
    and "Settings_try_from_sc (tp_extra_v0 tp) (tp_extra_v1 tp) (Settings_from_sol (c_settings c)) = Ok settings"
proof -
  let ?sc = "ClusterView_from_sol (getView lb own c)"
  obtain slts where slts: "list_all2 (\<lambda>x y. map_opt_oc (NodeOperator_from_sc tp cfg) x = (Ok y :: (ViewTryFromError, _) outcome))
      (sc_node_operators ?sc) slts" and ops: "from_slots slts = Ok ops"
    and settings: "Settings_try_from_sc (tp_extra_v0 tp) (tp_extra_v1 tp) (sc_settings ?sc) = Ok settings"
    using assms(3) by (auto simp: operators_and_settings_def outcome_simps)
  show "Settings_try_from_sc (tp_extra_v0 tp) (tp_extra_v1 tp) (Settings_from_sol (c_settings c)) = Ok settings"
    using settings by (simp add: ClusterView_from_sol_def getView_def Let_def)
  have "slot_reflects tp cfg (get_by_idx ops i) (operatorSlots c i)" for i
  proof (cases "list_get slts (unat i)")
    case None
    then have "list_get (sc_node_operators ?sc) (unat i) = None"
      using list_all2_lengthD [OF slts] by simp
    then have "addr (operatorSlots c i) = 0"
      using getView_slot [OF assms(1,2), of own i] by (simp del: list_get_eq_None split: if_splits)
    with None ops show ?thesis
      by (simp add: from_slots_eq_Ok get_by_idx_def del: list_get_eq_None)
  next
    case (Some slot)
    then obtain x where x: "list_get (sc_node_operators ?sc) (unat i) = Some x"
      and slot: "map_opt_oc (NodeOperator_from_sc tp cfg) x = (Ok slot :: (ViewTryFromError, _) outcome)"
      using list_all2_nthD2 [OF slts, of "unat i"] list_all2_lengthD [OF slts] by auto
    have get: "get_by_idx ops i = slot"
      using Some ops by (simp add: from_slots_eq_Ok get_by_idx_def del: list_get_eq_Some)
    have "x = (if addr (operatorSlots c i) = 0 then None else Some (NodeOperator_from_sol (operatorSlots c i)))"
      using getView_slot [OF assms(1,2), of own i] x by (simp del: list_get_eq_Some)
    with slot show ?thesis
      unfolding get
      by (cases "addr (operatorSlots c i) = 0")
        (auto simp: outcome_simps operator_reflects_iff
          NodeOperator_from_sc_Ok_cast [where 'a = ViewTryFromError and 'b = ViewError])
  qed
  then show "operators_reflect tp cfg ops c"
    using from_slots_wf [OF ops] by (simp add: operators_reflect_def)
qed

lemma u64_even: "(ver :: u64) mod 2 = 0 \<longleftrightarrow> even (unat ver)"
  by (simp add: even_iff_mod_2_eq_zero [symmetric] word_unat_eq_iff unat_mod)

lemma primary_and_secondary_reflect:
  assumes "contract_wf c" and "primary_and_secondary (ClusterView_from_sol (getView lb own c)) = Ok (p, q)"
  shows "p = Keyspace_from_sol (primary_sol_keyspace c)"
    and "pullingOperatorBitmask (c_migration c) \<noteq> 0 \<Longrightarrow> q = Keyspace_from_sol (keyspace_at (keyspaceVersion c) c)"
proof -
  have ver: "odd (unat (keyspaceVersion c - 1)) = even (unat (keyspaceVersion c))" if "keyspaceVersion c \<noteq> 0"
  proof -
    have "keyspaceVersion c - 1 \<noteq> - 1"
      using that by simp
    from parity_inc [OF this] show ?thesis by simp
  qed
  show "p = Keyspace_from_sol (primary_sol_keyspace c)"
    using assms(2) by (auto simp: primary_and_secondary_def ClusterView_from_sol_def getView_def Let_def Migration_from_sol_def
        bitmask_simps outcome_simps primary_sol_keyspace_def keyspace_at_def u64_even split: if_splits)
  show "q = Keyspace_from_sol (keyspace_at (keyspaceVersion c) c)" if "pullingOperatorBitmask (c_migration c) \<noteq> 0"
    using assms that ver by (auto simp: primary_and_secondary_def ClusterView_from_sol_def getView_def Let_def Migration_from_sol_def
        bitmask_simps outcome_simps contract_wf_def keyspace_at_def u64_even split: if_splits)
qed

lemma migration_read_reflects:
  assumes "Migration_try_from_sc (Migration_from_sol (c_migration c)) q = Ok mig0"
    and "calculate_keyspace calc mig0 = (Ok mig :: (ViewTryFromError, _) outcome)"
    and "pullingOperatorBitmask (c_migration c) \<noteq> 0 \<Longrightarrow> q = Keyspace_from_sol (keyspace_at (keyspaceVersion c) c)"
  shows "migration_reflects calc mig c"
  using assms
  by (auto simp: migration_reflects_def calculate_keyspace_def Migration_try_from_sc_def
      Migration_from_sol_def bitmask_simps outcome_simps keyspace_reflects_def split: if_splits)

lemma fetched_view_reflects:
  assumes "lib_bit_documented lb" and "contract_wf c" and "minOperators (c_settings c) = of_nat MIN_OPERATORS"
    and "View_try_from_sc tp calc (ClusterView_from_sol (getView lb own c)) cfg = (cfg', Ok v)"
  shows "reflects tp calc cfg' own c v" and "same_decoding cfg cfg'"
proof -
  let ?sc = "ClusterView_from_sol (getView lb own c)"
  have w: "slots_wf c"
    using assms(2) by (simp add: contract_wf_def)
  obtain ops settings p q ks0 mig0 where os: "operators_and_settings tp ?sc cfg = Ok (ops, settings)"
    and pq: "primary_and_secondary ?sc = Ok (p, q)" and ks0: "Keyspace_try_from_sc p = Ok ks0"
    and mig0: "Migration_try_from_sc (sc_migration ?sc) q = Ok mig0"
    and calc: "calc ks0 = Some (view_keyspace v)"
    and mig: "calculate_keyspace calc mig0 = (Ok (view_migration v) :: (ViewTryFromError, _) outcome)"
    and v: "view_node_operators v = ops" "view_ownership v = Ownership_new (sc_owner ?sc)" "view_settings v = settings"
      "view_keyspace_version v = sc_keyspace_version ?sc" "view_maintenance v = map_option Maintenance_new (sc_slot (sc_maintenance ?sc))"
      "view_cluster_version v = sc_cluster_version ?sc"
    and cfg': "cfg' = update_settings settings cfg"
    using assms(4) by (auto simp: View_try_from_sc_def outcome_simps split: outcome.splits prod.splits)
  note pq' = primary_and_secondary_reflect [OF assms(2) pq]
  have "keyspace_reflects calc (view_keyspace v) (primary_sol_keyspace c)"
    using ks0 calc pq'(1) by (simp add: keyspace_reflects_def)
  moreover have "migration_reflects calc (view_migration v) c"
    by (rule migration_read_reflects [OF _ mig pq'(2)]) (use mig0 in \<open>simp_all add: ClusterView_from_sol_def getView_def Let_def\<close>)
  moreover note operators_and_settings_reflect [OF assms(1) w os]
  ultimately show "reflects tp calc cfg' own c v"
    using assms(3) v unfolding reflects_def cfg' operators_reflect_settings
    by (simp add: ClusterView_from_sol_def getView_def Let_def Ownership_new_def)
  show "same_decoding cfg cfg'"
    by (simp add: cfg' same_decoding_def update_settings_def)
qed



section \<open>A concrete contract\<close>

definition sample_chain_operators :: "SolNodeOperator list" where
  "sample_chain_operators = map (\<lambda>a. \<lparr>addr = a, op_data = [2]\<rparr>) [1, 2, 3, 4, 5]"

definition sample_chain_settings :: SolSettings where
  "sample_chain_settings = \<lparr>maxOperatorDataBytes = 4096, minOperators = 5, extra_bytes = [1]\<rparr>"

definition sample_chain :: Contract where
  "sample_chain =
     \<lparr>c_settings = sample_chain_settings, c_version = 1,
      operatorSlots = (\<lambda>_. empty_operator)(0 := \<lparr>addr = 1, op_data = [2]\<rparr>, 1 := \<lparr>addr = 2, op_data = [2]\<rparr>,
        2 := \<lparr>addr = 3, op_data = [2]\<rparr>, 3 := \<lparr>addr = 4, op_data = [2]\<rparr>, 4 := \<lparr>addr = 5, op_data = [2]\<rparr>),
      operatorSlotIndexes = (\<lambda>_. 0)(1 := 0, 2 := 1, 3 := 2, 4 := 3, 5 := 4), operatorBitmask = 31,
      c_keyspaces = (\<lparr>ks_bitmask = bm_fill 5, replicationStrategy = 0\<rparr>, \<lparr>ks_bitmask = 0, replicationStrategy = 0\<rparr>),
      keyspaceVersion = 0,
      c_migration = \<lparr>mig_id = 0, startedAt = 0, abortedAt = 0, pullingOperatorBitmask = 0\<rparr>, maintenanceSlot = 0\<rparr>"

lemma sample_chain_initialized:
  "sol_initialize sample_chain_settings sample_chain_operators blank_contract
   = Ok (sample_chain, ClusterInitialized sample_chain_operators sample_chain_settings 1)"
  by (simp add: sample_chain_def sol_initialize_def sample_chain_operators_def sample_chain_settings_def blank_contract_def
      init_operator_def validateOperatorData_def put_operator_def emit_def checked_inc_def MAX_OPERATORS_SOL_def
      bm_isSet_def bm_set_def Let_def guard_oc_def)

lemma sample_chain_reachable: "reachable_contract lb sample_chain"
  by (rule reachable_contract.init [OF _ _ sample_chain_initialized]) (auto simp: sample_chain_operators_def)

lemma sample_chain_wf: "contract_wf sample_chain"
  by (rule reachable_contract_wf [OF sample_lib_bit_documented sample_chain_reachable])

lemma sample_chain_bits: "bits (operatorBitmask sample_chain) = {0, 1, 2, 3, 4}"
proof -
  have "slots_wf sample_chain"
    using sample_chain_wf by (simp add: contract_wf_def)
  then have "i \<in> bits (operatorBitmask sample_chain) \<longleftrightarrow> addr (operatorSlots sample_chain i) \<noteq> 0" for i
    by (simp add: slots_wf_def)
  moreover have "addr (operatorSlots sample_chain i) \<noteq> 0 \<longleftrightarrow> i \<in> {0, 1, 2, 3, 4}" for i
    by (simp add: sample_chain_def empty_operator_def)
  ultimately show ?thesis
    by blast
qed

lemma findLastSet_eq:
  assumes "lib_bit_documented lb" and "i \<in> bits m" and "\<forall>j \<in> bits m. j \<le> i"
  shows "bm_findLastSet lb m = i"
proof (rule antisym)
  have "m \<noteq> 0"
    using assms(2) by (auto simp: bits_0)
  then have "bm_findLastSet lb m \<in> bits m"
    by (rule findLastSet_in [OF assms(1)])
  then show "bm_findLastSet lb m \<le> i"
    using assms(3) by blast
qed (rule findLastSet_max [OF assms(1,2)])

lemma sample_chain_view: "ClusterView_from_sol (getView sample_lib_bit 99 sample_chain) = sample_sc_view"
proof -
  have last: "bm_findLastSet sample_lib_bit (operatorBitmask sample_chain) = 4"
    by (rule findLastSet_eq [OF sample_lib_bit_documented]) (auto simp: sample_chain_bits word_le_nat_alt)
  have upt: "[0..<unat (4 :: u8) + 1] = [0, 1, 2, 3, 4]"
    by (simp add: upt_rec)
  have "sv_operatorSlots (getView sample_lib_bit 99 sample_chain) = sample_chain_operators"
    unfolding getView_def Let_def last upt
    by (simp add: bm_isSet_iff sample_chain_bits) (simp add: sample_chain_def sample_chain_operators_def)
  moreover have "bits (bm_fill 5) = {0, 1, 2, 3, 4}"
  proof -
    have "bits (bm_fill (of_nat 5)) = of_nat ` {..<5}"
      by (rule bits_fill) simp
    also have "{..<5} = {0, 1, 2, 3, 4 :: nat}"
      by auto
    finally show ?thesis by simp
  qed
  moreover have "sv_owner (getView sample_lib_bit 99 sample_chain) = 99"
    "sv_settings (getView sample_lib_bit 99 sample_chain) = sample_chain_settings"
    "sv_version (getView sample_lib_bit 99 sample_chain) = 1"
    "sv_keyspaceVersion (getView sample_lib_bit 99 sample_chain) = 0"
    "sv_keyspaces (getView sample_lib_bit 99 sample_chain) = c_keyspaces sample_chain"
    "sv_migration (getView sample_lib_bit 99 sample_chain) = c_migration sample_chain"
    "sv_maintenanceSlot (getView sample_lib_bit 99 sample_chain) = 0"
    by (simp_all add: getView_def Let_def sample_chain_def)
  ultimately show ?thesis
    by (simp add: ClusterView_from_sol_def bitmask_simps sample_chain_operators_def
        sample_sc_view_def NodeOperator_from_sol_def Settings_from_sol_def sample_chain_settings_def
        Keyspace_from_sol_def Migration_from_sol_def) (simp add: sample_chain_def bitmask_simps)
qed

definition sample_tx :: tx_env where
  "sample_tx = \<lparr>msg_sender = 99, block_timestamp = 1000, contract_owner = 99\<rparr>"

definition sample_call :: ContractCall where
  "sample_call = CAddNodeOperator \<lparr>addr = 9, op_data = [2]\<rparr>"

lemma sample_call_accepted:
  obtains c' where "exec_call sample_lib_bit sample_tx sample_call sample_chain
    = Ok (c', SolNodeOperatorAdded 9 (bm_findFirstUnset sample_lib_bit (operatorBitmask sample_chain)) [2] 2)"
  by (simp add: sample_call_def sample_tx_def sample_chain_def sample_chain_settings_def call_defs guard_oc_def put_operator_def)

lemma sample_call_supported: "supported (sample_third_party sample_data) sample_config sample_tx sample_chain sample_call"
  by (simp add: sample_call_def NodeOperator_from_sol_def NodeOperator_from_sc_def NodeOperator_try_from_sc_def)



end
