(* ===== verification/Request_Acceptance.thy ===== *)
theory Request_Acceptance
  imports Chain_Refinement
begin

text \<open>
  The checks of \<open>Cluster\<close> before a call against the checks of the contract: a request that passes the
  checks on a view that reflects the contract is accepted by the contract. The exceptions, where the
  contract checks more, are stated by \<open>checked_on_chain_only\<close>.
\<close>

datatype Request =
    RqStartMigration Plan | RqCompleteMigration migration_ident | RqAbortMigration migration_ident
  | RqStartMaintenance | RqFinishMaintenance
  | RqAddNodeOperator "Node NodeOperator" | RqUpdateNodeOperator "Node NodeOperator" | RqRemoveNodeOperator operator_id
  | RqUpdateSettings Settings

fun ok_value :: "('e, 'a) outcome \<Rightarrow> 'a option" where
  "ok_value (Ok x) = Some x"
| "ok_value _ = None"

text \<open>The call that a request makes; \<open>None\<close> if it is refused before.\<close>

fun request_call ::
  "third_party \<Rightarrow> EncryptionKey \<Rightarrow> AccountAddress \<Rightarrow> ('n, 's) View \<Rightarrow> Request \<Rightarrow> WriteCall option" where
  "request_call tp key signer v (RqStartMigration plan) = ok_value (start_migration_call (Some signer) v plan)"
| "request_call tp key signer v (RqCompleteMigration id') = ok_value (complete_migration_call (Some signer) v id')"
| "request_call tp key signer v (RqAbortMigration id') = ok_value (abort_migration_call (Some signer) v id')"
| "request_call tp key signer v RqStartMaintenance = ok_value (start_maintenance_call (Some signer) v)"
| "request_call tp key signer v RqFinishMaintenance = ok_value (finish_maintenance_call (Some signer) v)"
| "request_call tp key signer v (RqAddNodeOperator op) = ok_value (add_node_operator_call tp key (Some signer) v op)"
| "request_call tp key signer v (RqUpdateNodeOperator op) = ok_value (update_node_operator_call tp key (Some signer) v op)"
| "request_call tp key signer v (RqRemoveNodeOperator id') = ok_value (remove_node_operator_call v id')"
| "request_call tp key signer v (RqUpdateSettings s) = ok_value (update_settings_call tp (Some signer) v s)"

text \<open>
  What only the contract checks: the zero address, that only the owner removes operators, and that
  who finishes a maintenance is still an operator or the owner.
\<close>

fun checked_on_chain_only :: "AccountAddress \<Rightarrow> ('n, 's) View \<Rightarrow> Request \<Rightarrow> bool" where
  "checked_on_chain_only signer v (RqAddNodeOperator op) \<longleftrightarrow> operator_id op \<noteq> 0"
| "checked_on_chain_only signer v (RqRemoveNodeOperator _) \<longleftrightarrow> is_owner (view_ownership v) signer"
| "checked_on_chain_only signer v RqFinishMaintenance \<longleftrightarrow>
     is_owner (view_ownership v) signer \<or> contains (view_node_operators v) signer"
| "checked_on_chain_only signer v _ \<longleftrightarrow> True"

text \<open>The counters of the contract have not reached their maximum.\<close>

definition counters_left :: "Contract \<Rightarrow> bool" where
  "counters_left c \<longleftrightarrow> c_version c \<noteq> - 1 \<and> keyspaceVersion c \<noteq> - 1 \<and> mig_id (c_migration c) \<noteq> - 1"

lemma ok_value_eq_Some [simp]: "ok_value r = Some x \<longleftrightarrow> r = Ok x"
  by (cases r) auto

lemmas request_defs = start_migration_call_def complete_migration_call_def abort_migration_call_def
  start_maintenance_call_def finish_maintenance_call_def add_node_operator_call_def update_node_operator_call_def
  remove_node_operator_call_def update_settings_call_def smart_contract_signer_def require_owner_def is_owner_def

text \<open>The operators of a new keyspace come from the old one or from the slots.\<close>

lemma plan_fold_operators:
  assumes "try_fold step xs ops = Ok ops'"
    and "\<And>x os os'. step x os = Ok os' \<Longrightarrow> \<exists>i. P i \<and> os' \<subseteq> insert i os"
  shows "\<forall>i \<in> ops'. i \<in> ops \<or> P i"
  using assms(1)
proof (induction xs arbitrary: ops)
  case (Cons x xs)
  then obtain os where os: "step x ops = Ok os" "try_fold step xs os = Ok ops'"
    by (auto simp: outcome_simps)
  obtain i where "P i" "os \<subseteq> insert i ops"
    using assms(2) [OF os(1)] by blast
  then show ?case
    using Cons.IH [OF os(2)] by blast
qed simp

lemma new_keyspace_occupied:
  assumes "try_fold (plan_remove_step v) xs (ks_operators (view_keyspace v)) = Ok os"
    and "try_fold (plan_add_step v) ys os = Ok ops" and "i \<in> ops"
  shows "i \<in> ks_operators (view_keyspace v) \<or> (\<exists>a. get_idx (view_node_operators v) a = Some i)"
proof -
  let ?P = "\<lambda>i. \<exists>a. get_idx (view_node_operators v) a = Some i"
  have "\<exists>i. ?P i \<and> os' \<subseteq> insert i os" if "plan_remove_step v x os = Ok os'" for x os os'
    using that by (auto simp: plan_remove_step_def require_idx_def outcome_simps)
  from plan_fold_operators [OF assms(1), of ?P, OF this] have "\<forall>i \<in> os. i \<in> ks_operators (view_keyspace v) \<or> ?P i" .
  moreover have "\<exists>i. ?P i \<and> os' \<subseteq> insert i os" if "plan_add_step v x os = Ok os'" for x os os'
    using that by (auto simp: plan_add_step_def require_idx_def outcome_simps)
  from plan_fold_operators [OF assms(2), of ?P, OF this] have "\<forall>i \<in> ops. i \<in> os \<or> ?P i" .
  ultimately show ?thesis
    using assms(3) by blast
qed

lemma countSet_less_iff:
  assumes "lib_bit_documented lb"
  shows "bm_countSet lb m < ucast (n :: u8) \<longleftrightarrow> card (bits m) < unat n"
    and "bm_countSet lb m \<le> ucast (n :: u8) \<longleftrightarrow> card (bits m) \<le> unat n"
proof -
  have "unat (ucast n :: u16) = unat n"
    using unat_u8_less [of n] by (simp add: unat_ucast_mod del: unat_u8_less)
  then show "bm_countSet lb m < ucast n \<longleftrightarrow> card (bits m) < unat n" "bm_countSet lb m \<le> ucast n \<longleftrightarrow> card (bits m) \<le> unat n"
    using assms by (simp_all add: unat_countSet word_less_nat_alt word_le_nat_alt)
qed

lemma Settings_try_from_sc_max:
  "Settings_try_from_sc pc0 pc1 sc = Ok s \<Longrightarrow> max_node_operator_data_bytes s = sc_max_node_operator_data_bytes sc"
  by (auto simp: Settings_try_from_sc_def outcome_simps split: list.splits if_splits)

text \<open>What a reflecting view knows about the contract.\<close>

definition in_sync ::
  "lib_bit \<Rightarrow> third_party \<Rightarrow> (operator_idx \<times> nat \<Rightarrow> u64) \<Rightarrow> 'n config \<Rightarrow> tx_env \<Rightarrow> Contract
   \<Rightarrow> ('n, operator_idx ShardingKeyspace) View \<Rightarrow> bool" where
  "in_sync lb tp h cfg env c v \<longleftrightarrow>
     lib_bit_documented lb \<and> contract_wf c \<and> reflects tp (calculate_shards h) cfg (contract_owner env) c v
     \<and> counters_left c \<and> msg_sender env \<noteq> 0"

lemma in_syncD:
  assumes "in_sync lb tp h cfg env c v"
  shows "lib_bit_documented lb" "slots_wf c" "operators_reflect tp cfg (view_node_operators v) c"
    "owner (view_ownership v) = contract_owner env" "c_version c \<noteq> - 1" "keyspaceVersion c \<noteq> - 1" "mig_id (c_migration c) \<noteq> - 1"
    "is_in_progress (view_migration v) \<longleftrightarrow> pullingOperatorBitmask (c_migration c) \<noteq> 0"
    "migration_id (view_migration v) = mig_id (c_migration c)"
    "view_maintenance v = (if maintenanceSlot c = 0 then None else Some (Maintenance_new (maintenanceSlot c)))"
    "maxOperatorDataBytes (c_settings c) = max_node_operator_data_bytes (view_settings v)"
    "unat (minOperators (c_settings c)) = 5"
    "ks_operators (view_keyspace v) = bits (ks_bitmask (primary_sol_keyspace c))"
    "5 \<le> card (ks_operators (view_keyspace v))"
    "ks_operators (view_keyspace v) \<subseteq> bits (operatorBitmask c)"
    "replicationStrategy (primary_sol_keyspace c) = 0"
proof -
  have r: "reflects tp (calculate_shards h) cfg (contract_owner env) c v" and wf: "contract_wf c"
    using assms by (simp_all add: in_sync_def)
  then have ks: "keyspace_reflects (calculate_shards h) (view_keyspace v) (primary_sol_keyspace c)"
    by (simp add: reflects_def)
  note k = keyspace_reflects_operators [OF calc_shards.shard_calculation_axioms ks]
  show "ks_operators (view_keyspace v) = bits (ks_bitmask (primary_sol_keyspace c))"
    by (rule k(1))
  show "5 \<le> card (ks_operators (view_keyspace v))"
    using k(2) by (simp add: keyspace_wf_def REPLICATION_FACTOR_def)
  show "ks_operators (view_keyspace v) \<subseteq> bits (operatorBitmask c)"
    using wf k(1) by (simp add: contract_wf_def)
  show "replicationStrategy (primary_sol_keyspace c) = 0"
    by (rule k(3))
  have m: "migration_reflects (calculate_shards h) (view_migration v) c"
    using r by (simp add: reflects_def)
  show "is_in_progress (view_migration v) \<longleftrightarrow> pullingOperatorBitmask (c_migration c) \<noteq> 0"
    by (rule in_progress_reflects [OF m])
  show "migration_id (view_migration v) = mig_id (c_migration c)"
    using m by (simp add: migration_reflects_def)
  have "Settings_try_from_sc (tp_extra_v0 tp) (tp_extra_v1 tp) (Settings_from_sol (c_settings c)) = Ok (view_settings v)"
    using r by (simp add: reflects_def)
  then show "maxOperatorDataBytes (c_settings c) = max_node_operator_data_bytes (view_settings v)"
    using Settings_try_from_sc_max by (fastforce simp: Settings_from_sol_def)
qed (use assms in \<open>simp_all add: in_sync_def contract_wf_def reflects_def counters_left_def MIN_OPERATORS_def REPLICATION_FACTOR_def\<close>)

lemma accept_complete_migration:
  assumes "in_sync lb tp h cfg env c v" and "complete_migration_call (Some (msg_sender env)) v id' = Ok call"
    and "contract_call call = Some cc"
  shows "\<exists>c' e. exec_call lb env cc c = Ok (c', e)"
proof -
  note s = in_syncD [OF assms(1)]
  obtain i where idx: "get_idx (view_node_operators v) (msg_sender env) = Some i" and prog: "is_in_progress (view_migration v)"
    and id: "id' = migration_id (view_migration v)" and pull: "migration_is_pulling (view_migration v) i" and cc: "cc = CCompleteMigration id'"
    using assms(2,3) by (auto simp: request_defs view_guards outcome_simps split: if_splits)
  have "migration_reflects (calculate_shards h) (view_migration v) c"
    using assms(1) by (simp add: in_sync_def reflects_def)
  then have "i \<in> bits (pullingOperatorBitmask (c_migration c))"
    using pull by (auto simp: migration_reflects_def migration_is_pulling_def split: MigrationState.splits)
  then show ?thesis
    using get_idx_slot [OF s(3,2)] idx s(5,8,9) prog id by (simp add: cc call_defs guard_oc_def bitmask_simps)
qed

lemma accept_abort_migration:
  assumes "in_sync lb tp h cfg env c v" and "abort_migration_call (Some (msg_sender env)) v id' = Ok call"
    and "contract_call call = Some cc"
  shows "\<exists>c' e. exec_call lb env cc c = Ok (c', e)"
proof -
  note s = in_syncD [OF assms(1)]
  have "is_in_progress (view_migration v)" "id' = migration_id (view_migration v)" "msg_sender env = contract_owner env"
    "cc = CAbortMigration id'"
    using assms(2,3) s(4) by (auto simp: request_defs view_guards outcome_simps split: if_splits)
  moreover from this have "keyspaceVersion c \<noteq> 0"
    using assms(1) s(8) by (simp add: in_sync_def contract_wf_def)
  ultimately show ?thesis
    using s(5,8,9) by (simp add: call_defs guard_oc_def)
qed

lemma accept_maintenance:
  assumes "in_sync lb tp h cfg env c v" and "contract_call call = Some cc"
    and "start_maintenance_call (Some (msg_sender env)) v = Ok call
      \<or> finish_maintenance_call (Some (msg_sender env)) v = Ok call
         \<and> (msg_sender env = contract_owner env \<or> contains (view_node_operators v) (msg_sender env))"
  shows "\<exists>c' e. exec_call lb env cc c = Ok (c', e)"
proof -
  note s = in_syncD [OF assms(1)]
  have "msg_sender env \<noteq> 0"
    using assms(1) by (simp add: in_sync_def)
  then have member: "addr (operatorSlots c (operatorSlotIndexes c (msg_sender env))) = msg_sender env"
    if "contains (view_node_operators v) (msg_sender env)"
    using that get_idx_absent [OF s(3,2)] by (simp add: contains_def)
  from assms(3) show ?thesis
  proof
    assume "start_maintenance_call (Some (msg_sender env)) v = Ok call"
    then show ?thesis
      using assms(2) member s(4,5,10)
      by (auto simp: request_defs view_guards outcome_simps call_defs guard_oc_def split: if_splits option.splits)
  next
    assume "finish_maintenance_call (Some (msg_sender env)) v = Ok call
         \<and> (msg_sender env = contract_owner env \<or> contains (view_node_operators v) (msg_sender env))"
    then show ?thesis
      using assms(2) member s(4,5,10)
      by (auto simp: request_defs view_guards outcome_simps call_defs guard_oc_def Maintenance_new_def split: if_splits option.splits)
  qed
qed

lemma accept_start_migration:
  assumes "in_sync lb tp h cfg env c v" and "start_migration_call (Some (msg_sender env)) v plan = Ok call"
    and "contract_call call = Some cc"
  shows "\<exists>c' e. exec_call lb env cc c = Ok (c', e)"
proof -
  note s = in_syncD [OF assms(1)]
  obtain os ops ks where owner: "msg_sender env = contract_owner env" and idle: "\<not> is_in_progress (view_migration v)"
    and none: "view_maintenance v = None"
    and os: "try_fold (plan_remove_step v) (sorted_list_of_set (plan_remove plan)) (ks_operators (view_keyspace v)) = Ok os"
    and ops: "try_fold (plan_add_step v) (sorted_list_of_set (plan_add plan)) os = Ok ops"
    and ks: "Keyspace_new ops (plan_replication_strategy plan) = Ok ks"
    and diff: "require_diff (view_keyspace v) ks = Ok ()"
    and cc: "cc = CStartMigration (Keyspace_into_sol (Keyspace_into_sc ks))"
    using assms(2,3) s(4)
    by (auto simp: request_defs require_no_migration_def require_no_maintenance_def outcome_simps split: option.splits)
  have k: "ks_operators ks = ops" "5 \<le> card ops"
    using ks by (auto simp: Keyspace_new_def REPLICATION_FACTOR_def split: if_splits)
  have bits: "bits (ks_bitmask (Keyspace_into_sol (Keyspace_into_sc ks))) = ops"
    by (simp add: bits_Keyspace_into_sol Keyspace_into_sc_def k)
  have "ks_replication_strategy (view_keyspace v) = ks_replication_strategy ks"
    by (cases "ks_replication_strategy (view_keyspace v)"; cases "ks_replication_strategy ks") simp
  then have "ks_bitmask (primary_sol_keyspace c) \<noteq> ks_bitmask (Keyspace_into_sol (Keyspace_into_sc ks))"
    using diff s(13) bits k by (auto simp: require_diff_def outcome_simps)
  moreover have "primary_sol_keyspace c = keyspace_at (keyspaceVersion c) c"
    using idle s(8) by (simp add: primary_sol_keyspace_def)
  moreover have "ops \<subseteq> bits (operatorBitmask c)"
  proof
    fix i
    assume "i \<in> ops"
    then consider "i \<in> ks_operators (view_keyspace v)" | a where "get_idx (view_node_operators v) a = Some i"
      using new_keyspace_occupied [OF os ops] by blast
    then show "i \<in> bits (operatorBitmask c)"
    proof cases
      case 2
      then have "contains_idx (view_node_operators v) i"
        using s(3) nops.index_occupied by (auto simp: contains_idx_def operators_reflect_def)
      then show ?thesis
        by (simp add: contains_idx_bits [OF s(3,2)])
    qed (use s(15) in blast)
  qed
  ultimately show ?thesis
    using owner idle none s(5-8,10,12) k(2) bits
    by (simp add: cc call_defs guard_oc_def bitmask_simps countSet_less_iff [OF s(1)] set_keyspace_at_def split: if_splits)
qed

lemma accept_add_node_operator:
  assumes "in_sync lb tp h cfg env c v" and "add_node_operator_call tp key (Some (msg_sender env)) v op = Ok call"
    and "operator_id op \<noteq> 0" and "contract_call call = Some cc"
  shows "\<exists>c' e. exec_call lb env cc c = Ok (c', e)"
proof -
  note s = in_syncD [OF assms(1)]
  obtain sc where owner: "msg_sender env = contract_owner env" and new: "get_idx (view_node_operators v) (operator_id op) = None"
    and room: "length (slots (view_node_operators v)) < 256 \<or> list_ex (\<lambda>slot. slot = None) (slots (view_node_operators v))"
    and sc: "NodeOperator_try_into_sc tp key op = Ok sc"
    and len: "length (sc_operator_data sc) \<le> unat (max_node_operator_data_bytes (view_settings v))"
    and cc: "cc = CAddNodeOperator (NodeOperator_into_sol sc)"
    using assms(2,4) s(4)
    by (auto simp: request_defs view_guards require_not_full_def validate_data_def contains_def MAX_OPERATORS_def outcome_simps Let_def
        split: if_splits)
  have id: "sc_operator_id sc = operator_id op" and ne: "sc_operator_data sc \<noteq> []"
    using sc by (auto simp: NodeOperator_try_into_sc_def outcome_simps)
  have absent: "addr (operatorSlots c (operatorSlotIndexes c (operator_id op))) \<noteq> operator_id op"
    using get_idx_absent [OF s(3,2) assms(3)] new by simp
  have zero: "operatorSlotIndexes c (operator_id op) = 0"
    using absent s(2) by (auto simp: slots_wf_def)
  moreover have "addr (operatorSlots c 0) \<noteq> operator_id op"
    using absent zero by simp
  moreover have "\<exists>i. \<not> contains_idx (view_node_operators v) i"
  proof -
    let ?slots = "slots (view_node_operators v)"
    obtain n where n: "n < 256" "n < length ?slots \<longrightarrow> ?slots ! n = None"
    proof (cases "length ?slots < 256")
      case False
      then obtain n where "n < length ?slots" "?slots ! n = None"
        using room by (auto simp: list_ex_iff in_set_conv_nth)
      moreover have "length ?slots \<le> 256"
        using s(3) by (simp add: operators_reflect_def nops_wf_def MAX_OPERATORS_def)
      ultimately show thesis
        using that [of n] by simp
    qed (use that in blast)
    then have "get_by_idx (view_node_operators v) (of_nat n) = None"
      by (simp add: get_by_idx_def list_get_def)
    then show ?thesis
      by (auto simp: contains_idx_def)
  qed
  then have "operatorBitmask c \<noteq> - 1"
    using contains_idx_bits [OF s(3,2)] bits_full by auto
  ultimately show ?thesis
    using owner s(5,11) assms(3) id ne len
    by (simp add: cc call_defs guard_oc_def NodeOperator_into_sol_def put_operator_def)
qed

lemma accept_update_node_operator:
  assumes "in_sync lb tp h cfg env c v" and "update_node_operator_call tp key (Some (msg_sender env)) v op = Ok call"
    and "contract_call call = Some cc"
  shows "\<exists>c' e. exec_call lb env cc c = Ok (c', e)"
proof -
  note s = in_syncD [OF assms(1)]
  obtain sc i where auth: "msg_sender env = operator_id op \<or> msg_sender env = contract_owner env"
    and idx: "get_idx (view_node_operators v) (operator_id op) = Some i"
    and sc: "NodeOperator_try_into_sc tp key op = Ok sc"
    and len: "length (sc_operator_data sc) \<le> unat (max_node_operator_data_bytes (view_settings v))"
    and cc: "cc = CUpdateNodeOperatorData (sc_operator_id sc) (sc_operator_data sc)"
    using assms(2,3) s(4)
    by (auto simp: request_defs view_guards validate_data_def outcome_simps Let_def NodeOperator_into_sol_def split: if_splits)
  have "sc_operator_id sc = operator_id op" "sc_operator_data sc \<noteq> []"
    using sc by (auto simp: NodeOperator_try_into_sc_def outcome_simps)
  moreover have "addr (operatorSlots c (operatorSlotIndexes c (operator_id op))) = operator_id op"
    using get_idx_slot [OF s(3,2)] idx by simp
  ultimately show ?thesis
    using auth len s(5,11) by (auto simp: cc call_defs guard_oc_def)
qed

lemma accept_remove_node_operator:
  assumes "in_sync lb tp h cfg env c v" and "remove_node_operator_call v id' = Ok call"
    and "msg_sender env = contract_owner env" and "contract_call call = Some cc"
  shows "\<exists>c' e. exec_call lb env cc c = Ok (c', e)"
proof -
  note s = in_syncD [OF assms(1)]
  obtain i where idx: "get_idx (view_node_operators v) id' = Some i" and prim: "i \<notin> ks_operators (view_keyspace v)"
    and mig: "\<forall>ks. migration_keyspace (view_migration v) = Some ks \<longrightarrow> i \<notin> ks_operators ks" and cc: "cc = CRemoveNodeOperator id'"
    using assms(2,4) by (auto simp: request_defs view_guards outcome_simps contains_operator_def split: option.splits)
  have slot: "operatorSlotIndexes c id' = i" "addr (operatorSlots c i) = id'" "id' \<noteq> 0"
    using get_idx_slot [OF s(3,2)] idx by auto
  have "i \<in> bits (operatorBitmask c)"
    using s(2) slot by (simp add: slots_wf_def)
  then have "insert i (ks_operators (view_keyspace v)) \<subseteq> bits (operatorBitmask c)"
    using s(15) by blast
  then have "card (insert i (ks_operators (view_keyspace v))) \<le> card (bits (operatorBitmask c))"
    by (intro card_mono) simp_all
  then have count: "5 < card (bits (operatorBitmask c))"
    using prim s(14) by simp
  have out: "i \<notin> bits (ks_bitmask (keyspace_at (keyspaceVersion c) c))
    \<and> (pullingOperatorBitmask (c_migration c) \<noteq> 0 \<longrightarrow> i \<notin> bits (ks_bitmask (keyspace_at (keyspaceVersion c - 1) c)))"
  proof (cases "pullingOperatorBitmask (c_migration c) = 0")
    case True
    then show ?thesis
      using prim s(13) by (simp add: primary_sol_keyspace_def)
  next
    case False
    have "migration_reflects (calculate_shards h) (view_migration v) c"
      using assms(1) by (simp add: in_sync_def reflects_def)
    then obtain ks where "migration_keyspace (view_migration v) = Some ks"
      "keyspace_reflects (calculate_shards h) ks (keyspace_at (keyspaceVersion c) c)"
      using False by (auto simp: migration_reflects_def migration_keyspace_def split: MigrationState.splits)
    then have "i \<notin> bits (ks_bitmask (keyspace_at (keyspaceVersion c) c))"
      using mig keyspace_reflects_operators(1) [OF calc_shards.shard_calculation_axioms] by metis
    then show ?thesis
      using prim s(13) False by (simp add: primary_sol_keyspace_def)
  qed
  have parity: "even (unat (keyspaceVersion c - 1)) = odd (unat (keyspaceVersion c))" if "pullingOperatorBitmask (c_migration c) \<noteq> 0"
  proof -
    have "keyspaceVersion c - 1 \<noteq> - 1"
      using that assms(1) by (simp add: in_sync_def contract_wf_def)
    from parity_inc [OF this] show ?thesis by simp
  qed
  have "\<not> (if pullingOperatorBitmask (c_migration c) > 0 then isSlotInKeyspace i 0 c \<or> isSlotInKeyspace i 1 c
      else isSlotInKeyspace i (keyspaceVersion c) c)"
    using out parity by (auto simp: isSlotInKeyspace_def keyspace_at_def bitmask_simps word_gt_0 split: if_splits)
  then show ?thesis
    using assms(3) slot(1,2) count s(5,12)
    by (simp add: cc call_defs guard_oc_def countSet_less_iff [OF s(1)])
qed

lemma accept_update_settings:
  assumes "in_sync lb tp h cfg env c v" and "update_settings_call tp (Some (msg_sender env)) v st = Ok call"
    and "contract_call call = Some cc"
  shows "\<exists>c' e. exec_call lb env cc c = Ok (c', e)"
proof -
  note s = in_syncD [OF assms(1)]
  obtain sc where owner: "msg_sender env = contract_owner env" and cc: "cc = CUpdateSettings (Settings_into_sol sc)"
    using assms(2,3) s(4) by (auto simp: request_defs outcome_simps)
  have "card (ks_operators (view_keyspace v)) \<le> card (bits (operatorBitmask c))"
    using s(15) by (intro card_mono) simp_all
  then have "\<not> bm_countSet lb (operatorBitmask c) < ucast (5 :: u8)"
    using s(14) by (simp only: countSet_less_iff [OF s(1)]) simp
  then show ?thesis
    using owner s(5)
    by (simp add: cc call_defs guard_oc_def Settings_into_sol_def MIN_OPERATORS_def REPLICATION_FACTOR_def)
qed



end
