(* ===== verification/Rocks_Context.thy ===== *)
theory Rocks_Context
  imports WCN_Prelude "HOL-Library.Multiset"
begin

text \<open>
  Model of the value layer of the storage engine: \<open>crates/rocks/src/db/context.rs\<close> (merge operations,
  the data context that wraps every stored value), \<open>db/compaction/merge.rs\<close> (the merge operator that
  RocksDB calls back) and \<open>db/compaction/filters.rs\<close> (the compaction filter). Values are serialised by
  \<open>postcard\<close>, a parameter; the clock readings \<open>timestamp_secs\<close> and \<open>timestamp_micros\<close> are arguments.
\<close>

section \<open>Errors of the storage engine\<close>

datatype RocksError =
    Serialize
  | Deserialize
  | EntryNotFound
  | Backend string string
  | InvalidColumnFamily
  | WorkerChannelClosed
  | WorkerQueueOverrun
  | Other string

definition serialize :: "'a codec \<Rightarrow> 'a \<Rightarrow> (RocksError, u8 list) outcome" where
  "serialize c x = map_err (\<lambda>_. Serialize) (codec_ser c x)"

definition deserialize :: "'a codec \<Rightarrow> u8 list \<Rightarrow> (RocksError, 'a) outcome" where
  "deserialize c bs = map_err (\<lambda>_. Deserialize) (codec_de c bs)"

section \<open>Merge operations\<close>

type_synonym UnixTimestampSecs = u64
type_synonym UnixTimestampMicros = u64

datatype 'v Payload = NoPayload | SomePayload 'v

fun as_option :: "'v Payload \<Rightarrow> 'v option" where
  "as_option NoPayload = None"
| "as_option (SomePayload v) = Some v"

datatype 'v MergeOpKind =
    MergeSet 'v UnixTimestampSecs
  | MergeSetVal 'v
  | MergeSetExp UnixTimestampSecs
  | MergeDel UnixTimestampSecs

record 'v MergeOp =
  op_kind :: "'v MergeOpKind"
  op_timestamp :: UnixTimestampMicros

text \<open>\<open>MergeOp::new\<close> only logs the timestamps it finds implausible.\<close>

definition merge_op_new :: "'v MergeOpKind \<Rightarrow> UnixTimestampMicros \<Rightarrow> 'v MergeOp" where
  "merge_op_new kind timestamp = \<lparr>op_kind = kind, op_timestamp = timestamp\<rparr>"

definition op_set :: "'v \<Rightarrow> UnixTimestampSecs \<Rightarrow> UnixTimestampMicros \<Rightarrow> 'v MergeOp" where
  "op_set value expiration timestamp = merge_op_new (MergeSet value expiration) timestamp"

definition op_set_val :: "'v \<Rightarrow> UnixTimestampMicros \<Rightarrow> 'v MergeOp" where
  "op_set_val value timestamp = merge_op_new (MergeSetVal value) timestamp"

definition op_set_exp :: "UnixTimestampSecs \<Rightarrow> UnixTimestampMicros \<Rightarrow> 'v MergeOp" where
  "op_set_exp expiration timestamp = merge_op_new (MergeSetExp expiration) timestamp"

definition LINGER_SECS :: u64 where
  "LINGER_SECS = 24 * 60 * 60"

definition op_del :: "UnixTimestampSecs \<Rightarrow> UnixTimestampMicros \<Rightarrow> 'v MergeOp" where
  "op_del timestamp_secs timestamp = merge_op_new (MergeDel (timestamp_secs + LINGER_SECS)) timestamp"

text \<open>\<open>impl Merge<Self> for MergeOp\<close>: two operands of the same key become one.\<close>

fun merge_kind :: "'v MergeOpKind \<Rightarrow> 'v MergeOpKind \<Rightarrow> 'v MergeOpKind" where
  "merge_kind _ (MergeSet v e) = MergeSet v e"
| "merge_kind _ (MergeDel e) = MergeDel e"
| "merge_kind (MergeSetVal _) (MergeSetVal v) = MergeSetVal v"
| "merge_kind (MergeSetExp _) (MergeSetExp e) = MergeSetExp e"
| "merge_kind (MergeSet _ e) (MergeSetVal v) = MergeSet v e"
| "merge_kind (MergeSet v _) (MergeSetExp e) = MergeSet v e"
| "merge_kind (MergeSetVal v) (MergeSetExp e) = MergeSet v e"
| "merge_kind (MergeSetExp e) (MergeSetVal v) = MergeSet v e"
| "merge_kind (MergeDel e) (MergeSetVal _) = MergeDel e"
| "merge_kind (MergeDel e) (MergeSetExp _) = MergeDel e"

definition merge_op :: "'v MergeOp \<Rightarrow> 'v MergeOp \<Rightarrow> 'v MergeOp" where
  "merge_op self input =
     (if op_timestamp input \<le> op_timestamp self then self
      else \<lparr>op_kind = merge_kind (op_kind self) (op_kind input), op_timestamp = op_timestamp input\<rparr>)"

section \<open>Data contexts\<close>

record 'v DataContext =
  ctx_payload :: "'v Payload"
  ctx_expires :: UnixTimestampSecs
  ctx_updated :: "UnixTimestampMicros option"
  ctx_created :: UnixTimestampMicros

definition ctx_default :: "'v DataContext" where
  "ctx_default = \<lparr>ctx_payload = NoPayload, ctx_expires = 0, ctx_updated = None, ctx_created = 0\<rparr>"

text \<open>\<open>modification_timestamp().unwrap_or(creation_timestamp())\<close>, the version of the value.\<close>

definition ctx_timestamp :: "'v DataContext \<Rightarrow> UnixTimestampMicros" where
  "ctx_timestamp ctx = (case ctx_updated ctx of Some t \<Rightarrow> t | None \<Rightarrow> ctx_created ctx)"

definition expired :: "UnixTimestampSecs \<Rightarrow> 'v DataContext \<Rightarrow> bool" where
  "expired timestamp_secs ctx \<longleftrightarrow> ctx_expires ctx \<le> timestamp_secs"

definition into_payload :: "UnixTimestampSecs \<Rightarrow> 'v DataContext \<Rightarrow> 'v option" where
  "into_payload timestamp_secs ctx = (if expired timestamp_secs ctx then None else as_option (ctx_payload ctx))"

fun apply_kind :: "'v MergeOpKind \<Rightarrow> 'v DataContext \<Rightarrow> 'v DataContext" where
  "apply_kind (MergeSet v e) ctx = ctx\<lparr>ctx_payload := SomePayload v, ctx_expires := e\<rparr>"
| "apply_kind (MergeSetVal v) ctx = ctx\<lparr>ctx_payload := SomePayload v\<rparr>"
| "apply_kind (MergeSetExp e) ctx = ctx\<lparr>ctx_expires := e\<rparr>"
| "apply_kind (MergeDel e) ctx = ctx\<lparr>ctx_payload := NoPayload, ctx_expires := e\<rparr>"

definition merge_ctx :: "'v DataContext \<Rightarrow> 'v MergeOp \<Rightarrow> 'v DataContext" where
  "merge_ctx ctx op =
     (if op_timestamp op \<le> ctx_timestamp ctx then ctx
      else (apply_kind (op_kind op) ctx)\<lparr>ctx_updated := Some (op_timestamp op)\<rparr>)"

text \<open>\<open>impl From<DataContext> for MergeOp\<close>: how an exported value is written to another node.\<close>

definition op_from_ctx :: "UnixTimestampSecs \<Rightarrow> 'v DataContext \<Rightarrow> 'v MergeOp" where
  "op_from_ctx timestamp_secs ctx =
     (case ctx_payload ctx of
        SomePayload value \<Rightarrow> op_set value (ctx_expires ctx) (ctx_timestamp ctx)
      | NoPayload \<Rightarrow> op_del timestamp_secs (ctx_timestamp ctx))"

section \<open>The merge operator\<close>

text \<open>\<open>op_iter\<close> skips the operands that cannot be decoded.\<close>

definition op_iter :: "'o codec \<Rightarrow> u8 list list \<Rightarrow> 'o list" where
  "op_iter ops_codec input =
     List.map_filter (\<lambda>bs. case deserialize ops_codec bs of Ok op \<Rightarrow> Some op | _ \<Rightarrow> None) input"

fun asymmetric_partial_merge :: "'v MergeOp codec \<Rightarrow> u8 list list \<Rightarrow> (RocksError, u8 list) outcome" where
  "asymmetric_partial_merge cop input =
     (case op_iter cop input of
        [] \<Rightarrow> Err Deserialize
      | output # rest \<Rightarrow> serialize cop (foldl merge_op output rest))"

definition existing_context :: "'v DataContext codec \<Rightarrow> u8 list option \<Rightarrow> (RocksError, 'v DataContext) outcome" where
  "existing_context cctx output = (case output of None \<Rightarrow> Ok ctx_default | Some bs \<Rightarrow> deserialize cctx bs)"

definition asymmetric_full_merge ::
  "'v MergeOp codec \<Rightarrow> 'v DataContext codec \<Rightarrow> u8 list option \<Rightarrow> u8 list list \<Rightarrow> (RocksError, u8 list) outcome" where
  "asymmetric_full_merge cop cctx output input =
     and_then (existing_context cctx output)
       (\<lambda>ctx. serialize cctx (foldl merge_ctx ctx (op_iter cop input)))"

definition overwrite_full_merge :: "u8 list option \<Rightarrow> u8 list list \<Rightarrow> (RocksError, u8 list) outcome" where
  "overwrite_full_merge output input =
     ok_or Deserialize (if input = [] then output else Some (last input))"

definition overwrite_partial_merge :: "u8 list option \<Rightarrow> u8 list list \<Rightarrow> (RocksError, u8 list) outcome" where
  "overwrite_partial_merge output input = overwrite_full_merge output input"

text \<open>The callbacks registered with RocksDB: a failed merge is reported as \<open>None\<close>.\<close>

definition merge_callback :: "(RocksError, u8 list) outcome \<Rightarrow> u8 list option" where
  "merge_callback res = (case res of Ok bs \<Rightarrow> Some bs | _ \<Rightarrow> None)"

section \<open>The compaction filter\<close>

datatype Decision = Keep | Remove | Change "u8 list"

definition MAX_TTL_SECS :: u64 where
  "MAX_TTL_SECS = 86400 * 30 + 120"

definition UPDATE_TIMESTAMP_LEEWAY :: u64 where
  "UPDATE_TIMESTAMP_LEEWAY = 120 * 1000 * 1000"

definition saturating_sub_u64 :: "u64 \<Rightarrow> u64 \<Rightarrow> u64" where
  "saturating_sub_u64 a b = (if a < b then 0 else a - b)"

definition filter_internal ::
  "'v DataContext codec \<Rightarrow> UnixTimestampSecs \<Rightarrow> UnixTimestampMicros \<Rightarrow> u8 list \<Rightarrow> Decision" where
  "filter_internal cctx now_secs now_micros value =
     (case deserialize cctx value of
        Ok ctx \<Rightarrow>
          if expired now_secs ctx \<or> as_option (ctx_payload ctx) = None then Remove
          else if saturating_sub_u64 (ctx_expires ctx) now_secs > MAX_TTL_SECS then Remove
          else if ctx_timestamp ctx > now_micros + UPDATE_TIMESTAMP_LEEWAY then Remove
          else Keep
      | _ \<Rightarrow> Remove)"

record compaction_filter =
  num_remove :: u64
  num_change :: u64
  num_keep :: u64

definition compaction_filter_new :: compaction_filter where
  "compaction_filter_new = \<lparr>num_remove = 0, num_change = 0, num_keep = 0\<rparr>"

definition compaction_filter_filter ::
  "'v DataContext codec \<Rightarrow> UnixTimestampSecs \<Rightarrow> UnixTimestampMicros \<Rightarrow> u8 list \<Rightarrow> compaction_filter
   \<Rightarrow> Decision \<times> compaction_filter" where
  "compaction_filter_filter cctx now_secs now_micros value self =
     (let decision = filter_internal cctx now_secs now_micros value in
      (decision,
       case decision of
         Keep \<Rightarrow> self\<lparr>num_keep := num_keep self + 1\<rparr>
       | Remove \<Rightarrow> self\<lparr>num_remove := num_remove self + 1\<rparr>
       | Change _ \<Rightarrow> self\<lparr>num_change := num_change self + 1\<rparr>))"

definition noop_filter :: "u8 list \<Rightarrow> Decision" where
  "noop_filter value = Keep"

section \<open>Merging in any order\<close>

text \<open>An operation that determines value and expiration together: a \<open>set\<close> or a \<open>del\<close>.\<close>

fun whole_kind :: "'v MergeOpKind \<Rightarrow> bool" where
  "whole_kind (MergeSet _ _) = True"
| "whole_kind (MergeDel _) = True"
| "whole_kind _ = False"

fun del_kind :: "'v MergeOpKind \<Rightarrow> bool" where
  "del_kind (MergeDel _) = True"
| "del_kind _ = False"

lemmas merge_defs = merge_op_def merge_ctx_def ctx_timestamp_def

lemma ctx_timestamp_merge [simp]:
  "ctx_timestamp (merge_ctx ctx op) = max (ctx_timestamp ctx) (op_timestamp op)"
  by (auto simp: merge_defs max_def)

lemma apply_whole_kind:
  assumes "whole_kind k"
  shows "(apply_kind k (ctx\<lparr>ctx_updated := u\<rparr>)) = (apply_kind k ctx)\<lparr>ctx_updated := u\<rparr>"
    and "apply_kind k (apply_kind k' ctx) = apply_kind k ctx"
  using assms by (cases k; cases k'; simp)+

lemma merge_ctx_commute:
  assumes "whole_kind (op_kind a)" and "whole_kind (op_kind b)" and "op_timestamp a \<noteq> op_timestamp b"
  shows "merge_ctx (merge_ctx ctx a) b = merge_ctx (merge_ctx ctx b) a"
  using assms(3) apply_whole_kind [OF assms(1)] apply_whole_kind [OF assms(2)]
  by (auto simp: merge_defs split: option.splits)

lemma foldl_merge_ctx_perm:
  assumes "mset ops = mset ops'" and "distinct (map op_timestamp ops)" and "\<forall>op \<in> set ops. whole_kind (op_kind op)"
  shows "foldl merge_ctx ctx ops = foldl merge_ctx ctx ops'"
proof -
  have "fold (\<lambda>op ctx. merge_ctx ctx op) ops = fold (\<lambda>op ctx. merge_ctx ctx op) ops'"
  proof (rule fold_multiset_equiv [OF _ assms(1)])
    fix a b
    assume ab: "a \<in> set ops" "b \<in> set ops"
    show "(\<lambda>ctx. merge_ctx ctx a) \<circ> (\<lambda>ctx. merge_ctx ctx b) = (\<lambda>ctx. merge_ctx ctx b) \<circ> (\<lambda>ctx. merge_ctx ctx a)"
    proof (cases "a = b")
      case False
      then have "op_timestamp a \<noteq> op_timestamp b"
        using assms(2) ab by (auto simp: distinct_map inj_on_def)
      then show ?thesis
        using assms(3) ab merge_ctx_commute [of b a] by (auto simp: fun_eq_iff)
    qed simp
  qed
  then show ?thesis
    by (simp add: foldl_conv_fold)
qed

lemma op_iter_append [simp]: "op_iter c (xs @ ys) = op_iter c xs @ op_iter c ys"
  by (simp add: op_iter_def List.map_filter_def)

lemma op_iter_perm: "mset xs = mset ys \<Longrightarrow> mset (op_iter c xs) = mset (op_iter c ys)"
  by (simp add: op_iter_def List.map_filter_def)

lemma op_iter_single: "deserialize c bs = Ok op \<Longrightarrow> op_iter c [bs] = [op]"
  by (simp add: op_iter_def List.map_filter_def)

lemma serialize_reads_back:
  assumes "codec_reads_back c x" and "serialize c x = Ok bs"
  shows "deserialize c bs = Ok x"
  using assms by (auto simp: serialize_def deserialize_def outcome_simps codec_reads_back_def split: outcome.splits)

section \<open>Merging operands before they meet the value\<close>

lemma merge_ctx_merge_op:
  assumes "ctx_timestamp ctx < op_timestamp a" and "del_kind (op_kind a) \<longrightarrow> whole_kind (op_kind b)"
  shows "merge_ctx (merge_ctx ctx a) b = merge_ctx ctx (merge_op a b)"
  using assms by (cases "op_kind a"; cases "op_kind b") (auto simp: merge_defs split: option.splits)

text \<open>
  Operands in the order of their timestamps, all newer than \<open>t\<close>, in which a deletion is only
  followed by a \<open>set\<close> or another deletion.
\<close>

fun in_order :: "UnixTimestampMicros \<Rightarrow> bool \<Rightarrow> 'v MergeOp list \<Rightarrow> bool" where
  "in_order t deleted [] = True"
| "in_order t deleted (op # ops) =
     (t < op_timestamp op \<and> (deleted \<longrightarrow> whole_kind (op_kind op)) \<and> in_order (op_timestamp op) (del_kind (op_kind op)) ops)"

lemma del_kind_merge_kind:
  "(del_kind k \<longrightarrow> whole_kind k') \<Longrightarrow> del_kind (merge_kind k k') = del_kind k'"
  by (cases k; cases k'; simp)

lemma foldl_merge_op:
  assumes "ctx_timestamp ctx < op_timestamp a" and "in_order (op_timestamp a) (del_kind (op_kind a)) ops"
  shows "foldl merge_ctx (merge_ctx ctx a) ops = merge_ctx ctx (foldl merge_op a ops)"
  using assms
proof (induction ops arbitrary: a)
  case Nil
  then show ?case by simp
next
  case (Cons b ops)
  then have newer: "op_timestamp a < op_timestamp b" and del: "del_kind (op_kind a) \<longrightarrow> whole_kind (op_kind b)"
    and rest: "in_order (op_timestamp b) (del_kind (op_kind b)) ops"
    by simp_all
  have "op_timestamp (merge_op a b) = op_timestamp b" "del_kind (op_kind (merge_op a b)) = del_kind (op_kind b)"
    using newer del_kind_merge_kind [OF del] by (auto simp: merge_op_def)
  then have "foldl merge_ctx (merge_ctx ctx (merge_op a b)) ops = merge_ctx ctx (foldl merge_op (merge_op a b) ops)"
    using Cons.prems(1) newer rest by (intro Cons.IH) auto
  with merge_ctx_merge_op [OF Cons.prems(1) del] show ?case by simp
qed

text \<open>
  C10. Replicas converge. The merge operator gives the same value for the same \<open>set\<close> and \<open>del\<close>
  operations in whatever order they arrive, as long as their timestamps differ.
\<close>

theorem full_merge_converges:
  assumes "mset input = mset input'"
    and "distinct (map op_timestamp (op_iter cop input))" and "\<forall>op \<in> set (op_iter cop input). whole_kind (op_kind op)"
  shows "asymmetric_full_merge cop cctx output input = asymmetric_full_merge cop cctx output input'"
  using foldl_merge_ctx_perm [OF op_iter_perm [OF assms(1)] assms(2,3)] by (simp add: asymmetric_full_merge_def)

text \<open>
  C11. A partial merge of pending operands is invisible when they are in the order of their timestamps,
  newer than the value they will meet, and no \<open>set_val\<close> or \<open>set_exp\<close> follows a deletion.
\<close>

theorem partial_merge_faithful:
  assumes "asymmetric_partial_merge cop mid = Ok bs" and "\<forall>op. codec_reads_back cop op"
    and "existing_context cctx output = Ok ctx"
    and "in_order (ctx_timestamp (foldl merge_ctx ctx (op_iter cop pre))) False (op_iter cop mid)"
  shows "asymmetric_full_merge cop cctx output (pre @ [bs] @ post) = asymmetric_full_merge cop cctx output (pre @ mid @ post)"
proof -
  obtain a ops where mid: "op_iter cop mid = a # ops" and ser: "serialize cop (foldl merge_op a ops) = Ok bs"
    using assms(1) by (auto split: list.splits)
  then have "op_iter cop [bs] = [foldl merge_op a ops]"
    using assms(2) by (intro op_iter_single serialize_reads_back) auto
  moreover have "foldl merge_ctx (merge_ctx c a) ops = merge_ctx c (foldl merge_op a ops)"
    if "c = foldl merge_ctx ctx (op_iter cop pre)" for c
    using assms(4) mid that by (intro foldl_merge_op) auto
  ultimately show ?thesis
    using mid assms(3) op_iter_append [of cop "[bs]" post] by (simp add: asymmetric_full_merge_def)
qed

text \<open>
  The two restrictions are needed. A late operand, already superseded by the value, takes over the
  timestamp of a newer \<open>set_exp\<close> it is merged with, and the superseded value comes back; and a
  \<open>set_val\<close> that revives a deleted key is lost when it is first merged with the deletion.
\<close>

theorem partial_merge_revives_stale_value:
  assumes "t1 \<le> t2" and "t2 < t3"
    and "ctx = \<lparr>ctx_payload = SomePayload v2, ctx_expires = e2, ctx_updated = Some t2, ctx_created = c\<rparr>"
  shows "ctx_payload (foldl merge_ctx ctx [op_set v1 e1 t1, op_set_exp e3 t3]) = SomePayload v2"
    and "ctx_payload (foldl merge_ctx ctx [merge_op (op_set v1 e1 t1) (op_set_exp e3 t3)]) = SomePayload v1"
    and "ctx_updated (foldl merge_ctx ctx [merge_op (op_set v1 e1 t1) (op_set_exp e3 t3)]) = Some t3"
  using assms by (auto simp: merge_defs op_set_def op_set_exp_def merge_op_new_def)

theorem partial_merge_loses_revival:
  assumes "ctx_timestamp ctx < t1" and "t1 < t2"
  shows "ctx_payload (foldl merge_ctx ctx [op_del now t1, op_set_val v t2]) = SomePayload v"
    and "ctx_payload (foldl merge_ctx ctx [merge_op (op_del now t1) (op_set_val v t2)]) = NoPayload"
  using assms by (auto simp: merge_defs op_del_def op_set_val_def merge_op_new_def split: option.splits)

section \<open>Compaction\<close>

text \<open>
  The compaction filter agrees with what a read shows. A stored value with a plausible expiration
  and version is kept exactly when a read at that moment would return it.
\<close>

theorem compaction_keeps_visible:
  assumes "deserialize cctx value = Ok ctx"
    and "saturating_sub_u64 (ctx_expires ctx) now_secs \<le> MAX_TTL_SECS" and "ctx_timestamp ctx \<le> now_micros + UPDATE_TIMESTAMP_LEEWAY"
  shows "filter_internal cctx now_secs now_micros value = Keep \<longleftrightarrow> into_payload now_secs ctx \<noteq> None"
  using assms by (auto simp: filter_internal_def into_payload_def)

text \<open>
  The mark of a deletion is not kept for \<open>LINGER_SECS\<close>: the filter removes it at once, because it has no
  payload. An older write that arrives afterwards, for which the mark was there, becomes visible.
\<close>

theorem compaction_forgets_deletion:
  assumes "deserialize cctx value = Ok (merge_ctx ctx (op_del now t2))" and "ctx_timestamp ctx < t2"
    and "t1 \<le> t2" and "0 < t1" and "now_secs < e"
  shows "filter_internal cctx now_secs now_micros value = Remove"
    and "into_payload now_secs (merge_ctx (merge_ctx ctx (op_del now t2)) (op_set v e t1)) = None"
    and "into_payload now_secs (merge_ctx ctx_default (op_set v e t1)) = Some v"
  using assms
  by (auto simp: filter_internal_def into_payload_def expired_def merge_defs op_del_def op_set_def merge_op_new_def
      ctx_default_def split: option.splits)

section \<open>Values carried to another node\<close>

text \<open>
  What the import of an exported value does. On a node that has nothing newer, reading the value
  gives the payload, the expiration and the version it had where it came from; a node that has
  something newer keeps it.
\<close>

theorem import_value_roundtrip:
  assumes "ctx_timestamp ctx < ctx_timestamp src" and "ctx_payload src \<noteq> NoPayload"
  shows "into_payload now (merge_ctx ctx (op_from_ctx now' src)) = into_payload now src
       \<and> ctx_expires (merge_ctx ctx (op_from_ctx now' src)) = ctx_expires src
       \<and> ctx_timestamp (merge_ctx ctx (op_from_ctx now' src)) = ctx_timestamp src"
  using assms
  by (cases "ctx_payload src")
    (auto simp: op_from_ctx_def merge_ctx_def into_payload_def expired_def op_set_def merge_op_new_def ctx_timestamp_def)

section \<open>A concrete codec\<close>

text \<open>
  A codec for values that are byte strings, as an instance of the \<open>postcard\<close> parameter: a tag, the
  timestamps in big-endian order, then the value.
\<close>

fun enc_kind :: "u8 list MergeOpKind \<Rightarrow> u8 list" where
  "enc_kind (MergeSet v e) = 0 # to_be_bytes 8 e @ v"
| "enc_kind (MergeSetVal v) = 1 # to_be_bytes 8 (0 :: u64) @ v"
| "enc_kind (MergeSetExp e) = 2 # to_be_bytes 8 e"
| "enc_kind (MergeDel e) = 3 # to_be_bytes 8 e"

definition dec_kind :: "u8 list \<Rightarrow> u8 list MergeOpKind" where
  "dec_kind bs =
     (let e = from_be_bytes (take 8 (tl bs)); v = drop 8 (tl bs) in
      if hd bs = 0 then MergeSet v e else if hd bs = 1 then MergeSetVal v else if hd bs = 2 then MergeSetExp e
      else MergeDel e)"

definition sample_op_bytes :: "u8 list MergeOp \<Rightarrow> u8 list" where
  "sample_op_bytes op = to_be_bytes 8 (op_timestamp op) @ enc_kind (op_kind op)"

definition sample_op_codec :: "u8 list MergeOp codec" where
  "sample_op_codec =
     \<lparr>codec_ser = (\<lambda>op. Ok (sample_op_bytes op)),
      codec_de = (\<lambda>bs. if length bs < 17 then Err ''too short''
        else Ok \<lparr>op_kind = dec_kind (drop 8 bs), op_timestamp = from_be_bytes (take 8 bs)\<rparr>)\<rparr>"

definition sample_ctx_codec :: "u8 list DataContext codec" where
  "sample_ctx_codec =
     \<lparr>codec_ser = (\<lambda>ctx. Ok (to_be_bytes 8 (ctx_expires ctx) @ to_be_bytes 8 (ctx_created ctx)
        @ to_be_bytes 8 (case ctx_updated ctx of Some t \<Rightarrow> t | None \<Rightarrow> 0)
        @ [if ctx_updated ctx = None then 0 else 1]
        @ (case ctx_payload ctx of NoPayload \<Rightarrow> [0] | SomePayload v \<Rightarrow> 1 # v))),
      codec_de = (\<lambda>bs. if length bs < 26 then Err ''too short''
        else Ok \<lparr>ctx_payload = (if bs ! 25 = 0 then NoPayload else SomePayload (drop 26 bs)),
                ctx_expires = from_be_bytes (take 8 bs),
                ctx_updated = (if bs ! 24 = 0 then None else Some (from_be_bytes (take 8 (drop 16 bs)))),
                ctx_created = from_be_bytes (take 8 (drop 8 bs))\<rparr>)\<rparr>"

lemma sample_op_codec_reads_back: "codec_reads_back sample_op_codec op"
  by (cases "op_kind op") (simp_all add: codec_reads_back_def sample_op_codec_def sample_op_bytes_def dec_kind_def)

lemma sample_ctx_codec_reads_back: "codec_reads_back sample_ctx_codec ctx"
  by (cases "ctx_payload ctx"; cases "ctx_updated ctx")
    (simp_all add: codec_reads_back_def sample_ctx_codec_def nth_append)

lemma serialize_sample_op [simp]: "serialize sample_op_codec op = Ok (sample_op_bytes op)"
  by (simp add: serialize_def sample_op_codec_def)

lemma deserialize_sample_op [simp]: "deserialize sample_op_codec (sample_op_bytes op) = Ok op"
  using serialize_reads_back [OF sample_op_codec_reads_back serialize_sample_op] .

lemma op_iter_sample [simp]: "op_iter sample_op_codec (map sample_op_bytes ops) = ops"
  by (induction ops) (simp_all add: op_iter_def List.map_filter_def)

theorem full_merge_converges_witness:
  "asymmetric_full_merge sample_op_codec sample_ctx_codec None (map sample_op_bytes [op_set [1] 50 5, op_del 10 7])
   = asymmetric_full_merge sample_op_codec sample_ctx_codec None (map sample_op_bytes [op_del 10 7, op_set [1] 50 5])"
  by (rule full_merge_converges, unfold op_iter_sample)
    (simp_all add: op_set_def op_del_def merge_op_new_def add_mset_commute)

theorem partial_merge_faithful_witness:
  "asymmetric_full_merge sample_op_codec sample_ctx_codec None
     (map sample_op_bytes [op_set [1] 50 5] @ [sample_op_bytes (op_set [2] 60 7)] @ [])
   = asymmetric_full_merge sample_op_codec sample_ctx_codec None
     (map sample_op_bytes [op_set [1] 50 5] @ map sample_op_bytes [op_set [2] 50 6, op_set_exp 60 7] @ [])"
  by (rule partial_merge_faithful [where ctx = ctx_default], unfold op_iter_sample asymmetric_partial_merge.simps)
    (simp_all add: sample_op_codec_reads_back existing_context_def op_set_def op_set_exp_def merge_op_new_def merge_defs
      ctx_default_def)

end
