(* ===== verification/Rocks_Keys.thy ===== *)
theory Rocks_Keys
  imports Rocks_Context Storage_Api
begin

text \<open>
  Model of the keys of the storage engine: \<open>crates/rocks/src/db/schema/keys.rs\<close> (the binary form of a
  key), \<open>db/schema.rs\<close> and \<open>db/schema/columns.rs\<close> (column families), \<open>db/cf.rs\<close> (keys of fields of a map),
  the prefix extractor of \<open>db.rs\<close>, and \<open>crates/db/src/storage.rs\<close> (namespaced keys). The lemmas show
  that keys are read back, that keys of different maps do not mix, and that the order of the bytes is
  the order of the positions.
\<close>

section \<open>Column families\<close>

datatype ColumnFamilyName = GenericString | GenericMap | InternalGenericString | InternalGenericMap | InternalHintedOps

fun cf_as_str :: "ColumnFamilyName \<Rightarrow> string" where
  "cf_as_str GenericString = ''generic_string''"
| "cf_as_str GenericMap = ''generic_map''"
| "cf_as_str InternalGenericString = ''internal_generic_string''"
| "cf_as_str InternalGenericMap = ''internal_generic_map''"
| "cf_as_str InternalHintedOps = ''internal_hinted_ops''"

record Column =
  col_name :: ColumnFamilyName
  col_prefix_seek_enabled :: bool
  col_expires_data :: bool

definition StringColumn :: Column where
  "StringColumn = \<lparr>col_name = GenericString, col_prefix_seek_enabled = False, col_expires_data = True\<rparr>"

definition InternalStringColumn :: Column where
  "InternalStringColumn = \<lparr>col_name = InternalGenericString, col_prefix_seek_enabled = False, col_expires_data = False\<rparr>"

definition MapColumn :: Column where
  "MapColumn = \<lparr>col_name = GenericMap, col_prefix_seek_enabled = True, col_expires_data = True\<rparr>"

definition InternalMapColumn :: Column where
  "InternalMapColumn = \<lparr>col_name = InternalGenericMap, col_prefix_seek_enabled = True, col_expires_data = False\<rparr>"

section \<open>Keys\<close>

datatype RocksStorageError =
    SeEntryNotFound
  | SeEncryption string
  | SeUnauthorized
  | SeSerialize
  | SeDeserialize
  | SeUnsupportedOperation
  | SeTimeout
  | SeGossip string
  | SeDbEngine string
  | SeOther string
  | SeWcnBackend string string

record GenericKey =
  key_position :: u64
  key_data :: "u8 list"

definition GenericKey_new :: "u64 \<Rightarrow> u8 list \<Rightarrow> GenericKey" where
  "GenericKey_new pos data = \<lparr>key_position = pos, key_data = data\<rparr>"

definition KEYRING_POSITION_PREFIX_LENGTH :: nat where
  "KEYRING_POSITION_PREFIX_LENGTH = 8"

definition to_bytes :: "GenericKey \<Rightarrow> (RocksStorageError, u8 list) outcome" where
  "to_bytes self =
     Ok (to_be_bytes 8 (key_position self) @ to_be_bytes 4 (of_nat (length (key_data self)) :: u32) @ key_data self)"

text \<open>\<open>read_u64\<close> and \<open>read_u32\<close> of \<open>byteorder\<close> on a cursor: the value and the rest of the bytes.\<close>

definition read_be :: "nat \<Rightarrow> u8 list \<Rightarrow> ('a::len word \<times> u8 list) option" where
  "read_be n bs = (if length bs < n then None else Some (from_be_bytes (take n bs), drop n bs))"

definition from_bytes :: "u8 list \<Rightarrow> (RocksStorageError, GenericKey) outcome" where
  "from_bytes bytes =
     and_then (ok_or SeDeserialize (read_be 8 bytes)) (\<lambda>(pos :: u64, rest).
     and_then (ok_or SeDeserialize (read_be 4 rest)) (\<lambda>(data_len :: u32, slice).
       if length slice \<noteq> unat data_len then Err SeDeserialize
       else Ok \<lparr>key_position = pos, key_data = slice\<rparr>))"

datatype KeyError = Length nat | ReadKeyringPosition | ReadBufferLength | InvalidBuffer nat nat

definition MIN_LEN :: nat where
  "MIN_LEN = KEYRING_POSITION_PREFIX_LENGTH + 4 + 1"

definition calculate_size :: "u8 list \<Rightarrow> (KeyError, nat) outcome" where
  "calculate_size data =
     (if length data < MIN_LEN then Err (Length (length data))
      else and_then (ok_or ReadKeyringPosition (read_be 8 data)) (\<lambda>(_ :: u64, rest).
           and_then (ok_or ReadBufferLength (read_be 4 rest)) (\<lambda>(buffer_len :: u32, _).
             let expected_len = 12 + unat buffer_len in
             if length data \<ge> expected_len then Ok expected_len
             else Err (InvalidBuffer expected_len (length data)))))"

section \<open>Keys of columns\<close>

definition storage_key :: "GenericKey \<Rightarrow> (RocksError, u8 list) outcome" where
  "storage_key key = map_err (\<lambda>_. Serialize) (to_bytes key)"

definition ext_key_from_slice :: "GenericKey \<Rightarrow> u8 list \<Rightarrow> (RocksError, u8 list) outcome" where
  "ext_key_from_slice key value = and_then (storage_key key) (\<lambda>prefix. Ok (prefix @ value))"

definition ext_key :: "'f codec \<Rightarrow> GenericKey \<Rightarrow> 'f \<Rightarrow> (RocksError, u8 list) outcome" where
  "ext_key cf key field = and_then (serialize cf field) (ext_key_from_slice key)"

definition parse_key :: "u8 list \<Rightarrow> (RocksError, GenericKey \<times> nat) outcome" where
  "parse_key bytes =
     and_then (map_err (\<lambda>_. Deserialize) (calculate_size bytes)) (\<lambda>right.
     and_then (map_err (\<lambda>_. Deserialize) (from_bytes (take right bytes))) (\<lambda>parsed_key.
       Ok (parsed_key, right)))"

definition parse_ext_key :: "'f codec \<Rightarrow> u8 list \<Rightarrow> (RocksError, GenericKey \<times> 'f) outcome" where
  "parse_ext_key cf bytes =
     and_then (parse_key bytes) (\<lambda>(key, bytes_processed).
     and_then (deserialize cf (drop bytes_processed bytes)) (\<lambda>value. Ok (key, value)))"

definition split_ext_key :: "u8 list \<Rightarrow> (RocksError, u8 list) outcome" where
  "split_ext_key bytes =
     and_then (map_err (\<lambda>_. Deserialize) (calculate_size bytes)) (\<lambda>prefix_len. Ok (drop prefix_len bytes))"

definition dynamic_prefix_extractor :: "u8 list \<Rightarrow> u8 list" where
  "dynamic_prefix_extractor data =
     (if length data = KEYRING_POSITION_PREFIX_LENGTH then data
      else case calculate_size data of
             Ok prefix_len \<Rightarrow> if prefix_len > length data then data else take prefix_len data
           | _ \<Rightarrow> data)"

section \<open>Namespaced keys of the database\<close>

definition KIND_PRIVATE :: u8 where
  "KIND_PRIVATE = 0"

definition KeyWrapper_private :: "Namespace \<Rightarrow> u8 list \<Rightarrow> u8 list" where
  "KeyWrapper_private namespace bytes = KIND_PRIVATE # ns_as_bytes namespace @ bytes"

text \<open>The hash of \<open>xxhash_rust\<close> is a parameter.\<close>

definition db_key :: "(u8 list \<Rightarrow> u64) \<Rightarrow> Namespace \<Rightarrow> u8 list \<Rightarrow> GenericKey" where
  "db_key xxh3 namespace key = GenericKey_new (xxh3 key) (KeyWrapper_private namespace key)"

section \<open>Keys are read back\<close>

text \<open>A key whose data length fits its \<open>u32\<close> field.\<close>

definition key_fits :: "GenericKey \<Rightarrow> bool" where
  "key_fits key \<longleftrightarrow> 0 < length (key_data key) \<and> length (key_data key) < 2 ^ 32"

definition key_bytes :: "GenericKey \<Rightarrow> u8 list" where
  "key_bytes key = to_be_bytes 8 (key_position key) @ to_be_bytes 4 (of_nat (length (key_data key)) :: u32) @ key_data key"

lemma storage_key_eq [simp]: "storage_key key = Ok (key_bytes key)"
  by (simp add: storage_key_def to_bytes_def key_bytes_def)

lemma length_key_bytes: "length (key_bytes key) = 12 + length (key_data key)"
  by (simp add: key_bytes_def)

lemma unat_length_data: "key_fits key \<Longrightarrow> unat (of_nat (length (key_data key)) :: u32) = length (key_data key)"
  by (simp add: key_fits_def unat_of_nat take_bit_eq_mod)

lemma read_be_append:
  "LENGTH('a) = 8 * n \<Longrightarrow> read_be n (to_be_bytes n (w :: 'a::len word) @ rest) = Some (w, rest)"
  by (simp add: read_be_def)

lemma from_bytes_key_bytes: "key_fits key \<Longrightarrow> from_bytes (key_bytes key) = Ok key"
  by (simp add: from_bytes_def key_bytes_def read_be_append unat_length_data ok_or_def)

lemma calculate_size_key_bytes: "key_fits key \<Longrightarrow> calculate_size (key_bytes key @ rest) = Ok (length (key_bytes key))"
  by (simp add: calculate_size_def key_bytes_def read_be_append unat_length_data ok_or_def MIN_LEN_def
      KEYRING_POSITION_PREFIX_LENGTH_def) (simp add: key_fits_def)

lemma parse_key_key_bytes: "key_fits key \<Longrightarrow> parse_key (key_bytes key @ rest) = Ok (key, length (key_bytes key))"
  by (simp add: parse_key_def calculate_size_key_bytes from_bytes_key_bytes)

lemma split_ext_key_key_bytes [simp]: "key_fits key \<Longrightarrow> split_ext_key (key_bytes key @ rest) = Ok rest"
  by (simp add: split_ext_key_def calculate_size_key_bytes)

lemma prefix_extractor_key_bytes [simp]: "key_fits key \<Longrightarrow> dynamic_prefix_extractor (key_bytes key @ rest) = key_bytes key"
  by (simp add: dynamic_prefix_extractor_def calculate_size_key_bytes length_key_bytes KEYRING_POSITION_PREFIX_LENGTH_def)

lemma key_bytes_inj: "key_fits a \<Longrightarrow> key_fits b \<Longrightarrow> key_bytes a = key_bytes b \<Longrightarrow> a = b"
  using from_bytes_key_bytes by (metis outcome.inject(1))

section \<open>The order of keys\<close>

text \<open>The bytewise order of RocksDB.\<close>

fun bytes_less :: "u8 list \<Rightarrow> u8 list \<Rightarrow> bool" where
  "bytes_less _ [] = False"
| "bytes_less [] (_ # _) = True"
| "bytes_less (x # xs) (y # ys) = (x < y \<or> x = y \<and> bytes_less xs ys)"

lemma bytes_less_irrefl [simp]: "\<not> bytes_less xs xs"
  by (induction xs) auto

lemma bytes_less_trans: "bytes_less xs ys \<Longrightarrow> bytes_less ys zs \<Longrightarrow> bytes_less xs zs"
proof (induction xs ys arbitrary: zs rule: bytes_less.induct)
  case (3 x xs y ys)
  then show ?case by (cases zs) auto
next
  case (2 y ys)
  then show ?case by (cases zs) auto
qed auto

lemma bytes_less_linear: "xs \<noteq> ys \<Longrightarrow> bytes_less xs ys \<or> bytes_less ys xs"
  by (induction xs ys rule: bytes_less.induct) (auto simp: neq_Nil_conv)

lemma bytes_less_asym: "bytes_less xs ys \<Longrightarrow> \<not> bytes_less ys xs"
  using bytes_less_trans by fastforce

lemma bytes_less_append [simp]: "bytes_less (ps @ xs) (ps @ ys) = bytes_less xs ys"
  by (induction ps) auto

lemma bytes_less_append_same_length:
  "length xs = length ys \<Longrightarrow> bytes_less (xs @ rest) ys = bytes_less xs ys"
  by (induction xs ys rule: list_induct2) (auto elim: bytes_less.elims)

lemma bytes_less_horner:
  "length xs = length ys \<Longrightarrow> bytes_less xs ys \<longleftrightarrow> horner_sum uint 256 (rev xs) < horner_sum uint 256 (rev ys)"
proof (induction xs ys rule: list_induct2)
  case Nil
  then show ?case by simp
next
  case (Cons x xs y ys)
  let ?p = "256 ^ length ys :: int"
  have bounds: "0 \<le> horner_sum uint 256 (rev xs)" "horner_sum uint 256 (rev xs) < ?p"
    "0 \<le> horner_sum uint 256 (rev ys)" "horner_sum uint 256 (rev ys) < ?p"
    using horner_sum_bounds [of "rev xs"] horner_sum_bounds [of "rev ys"] Cons.hyps by simp_all
  have step: "a + ?p * uint x < b + ?p * uint y"
    if "uint x < uint y" "0 \<le> b" "a < ?p" for a b :: int
  proof -
    have "?p * (uint x + 1) \<le> ?p * uint y"
      using that(1) by (intro mult_left_mono) auto
    with that show ?thesis by (simp add: algebra_simps)
  qed
  have step': "b + ?p * uint y < a + ?p * uint x"
    if "uint y < uint x" "0 \<le> a" "b < ?p" for a b :: int
  proof -
    have "?p * (uint y + 1) \<le> ?p * uint x"
      using that(1) by (intro mult_left_mono) auto
    with that show ?thesis by (simp add: algebra_simps)
  qed
  show ?case
  proof (cases rule: linorder_cases [of "uint x" "uint y"])
    case less
    then show ?thesis
      using step [OF less bounds(3,2)] Cons.hyps by (simp add: horner_sum_append word_less_def)
  next
    case equal
    then have "x = y" by (simp add: word_uint_eqI)
    then show ?thesis
      using Cons by (simp add: horner_sum_append)
  next
    case greater
    then have "\<not> x < y" "x \<noteq> y" by (auto simp: word_less_def)
    then show ?thesis
      using step' [OF greater bounds(1,4)] Cons.hyps by (simp add: horner_sum_append)
  qed
qed

lemma horner_sum_to_be_bytes:
  "LENGTH('a) = 8 * n \<Longrightarrow> horner_sum uint 256 (rev (to_be_bytes n (w :: 'a::len word))) = uint w"
  using unsigned_less [of w, where 'a = int] by (simp add: rev_to_be_bytes horner_sum_bytes)

lemma bytes_less_to_be_bytes:
  assumes "LENGTH('a) = 8 * n"
  shows "bytes_less (to_be_bytes n (a :: 'a::len word) @ rest) (to_be_bytes n b) \<longleftrightarrow> a < b"
  using assms by (simp add: bytes_less_append_same_length bytes_less_horner horner_sum_to_be_bytes word_less_def)

text \<open>A key lies before the bytes of a position exactly when its own position is smaller.\<close>

lemma key_before_position:
  "bytes_less (key_bytes key @ rest) (to_be_bytes 8 pos) \<longleftrightarrow> key_position key < (pos :: u64)"
  by (simp add: key_bytes_def bytes_less_to_be_bytes)

text \<open>
  C13. The binary form of the key of a map field. It is parsed back into key and field, the prefix
  extractor gives the bytes of the key alone, and the bytes are ordered by the position of the key.
\<close>

theorem ext_key_roundtrip:
  assumes "key_fits key" and "codec_reads_back cf field"
  shows "\<exists>bytes. ext_key cf key field = Ok bytes \<and> parse_ext_key cf bytes = Ok (key, field)
           \<and> storage_key key = Ok (dynamic_prefix_extractor bytes)
           \<and> (\<forall>pos. bytes_less bytes (to_be_bytes 8 pos) \<longleftrightarrow> key_position key < (pos :: u64))"
proof -
  obtain bs where "serialize cf field = Ok bs" "deserialize cf bs = Ok field"
    using assms(2) by (auto simp: codec_reads_back_def serialize_def deserialize_def split: outcome.splits)
  then show ?thesis
    using assms(1) by (simp add: ext_key_def ext_key_from_slice_def parse_ext_key_def parse_key_key_bytes key_before_position)
qed

text \<open>
  C14. Records of different namespaces or different keys never share a database key, whatever the hash.
\<close>

theorem db_key_separates:
  assumes "length key < 2 ^ 31" and "length key' < 2 ^ 31"
    and "ext_key_from_slice (db_key xxh3 ns key) field = ext_key_from_slice (db_key xxh3 ns' key') field'"
  shows "ns = ns' \<and> key = key' \<and> field = field'"
proof -
  have len: "length (ns_as_bytes n) = 21" for n
    by (simp add: ns_as_bytes_def)
  have fits: "key_fits (db_key xxh3 ns key)" "key_fits (db_key xxh3 ns' key')"
    using assms(1,2) len by (simp_all add: key_fits_def db_key_def GenericKey_new_def KeyWrapper_private_def)
  have eq: "key_bytes (db_key xxh3 ns key) @ field = key_bytes (db_key xxh3 ns' key') @ field'"
    using assms(3) by (simp add: ext_key_from_slice_def)
  then have "db_key xxh3 ns key = db_key xxh3 ns' key'"
    using parse_key_key_bytes [OF fits(1), of field] parse_key_key_bytes [OF fits(2), of field'] by simp
  moreover from this eq have "field = field'"
    by simp
  ultimately show ?thesis
    using len by (auto simp: db_key_def GenericKey_new_def KeyWrapper_private_def ns_as_bytes_def
        dest: arg_cong [of _ _ "from_be_bytes :: u8 list \<Rightarrow> Namespace"])
qed

section \<open>Concrete instances\<close>

theorem ext_key_roundtrip_witness:
  "\<exists>bytes. ext_key \<lparr>codec_ser = Ok, codec_de = Ok\<rparr> \<lparr>key_position = 7, key_data = [1, 2]\<rparr> [3] = Ok bytes
     \<and> parse_ext_key \<lparr>codec_ser = Ok, codec_de = Ok\<rparr> bytes = Ok (\<lparr>key_position = 7, key_data = [1, 2]\<rparr>, [3])"
proof -
  have key: "key_fits \<lparr>key_position = 7, key_data = [1, 2]\<rparr>"
    by (simp add: key_fits_def)
  have field: "codec_reads_back \<lparr>codec_ser = Ok, codec_de = Ok\<rparr> [3 :: u8]"
    by (simp add: codec_reads_back_def)
  show ?thesis
    using ext_key_roundtrip [OF key field] by (elim exE conjE) (intro exI conjI)
qed

theorem db_key_separates_witness:
  "ext_key_from_slice (db_key (\<lambda>_. 7) 1 [1]) [2] \<noteq> ext_key_from_slice (db_key (\<lambda>_. 7) 1 [1, 2]) []"
proof
  assume "ext_key_from_slice (db_key (\<lambda>_. 7) 1 [1]) [2] = ext_key_from_slice (db_key (\<lambda>_. 7) 1 [1, 2]) []"
  from db_key_separates [OF _ _ this] show False by simp
qed

end
