(* ===== verification/Rocks_Storage.thy ===== *)
theory Rocks_Storage
  imports Rocks_Keys
begin

text \<open>
  Model of the storage operations of \<open>crates/rocks/src\<close>: the reader front end (\<open>db/reader.rs\<close>), the string
  and map types (\<open>db/types/string.rs\<close>, \<open>db/types/map.rs\<close>, \<open>db/types/common.rs\<close>), the iterators and paged
  scans (\<open>db/types/common/iterators.rs\<close>) and the export and import of key ranges (\<open>db/migration.rs\<close>). RocksDB
  itself and \<open>postcard\<close> are parameters, collected in the record \<open>rocks\<close>; \<open>rocks_documented\<close> states what
  the code relies on.
\<close>

section \<open>RocksDB\<close>

type_synonym kv = "u8 list \<times> u8 list"

text \<open>The error of RocksDB: its kind and its message.\<close>

type_synonym native_error = "string \<times> string"

text \<open>
  \<open>'d\<close> is the state of a database. A batch is a list of merges of one operand into a key of a column
  family. \<open>rdb_iter_from\<close> is an iterator with \<open>prefix_same_as_start\<close> (what \<open>prefix_iterator_cf\<close> and
  \<open>prefix_iterator_with_cursor\<close> ask for), \<open>rdb_iter_range\<close> one between bounds.
\<close>

record 'd rocks =
  rdb_get :: "'d \<Rightarrow> ColumnFamilyName \<Rightarrow> u8 list \<Rightarrow> (native_error, u8 list option) outcome"
  rdb_write :: "(ColumnFamilyName \<times> u8 list \<times> u8 list) list \<Rightarrow> 'd \<Rightarrow> (native_error, 'd) outcome"
  rdb_iter_from :: "'d \<Rightarrow> ColumnFamilyName \<Rightarrow> u8 list \<Rightarrow> (native_error, kv) outcome list"
  rdb_iter_range :: "'d \<Rightarrow> ColumnFamilyName \<Rightarrow> u8 list option \<Rightarrow> u8 list option \<Rightarrow> (native_error, kv) outcome list"
  op_codec :: "u8 list MergeOp codec"
  ctx_codec :: "u8 list DataContext codec"
  field_codec :: "u8 list codec"

fun from_native :: "native_error \<Rightarrow> RocksError" where
  "from_native (kind, message) = Backend kind message"

section \<open>The reader\<close>

definition CHANNEL_CAPACITY :: nat where
  "CHANNEL_CAPACITY = 1024"

text \<open>A pool of workers: the length of each bounded queue and the round robin counter.\<close>

record worker_pool =
  pool_queues :: "nat list"
  pool_idx :: usize

definition worker_pool_new :: "nat \<Rightarrow> worker_pool" where
  "worker_pool_new n = \<lparr>pool_queues = replicate n 0, pool_idx = 0\<rparr>"

definition Reader_new :: "nat \<Rightarrow> nat \<Rightarrow> (RocksError, worker_pool \<times> worker_pool) outcome" where
  "Reader_new num_batch_threads num_callback_threads =
     (if num_batch_threads = 0 \<or> num_callback_threads = 0 then Err (Other ''Invalid number of reader threads'')
      else Ok (worker_pool_new num_batch_threads, worker_pool_new num_callback_threads))"

text \<open>\<open>send_request\<close> and \<open>send_raw_callback\<close>.\<close>

definition send_request :: "worker_pool \<Rightarrow> (RocksError, unit) outcome \<times> worker_pool" where
  "send_request pool =
     (let idx = unat (pool_idx pool) mod length (pool_queues pool);
          pool = pool\<lparr>pool_idx := pool_idx pool + 1\<rparr> in
      if length (pool_queues pool) = 0 then (Panic, pool)
      else if pool_queues pool ! idx < CHANNEL_CAPACITY
           then (Ok (), pool\<lparr>pool_queues := (pool_queues pool)[idx := pool_queues pool ! idx + 1]\<rparr>)
           else (Err WorkerQueueOverrun, pool))"

text \<open>
  One round of \<open>reader_thread\<close>: the pending requests, grouped by column family, are answered from one
  batched lookup per group. A request is its number, column family and key.
\<close>

type_synonym read_request = "nat \<times> ColumnFamilyName \<times> u8 list"

definition reader_round ::
  "'d rocks \<Rightarrow> 'd \<Rightarrow> ColumnFamilyName set \<Rightarrow> ColumnFamilyName list \<Rightarrow> read_request list
   \<Rightarrow> (nat \<times> (RocksError, u8 list option) outcome) list" where
  "reader_round R d families order requests =
     concat (map (\<lambda>cf.
       let reqs = filter (\<lambda>(_, c, _). c = cf) requests in
       if cf \<in> families
       then map (\<lambda>((n, _, _), res). (n, map_err from_native res)) (zip reqs (map (\<lambda>(_, _, key). rdb_get R d cf key) reqs))
       else map (\<lambda>(n, _, _). (n, Err InvalidColumnFamily)) reqs) order)"

definition convert_result :: "'a codec \<Rightarrow> (RocksError, u8 list option) outcome \<Rightarrow> (RocksError, 'a option) outcome" where
  "convert_result c res =
     and_then res (\<lambda>r. case r of None \<Rightarrow> Ok None | Some bs \<Rightarrow> and_then (deserialize c bs) (\<lambda>x. Ok (Some x)))"

text \<open>
  \<open>RocksBackend::get\<close>. The argument \<open>sent\<close> is what became of the request on its way through the queue
  of a worker: \<open>Ok\<close>, \<open>WorkerQueueOverrun\<close> or \<open>WorkerChannelClosed\<close>.
\<close>

definition backend_get ::
  "'d rocks \<Rightarrow> (RocksError, unit) outcome \<Rightarrow> 'd \<Rightarrow> ColumnFamilyName \<Rightarrow> u8 list \<Rightarrow> (RocksError, u8 list DataContext option) outcome" where
  "backend_get R sent d cf key =
     and_then sent (\<lambda>_. convert_result (ctx_codec R) (map_err from_native (rdb_get R d cf key)))"

definition backend_merge ::
  "'d rocks \<Rightarrow> ColumnFamilyName \<Rightarrow> u8 list \<Rightarrow> u8 list \<Rightarrow> 'd \<Rightarrow> (RocksError, 'd) outcome" where
  "backend_merge R cf key value d = map_err from_native (rdb_write R [(cf, key, value)] d)"

definition backend_write_batch ::
  "'d rocks \<Rightarrow> (ColumnFamilyName \<times> u8 list \<times> u8 list) list \<Rightarrow> 'd \<Rightarrow> (RocksError, 'd) outcome" where
  "backend_write_batch R batch d = map_err from_native (rdb_write R batch d)"

section \<open>Strings\<close>

record RocksRecord =
  rocks_value :: "u8 list"
  rocks_expiration :: UnixTimestampSecs
  rocks_version :: UnixTimestampMicros

definition record_of :: "UnixTimestampSecs \<Rightarrow> u8 list DataContext \<Rightarrow> RocksRecord option" where
  "record_of now data =
     map_option (\<lambda>value. \<lparr>rocks_value = value, rocks_expiration = ctx_expires data, rocks_version = ctx_timestamp data\<rparr>)
       (into_payload now data)"

definition string_get ::
  "'d rocks \<Rightarrow> (RocksError, unit) outcome \<Rightarrow> UnixTimestampSecs \<Rightarrow> Column \<Rightarrow> 'd \<Rightarrow> GenericKey
   \<Rightarrow> (RocksError, RocksRecord option) outcome" where
  "string_get R sent now C d key =
     and_then (storage_key key) (\<lambda>k.
     and_then (backend_get R sent d (col_name C) k) (\<lambda>data.
       case data of None \<Rightarrow> Ok None | Some ctx \<Rightarrow> Ok (record_of now ctx)))"

definition string_set ::
  "'d rocks \<Rightarrow> Column \<Rightarrow> GenericKey \<Rightarrow> u8 list \<Rightarrow> UnixTimestampSecs \<Rightarrow> UnixTimestampMicros \<Rightarrow> 'd \<Rightarrow> (RocksError, 'd) outcome" where
  "string_set R C key value expiration update_timestamp d =
     and_then (storage_key key) (\<lambda>k.
     and_then (serialize (op_codec R) (op_set value expiration update_timestamp)) (\<lambda>v.
       backend_merge R (col_name C) k v d))"

definition string_set_val ::
  "'d rocks \<Rightarrow> Column \<Rightarrow> GenericKey \<Rightarrow> u8 list \<Rightarrow> UnixTimestampMicros \<Rightarrow> 'd \<Rightarrow> (RocksError, 'd) outcome" where
  "string_set_val R C key value update_timestamp d =
     and_then (storage_key key) (\<lambda>k.
     and_then (serialize (op_codec R) (op_set_val value update_timestamp)) (\<lambda>v.
       backend_merge R (col_name C) k v d))"

definition string_del ::
  "'d rocks \<Rightarrow> UnixTimestampSecs \<Rightarrow> Column \<Rightarrow> GenericKey \<Rightarrow> UnixTimestampMicros \<Rightarrow> 'd \<Rightarrow> (RocksError, 'd) outcome" where
  "string_del R now C key timestamp d =
     and_then (storage_key key) (\<lambda>k.
     and_then (serialize (op_codec R) (op_del now timestamp)) (\<lambda>v.
       backend_merge R (col_name C) k v d))"

definition column_expiration ::
  "'d rocks \<Rightarrow> (RocksError, unit) outcome \<Rightarrow> UnixTimestampSecs \<Rightarrow> Column \<Rightarrow> 'd \<Rightarrow> GenericKey \<Rightarrow> u8 list option
   \<Rightarrow> (RocksError, UnixTimestampSecs) outcome" where
  "column_expiration R sent now C d key subkey =
     and_then (case subkey of Some f \<Rightarrow> ext_key (field_codec R) key f | None \<Rightarrow> storage_key key) (\<lambda>k.
     and_then (backend_get R sent d (col_name C) k) (\<lambda>data.
     and_then (ok_or EntryNotFound data) (\<lambda>ctx.
       if expired now ctx \<or> as_option (ctx_payload ctx) = None then Err EntryNotFound
       else Ok (ctx_expires ctx))))"

definition string_get_exp ::
  "'d rocks \<Rightarrow> (RocksError, unit) outcome \<Rightarrow> UnixTimestampSecs \<Rightarrow> Column \<Rightarrow> 'd \<Rightarrow> GenericKey
   \<Rightarrow> (RocksError, UnixTimestampSecs) outcome" where
  "string_get_exp R sent now C d key = column_expiration R sent now C d key None"

definition string_set_exp ::
  "'d rocks \<Rightarrow> Column \<Rightarrow> GenericKey \<Rightarrow> UnixTimestampSecs \<Rightarrow> UnixTimestampMicros \<Rightarrow> 'd \<Rightarrow> (RocksError, 'd) outcome" where
  "string_set_exp R C key exp update_timestamp d =
     and_then (storage_key key) (\<lambda>k.
     and_then (serialize (op_codec R) (op_set_exp exp update_timestamp)) (\<lambda>v.
       backend_merge R (col_name C) k v d))"

section \<open>Iterators\<close>

record MapRecord =
  mrec_field :: "u8 list"
  mrec_value :: "u8 list"
  mrec_expiration :: UnixTimestampSecs
  mrec_version :: UnixTimestampMicros

record Pair =
  pair_field :: "u8 list"
  pair_value :: "u8 list"

record ScanResult =
  scan_items :: "MapRecord list"
  scan_has_next :: bool

record ScanOptions =
  scan_count :: nat
  scan_cursor :: "u8 list option"

text \<open>\<open>map_ok(f).flatten()\<close>: \<open>f\<close> on the pairs, and nothing for an error of the iterator.\<close>

definition map_ok_flatten :: "(kv \<Rightarrow> 'a) \<Rightarrow> (native_error, kv) outcome list \<Rightarrow> 'a list" where
  "map_ok_flatten f iter = List.map_filter (\<lambda>r. case r of Ok kv \<Rightarrow> Some (f kv) | _ \<Rightarrow> None) iter"

text \<open>\<open>filter_map(Result::transpose)\<close>.\<close>

definition transpose_filter :: "('e, 'a option) outcome list \<Rightarrow> ('e, 'a) outcome list" where
  "transpose_filter xs =
     List.map_filter (\<lambda>r. case r of Ok None \<Rightarrow> None | Ok (Some x) \<Rightarrow> Some (Ok x) | Err e \<Rightarrow> Some (Err e) | Panic \<Rightarrow> Some Panic) xs"

definition parse_value :: "'d rocks \<Rightarrow> UnixTimestampSecs \<Rightarrow> kv \<Rightarrow> (RocksError, u8 list option) outcome" where
  "parse_value R now data = and_then (deserialize (ctx_codec R) (snd data)) (\<lambda>ctx. Ok (into_payload now ctx))"

definition parse_subkey :: "'d rocks \<Rightarrow> kv \<Rightarrow> (RocksError, u8 list) outcome" where
  "parse_subkey R data = and_then (parse_ext_key (field_codec R) (fst data)) (\<lambda>(_, subkey). Ok subkey)"

definition iter_values :: "'d rocks \<Rightarrow> UnixTimestampSecs \<Rightarrow> (native_error, kv) outcome list \<Rightarrow> (RocksError, u8 list) outcome list" where
  "iter_values R now iter = transpose_filter (map_ok_flatten (parse_value R now) iter)"

definition iter_subkeys :: "'d rocks \<Rightarrow> (native_error, kv) outcome list \<Rightarrow> (RocksError, u8 list) outcome list" where
  "iter_subkeys R iter = map_ok_flatten (parse_subkey R) iter"

text \<open>\<open>MapRecords::map\<close>.\<close>

definition map_records_map :: "'d rocks \<Rightarrow> UnixTimestampSecs \<Rightarrow> kv \<Rightarrow> (RocksError, MapRecord option) outcome" where
  "map_records_map R now data =
     and_then (split_ext_key (fst data)) (\<lambda>subkey_slice.
     and_then (deserialize (field_codec R) subkey_slice) (\<lambda>field.
     and_then (deserialize (ctx_codec R) (snd data)) (\<lambda>ctx.
       Ok (map_option (\<lambda>value. \<lparr>mrec_field = field, mrec_value = value, mrec_expiration = ctx_expires ctx,
                                mrec_version = ctx_timestamp ctx\<rparr>) (into_payload now ctx)))))"

fun scan_loop :: "nat \<Rightarrow> MapRecord list \<Rightarrow> (RocksError, MapRecord) outcome list \<Rightarrow> (RocksError, ScanResult) outcome" where
  "scan_loop n items [] = Ok \<lparr>scan_items = items, scan_has_next = False\<rparr>"
| "scan_loop n items (item # iter) =
     and_then item (\<lambda>r.
       let items = items @ [r] in
       if length items \<ge> n then Ok \<lparr>scan_items = items, scan_has_next = (iter \<noteq> [])\<rparr>
       else scan_loop n items iter)"

fun skip_same_cursor :: "u8 list option \<Rightarrow> (RocksError, MapRecord) outcome list \<Rightarrow> (RocksError, MapRecord) outcome list" where
  "skip_same_cursor (Some cursor) (Ok r # iter) = (if mrec_field r = cursor then iter else Ok r # iter)"
| "skip_same_cursor _ iter = iter"

definition scan_iter :: "'d rocks \<Rightarrow> Column \<Rightarrow> 'd \<Rightarrow> GenericKey \<Rightarrow> u8 list option \<Rightarrow> (RocksError, (native_error, kv) outcome list) outcome" where
  "scan_iter R C d key cursor =
     (case cursor of
        Some c \<Rightarrow>
          and_then (serialize (field_codec R) c) (\<lambda>c.
          and_then (ext_key_from_slice key c) (\<lambda>k. Ok (rdb_iter_from R d (col_name C) k)))
      | None \<Rightarrow> and_then (storage_key key) (\<lambda>k. Ok (rdb_iter_from R d (col_name C) k)))"

definition scan :: "'d rocks \<Rightarrow> UnixTimestampSecs \<Rightarrow> Column \<Rightarrow> 'd \<Rightarrow> GenericKey \<Rightarrow> ScanOptions \<Rightarrow> (RocksError, ScanResult) outcome" where
  "scan R now C d key opts =
     and_then (scan_iter R C d key (scan_cursor opts)) (\<lambda>iter.
       scan_loop (scan_count opts) []
         (skip_same_cursor (scan_cursor opts) (transpose_filter (map_ok_flatten (map_records_map R now) iter))))"

section \<open>Maps\<close>

definition hset ::
  "'d rocks \<Rightarrow> Column \<Rightarrow> GenericKey \<Rightarrow> Pair \<Rightarrow> UnixTimestampSecs \<Rightarrow> UnixTimestampMicros \<Rightarrow> 'd \<Rightarrow> (RocksError, 'd) outcome" where
  "hset R C key pair expiration update_timestamp d =
     and_then (ext_key (field_codec R) key (pair_field pair)) (\<lambda>k.
     and_then (serialize (op_codec R) (op_set (pair_value pair) expiration update_timestamp)) (\<lambda>v.
       backend_merge R (col_name C) k v d))"

definition hset_val ::
  "'d rocks \<Rightarrow> Column \<Rightarrow> GenericKey \<Rightarrow> Pair \<Rightarrow> UnixTimestampMicros \<Rightarrow> 'd \<Rightarrow> (RocksError, 'd) outcome" where
  "hset_val R C key pair update_timestamp d =
     and_then (ext_key (field_codec R) key (pair_field pair)) (\<lambda>k.
     and_then (serialize (op_codec R) (op_set_val (pair_value pair) update_timestamp)) (\<lambda>v.
       backend_merge R (col_name C) k v d))"

definition hmset ::
  "'d rocks \<Rightarrow> Column \<Rightarrow> GenericKey \<Rightarrow> Pair list \<Rightarrow> UnixTimestampSecs \<Rightarrow> UnixTimestampMicros \<Rightarrow> 'd \<Rightarrow> (RocksError, 'd) outcome" where
  "hmset R C key pairs expiration update_timestamp d =
     and_then (try_fold (\<lambda>pair batch.
         and_then (ext_key (field_codec R) key (pair_field pair)) (\<lambda>k.
         and_then (serialize (op_codec R) (op_set (pair_value pair) expiration update_timestamp)) (\<lambda>v.
           Ok (batch @ [(col_name C, k, v)])))) pairs [])
       (\<lambda>batch. backend_write_batch R batch d)"

definition hget ::
  "'d rocks \<Rightarrow> (RocksError, unit) outcome \<Rightarrow> UnixTimestampSecs \<Rightarrow> Column \<Rightarrow> 'd \<Rightarrow> GenericKey \<Rightarrow> u8 list
   \<Rightarrow> (RocksError, RocksRecord option) outcome" where
  "hget R sent now C d key field =
     and_then (ext_key (field_codec R) key field) (\<lambda>k.
     and_then (backend_get R sent d (col_name C) k) (\<lambda>data.
       case data of None \<Rightarrow> Ok None | Some ctx \<Rightarrow> Ok (record_of now ctx)))"

definition hexists ::
  "'d rocks \<Rightarrow> (RocksError, unit) outcome \<Rightarrow> UnixTimestampSecs \<Rightarrow> Column \<Rightarrow> 'd \<Rightarrow> GenericKey \<Rightarrow> u8 list
   \<Rightarrow> (RocksError, bool) outcome" where
  "hexists R sent now C d key field = and_then (hget R sent now C d key field) (\<lambda>v. Ok (v \<noteq> None))"

definition hdel ::
  "'d rocks \<Rightarrow> UnixTimestampSecs \<Rightarrow> Column \<Rightarrow> GenericKey \<Rightarrow> u8 list \<Rightarrow> UnixTimestampMicros \<Rightarrow> 'd \<Rightarrow> (RocksError, 'd) outcome" where
  "hdel R now C key field timestamp d =
     and_then (ext_key (field_codec R) key field) (\<lambda>k.
     and_then (serialize (op_codec R) (op_del now timestamp)) (\<lambda>v.
       backend_merge R (col_name C) k v d))"

text \<open>The blocking operations go through the callback workers; \<open>sent\<close> is as for \<open>backend_get\<close>.\<close>

definition hvals ::
  "'d rocks \<Rightarrow> (RocksError, unit) outcome \<Rightarrow> UnixTimestampSecs \<Rightarrow> Column \<Rightarrow> 'd \<Rightarrow> GenericKey \<Rightarrow> (RocksError, u8 list list) outcome" where
  "hvals R sent now C d key =
     and_then (storage_key key) (\<lambda>k. and_then sent (\<lambda>_.
       try_map id (iter_values R now (rdb_iter_from R d (col_name C) k))))"

definition hfields ::
  "'d rocks \<Rightarrow> (RocksError, unit) outcome \<Rightarrow> Column \<Rightarrow> 'd \<Rightarrow> GenericKey \<Rightarrow> (RocksError, u8 list list) outcome" where
  "hfields R sent C d key =
     and_then (storage_key key) (\<lambda>k. and_then sent (\<lambda>_.
       try_map id (iter_subkeys R (rdb_iter_from R d (col_name C) k))))"

fun count_values :: "(RocksError, 'a) outcome list \<Rightarrow> nat \<Rightarrow> (RocksError, nat) outcome" where
  "count_values [] n = Ok n"
| "count_values (res # iter) n = and_then res (\<lambda>_. count_values iter (n + 1))"

definition hcard ::
  "'d rocks \<Rightarrow> (RocksError, unit) outcome \<Rightarrow> UnixTimestampSecs \<Rightarrow> Column \<Rightarrow> 'd \<Rightarrow> GenericKey \<Rightarrow> (RocksError, nat) outcome" where
  "hcard R sent now C d key =
     and_then (storage_key key) (\<lambda>k. and_then sent (\<lambda>_.
       count_values (iter_values R now (rdb_iter_from R d (col_name C) k)) 0))"

definition hscan ::
  "'d rocks \<Rightarrow> (RocksError, unit) outcome \<Rightarrow> UnixTimestampSecs \<Rightarrow> Column \<Rightarrow> 'd \<Rightarrow> GenericKey \<Rightarrow> ScanOptions
   \<Rightarrow> (RocksError, ScanResult) outcome" where
  "hscan R sent now C d key opts = and_then sent (\<lambda>_. scan R now C d key opts)"

definition hget_exp ::
  "'d rocks \<Rightarrow> (RocksError, unit) outcome \<Rightarrow> UnixTimestampSecs \<Rightarrow> Column \<Rightarrow> 'd \<Rightarrow> GenericKey \<Rightarrow> u8 list
   \<Rightarrow> (RocksError, UnixTimestampSecs) outcome" where
  "hget_exp R sent now C d key subkey = column_expiration R sent now C d key (Some subkey)"

definition hset_exp ::
  "'d rocks \<Rightarrow> Column \<Rightarrow> GenericKey \<Rightarrow> u8 list \<Rightarrow> UnixTimestampSecs \<Rightarrow> UnixTimestampMicros \<Rightarrow> 'd \<Rightarrow> (RocksError, 'd) outcome" where
  "hset_exp R C key subkey exp update_timestamp d =
     and_then (ext_key (field_codec R) key subkey) (\<lambda>k.
     and_then (serialize (op_codec R) (op_set_exp exp update_timestamp)) (\<lambda>v.
       backend_merge R (col_name C) k v d))"

end
