(* ===== verification/Rocks_Laws.thy ===== *)
theory Rocks_Laws
  imports Rocks_Storage
begin

text \<open>
  What the storage operations do on a database that behaves as RocksDB documents: the operations of
  \<open>Rocks_Storage\<close> implement a last-writer-wins store of data contexts, and paged scans list the visible
  fields of a map once each. The last section has a concrete database that satisfies the laws.
\<close>

section \<open>What is relied on\<close>

fun map_family :: "ColumnFamilyName \<Rightarrow> bool" where
  "map_family GenericMap = True"
| "map_family InternalGenericMap = True"
| "map_family _ = False"

type_synonym contents = "ColumnFamilyName \<Rightarrow> u8 list \<Rightarrow> u8 list option"

text \<open>The effect of a batch of merges on the logical contents: the registered full merge, key by key.\<close>

fun merge_batch :: "'d rocks \<Rightarrow> (ColumnFamilyName \<times> u8 list \<times> u8 list) list \<Rightarrow> contents \<Rightarrow> contents option" where
  "merge_batch R [] c = Some c"
| "merge_batch R ((cf, k, v) # batch) c =
     (case merge_callback (asymmetric_full_merge (op_codec R) (ctx_codec R) (c cf k) [v]) of
        None \<Rightarrow> None
      | Some bs \<Rightarrow> merge_batch R batch (c(cf := (c cf)(k \<mapsto> bs))))"

text \<open>An iterator yields, in ascending order, the entries that satisfy a condition.\<close>

definition yields :: "(native_error, kv) outcome list \<Rightarrow> (u8 list \<rightharpoonup> u8 list) \<Rightarrow> (u8 list \<Rightarrow> bool) \<Rightarrow> bool" where
  "yields iter m P \<longleftrightarrow>
     (\<exists>kvs. iter = map Ok kvs \<and> sorted_wrt bytes_less (map fst kvs) \<and> set kvs = {(k, v). m k = Some v \<and> P k})"

text \<open>
  The documented behaviour of RocksDB without input/output errors: lookups and iterators show the
  logical contents, writes of a batch apply its merges. The law of \<open>rdb_write\<close> is that of a merge operator
  whose partial merges cannot be observed.
\<close>

definition rocks_documented :: "'d rocks \<Rightarrow> ('d \<Rightarrow> bool) \<Rightarrow> ('d \<Rightarrow> contents) \<Rightarrow> bool" where
  "rocks_documented R valid contents \<longleftrightarrow>
     (\<forall>d. valid d \<longrightarrow>
        (\<forall>cf k. rdb_get R d cf k = Ok (contents d cf k))
      \<and> (\<forall>cf start. map_family cf \<longrightarrow>
           yields (rdb_iter_from R d cf start) (contents d cf)
             (\<lambda>k. \<not> bytes_less k start \<and> dynamic_prefix_extractor k = dynamic_prefix_extractor start))
      \<and> (\<forall>cf left right.
           yields (rdb_iter_range R d cf left right) (contents d cf)
             (\<lambda>k. (case left of Some l \<Rightarrow> \<not> bytes_less k l | None \<Rightarrow> True)
                \<and> (case right of Some r \<Rightarrow> bytes_less k r | None \<Rightarrow> True)))
      \<and> (\<forall>batch c. merge_batch R batch (contents d) = Some c \<longrightarrow>
           (\<exists>d'. rdb_write R batch d = Ok d' \<and> valid d' \<and> contents d' = c)))"

definition codecs_ok :: "'d rocks \<Rightarrow> bool" where
  "codecs_ok R \<longleftrightarrow>
     (\<forall>x. codec_reads_back (op_codec R) x) \<and> (\<forall>x. codec_reads_back (ctx_codec R) x)
   \<and> (\<forall>x. codec_reads_back (field_codec R) x)"

definition field_bytes :: "'d rocks \<Rightarrow> u8 list \<Rightarrow> u8 list" where
  "field_bytes R f = (case serialize (field_codec R) f of Ok bs \<Rightarrow> bs | _ \<Rightarrow> [])"

section \<open>Well-formed contents\<close>

text \<open>
  Every key is the key of a map field or of a string, according to its column family, and every value
  is a data context.
\<close>

definition key_form :: "'d rocks \<Rightarrow> ColumnFamilyName \<Rightarrow> u8 list \<Rightarrow> bool" where
  "key_form R cf k \<longleftrightarrow>
     (if map_family cf then \<exists>key f. key_fits key \<and> k = key_bytes key @ field_bytes R f
      else \<exists>key. key_fits key \<and> k = key_bytes key)"

definition stored_wf :: "'d rocks \<Rightarrow> contents \<Rightarrow> bool" where
  "stored_wf R c \<longleftrightarrow>
     (\<forall>cf k v. c cf k = Some v \<longrightarrow> key_form R cf k \<and> (\<exists>ctx. deserialize (ctx_codec R) v = Ok ctx))"

definition ctx_at :: "'d rocks \<Rightarrow> contents \<Rightarrow> ColumnFamilyName \<Rightarrow> u8 list \<Rightarrow> u8 list DataContext option" where
  "ctx_at R c cf k =
     (case c cf k of
        None \<Rightarrow> None
      | Some v \<Rightarrow> (case deserialize (ctx_codec R) v of Ok ctx \<Rightarrow> Some ctx | _ \<Rightarrow> None))"

definition ctx_or_default :: "'v DataContext option \<Rightarrow> 'v DataContext" where
  "ctx_or_default x = (case x of Some ctx \<Rightarrow> ctx | None \<Rightarrow> ctx_default)"

lemma codec_okE:
  assumes "codec_reads_back c x"
  obtains bs where "serialize c x = Ok bs" and "deserialize c bs = Ok x"
  using assms by (auto simp: codec_reads_back_def serialize_def deserialize_def split: outcome.splits)

lemma codecs_okD:
  assumes "codecs_ok R"
  shows "codec_reads_back (op_codec R) x" and "codec_reads_back (ctx_codec R) ctx" and "codec_reads_back (field_codec R) f"
  using assms by (simp_all add: codecs_ok_def)

lemma serialize_field [simp]: "codecs_ok R \<Longrightarrow> serialize (field_codec R) f = Ok (field_bytes R f)"
  by (rule codec_okE [OF codecs_okD(3), where x = f]) (auto simp: field_bytes_def)

lemma deserialize_field [simp]: "codecs_ok R \<Longrightarrow> deserialize (field_codec R) (field_bytes R f) = Ok f"
  by (rule serialize_reads_back [OF codecs_okD(3)]) simp_all

lemma field_bytes_inj: "codecs_ok R \<Longrightarrow> field_bytes R f = field_bytes R g \<longleftrightarrow> f = g"
  by (metis deserialize_field outcome.inject(1))

lemma ext_key_ok [simp]: "codecs_ok R \<Longrightarrow> ext_key (field_codec R) key f = Ok (key_bytes key @ field_bytes R f)"
  by (simp add: ext_key_def ext_key_from_slice_def)

lemma stored_decodes:
  assumes "stored_wf R c" and "c cf k = Some v"
  shows "deserialize (ctx_codec R) v = Ok (the (ctx_at R c cf k))" and "ctx_at R c cf k \<noteq> None"
proof -
  obtain ctx where "deserialize (ctx_codec R) v = Ok ctx"
    using assms unfolding stored_wf_def by blast
  then show "deserialize (ctx_codec R) v = Ok (the (ctx_at R c cf k))" and "ctx_at R c cf k \<noteq> None"
    using assms(2) by (simp_all add: ctx_at_def)
qed

lemma ctx_at_None_iff: "stored_wf R c \<Longrightarrow> ctx_at R c cf k = None \<longleftrightarrow> c cf k = None"
  using stored_decodes(2) by (cases "c cf k") (auto simp: ctx_at_def)

lemma existing_context_stored:
  assumes "stored_wf R c"
  shows "existing_context (ctx_codec R) (c cf k) = Ok (ctx_or_default (ctx_at R c cf k))"
proof (cases "c cf k")
  case None
  then show ?thesis by (simp add: existing_context_def ctx_or_default_def ctx_at_def)
next
  case (Some v)
  with stored_decodes [OF assms Some] show ?thesis by (auto simp: existing_context_def ctx_or_default_def)
qed

section \<open>Writes\<close>

lemma merge_one:
  assumes "codecs_ok R" and "stored_wf R c" and "key_form R cf k" and "serialize (op_codec R) op = Ok v"
  obtains bs where "merge_callback (asymmetric_full_merge (op_codec R) (ctx_codec R) (c cf k) [v]) = Some bs"
    and "stored_wf R (c(cf := (c cf)(k \<mapsto> bs)))"
    and "\<And>cf' k'. ctx_at R (c(cf := (c cf)(k \<mapsto> bs))) cf' k' =
           (if cf' = cf \<and> k' = k then Some (merge_ctx (ctx_or_default (ctx_at R c cf k)) op) else ctx_at R c cf' k')"
proof -
  let ?ctx = "merge_ctx (ctx_or_default (ctx_at R c cf k)) op"
  have "op_iter (op_codec R) [v] = [op]"
    by (rule op_iter_single [OF serialize_reads_back [OF codecs_okD(1) [OF assms(1)] assms(4)]])
  moreover obtain bs where bs: "serialize (ctx_codec R) ?ctx = Ok bs" "deserialize (ctx_codec R) bs = Ok ?ctx"
    using codec_okE [OF codecs_okD(2) [OF assms(1)]] by blast
  ultimately have "merge_callback (asymmetric_full_merge (op_codec R) (ctx_codec R) (c cf k) [v]) = Some bs"
    using existing_context_stored [OF assms(2)] by (simp add: asymmetric_full_merge_def merge_callback_def)
  moreover have "stored_wf R (c(cf := (c cf)(k \<mapsto> bs)))"
    using assms(2,3) bs(2) by (auto simp: stored_wf_def)
  ultimately show ?thesis
    using that bs(2) by (auto simp: ctx_at_def)
qed

text \<open>A batch of operations on well-formed keys, applied to a store of contexts.\<close>

type_synonym store = "ColumnFamilyName \<Rightarrow> u8 list \<Rightarrow> u8 list DataContext option"

fun store_write :: "(ColumnFamilyName \<times> u8 list \<times> u8 list MergeOp) list \<Rightarrow> store \<Rightarrow> store" where
  "store_write [] s = s"
| "store_write ((cf, k, op) # ops) s =
     store_write ops (s(cf := (s cf)(k \<mapsto> merge_ctx (ctx_or_default (s cf k)) op)))"

definition store_of :: "'d rocks \<Rightarrow> contents \<Rightarrow> store" where
  "store_of R c cf k = ctx_at R c cf k"

definition batch_of :: "'d rocks \<Rightarrow> (ColumnFamilyName \<times> u8 list \<times> u8 list MergeOp) list \<Rightarrow> (ColumnFamilyName \<times> u8 list \<times> u8 list) list \<Rightarrow> bool" where
  "batch_of R ops batch \<longleftrightarrow>
     list_all2 (\<lambda>(cf, k, op) (cf', k', v). cf' = cf \<and> k' = k \<and> serialize (op_codec R) op = Ok v) ops batch"

lemma merge_batch_store:
  assumes "codecs_ok R" and "stored_wf R c" and "batch_of R ops batch" and "\<forall>(cf, k, op) \<in> set ops. key_form R cf k"
  shows "\<exists>c'. merge_batch R batch c = Some c' \<and> stored_wf R c' \<and> store_of R c' = store_write ops (store_of R c)"
  using assms(2-)
proof (induction ops arbitrary: batch c)
  case Nil
  then show ?case by (simp add: batch_of_def)
next
  case (Cons x ops)
  obtain cf k op where x: "x = (cf, k, op)" by (cases x) auto
  with Cons.prems(2) obtain v rest where batch: "batch = (cf, k, v) # rest" "serialize (op_codec R) op = Ok v"
    and rest: "batch_of R ops rest"
    by (auto simp: batch_of_def list_all2_Cons1)
  have form: "key_form R cf k"
    using Cons.prems(3) x by simp
  from merge_one [OF assms(1) Cons.prems(1) form batch(2)]
  obtain bs where bs: "merge_callback (asymmetric_full_merge (op_codec R) (ctx_codec R) (c cf k) [v]) = Some bs"
    and wf: "stored_wf R (c(cf := (c cf)(k \<mapsto> bs)))"
    and at: "\<And>cf' k'. ctx_at R (c(cf := (c cf)(k \<mapsto> bs))) cf' k' =
           (if cf' = cf \<and> k' = k then Some (merge_ctx (ctx_or_default (ctx_at R c cf k)) op) else ctx_at R c cf' k')"
    by blast
  have "store_of R (c(cf := (c cf)(k \<mapsto> bs))) =
          (store_of R c)(cf := (store_of R c cf)(k \<mapsto> merge_ctx (ctx_or_default (store_of R c cf k)) op))"
    using at by (auto simp: store_of_def fun_eq_iff)
  moreover have "\<forall>(cf, k, op) \<in> set ops. key_form R cf k"
    using Cons.prems(3) by simp
  ultimately show ?case
    using Cons.IH [OF wf rest] by (simp add: batch(1) bs x del: fun_upd_apply)
qed

text \<open>A database in a valid state with well-formed contents.\<close>

definition db_ok :: "'d rocks \<Rightarrow> ('d \<Rightarrow> bool) \<Rightarrow> ('d \<Rightarrow> contents) \<Rightarrow> 'd \<Rightarrow> bool" where
  "db_ok R valid contents d \<longleftrightarrow>
     rocks_documented R valid contents \<and> codecs_ok R \<and> valid d \<and> stored_wf R (contents d)"

lemma db_okD:
  assumes "db_ok R valid contents d"
  shows "codecs_ok R" and "stored_wf R (contents d)" and "rdb_get R d cf k = Ok (contents d cf k)"
  using assms by (simp_all add: db_ok_def rocks_documented_def)

lemma write_batch_store:
  assumes "db_ok R valid contents d" and "batch_of R ops batch" and "\<forall>(cf, k, op) \<in> set ops. key_form R cf k"
  shows "\<exists>d'. backend_write_batch R batch d = Ok d' \<and> db_ok R valid contents d'
           \<and> store_of R (contents d') = store_write ops (store_of R (contents d))"
proof -
  obtain c where c: "merge_batch R batch (contents d) = Some c" "stored_wf R c"
      "store_of R c = store_write ops (store_of R (contents d))"
    using merge_batch_store [OF db_okD(1,2) [OF assms(1)] assms(2,3)] by blast
  then obtain d' where "rdb_write R batch d = Ok d'" "valid d'" "contents d' = c"
    using assms(1) unfolding db_ok_def rocks_documented_def by blast
  with c assms(1) show ?thesis
    by (auto simp: backend_write_batch_def db_ok_def)
qed

lemma backend_merge_batch: "backend_merge R cf k v d = backend_write_batch R [(cf, k, v)] d"
  by (simp add: backend_merge_def backend_write_batch_def)

lemma write_op_store:
  assumes "db_ok R valid contents d" and "key_form R cf k"
  shows "\<exists>d'. and_then (serialize (op_codec R) op) (\<lambda>v. backend_merge R cf k v d) = Ok d' \<and> db_ok R valid contents d'
           \<and> store_of R (contents d') = store_write [(cf, k, op)] (store_of R (contents d))"
proof -
  obtain v where "serialize (op_codec R) op = Ok v"
    using codec_okE [OF codecs_okD(1) [OF db_okD(1) [OF assms(1)]]] by blast
  then show ?thesis
    using write_batch_store [OF assms(1), of "[(cf, k, op)]" "[(cf, k, v)]"] assms(2)
    by (simp add: batch_of_def backend_merge_batch)
qed

section \<open>Reads\<close>

definition visible :: "UnixTimestampSecs \<Rightarrow> u8 list DataContext option \<Rightarrow> RocksRecord option" where
  "visible now x = (case x of None \<Rightarrow> None | Some ctx \<Rightarrow> record_of now ctx)"

lemma backend_get_store:
  assumes "db_ok R valid contents d"
  shows "backend_get R (Ok ()) d cf k = Ok (store_of R (contents d) cf k)"
proof (cases "contents d cf k")
  case None
  then show ?thesis
    by (simp add: backend_get_def db_okD(3) [OF assms] convert_result_def store_of_def ctx_at_def)
next
  case (Some v)
  with stored_decodes [OF db_okD(2) [OF assms] Some] show ?thesis
    by (auto simp: backend_get_def db_okD(3) [OF assms] convert_result_def store_of_def)
qed

lemma hget_store:
  assumes "db_ok R valid contents d"
  shows "hget R (Ok ()) now C d key f = Ok (visible now (store_of R (contents d) (col_name C) (key_bytes key @ field_bytes R f)))"
  using db_okD(1) [OF assms]
  by (simp add: hget_def backend_get_store [OF assms] visible_def split: option.splits)

lemma string_get_store:
  assumes "db_ok R valid contents d"
  shows "string_get R (Ok ()) now C d key = Ok (visible now (store_of R (contents d) (col_name C) (key_bytes key)))"
  by (simp add: string_get_def backend_get_store [OF assms] visible_def split: option.splits)

lemma map_key_form: "map_family cf \<Longrightarrow> key_fits key \<Longrightarrow> key_form R cf (key_bytes key @ field_bytes R f)"
  by (auto simp: key_form_def)

lemma map_key_bytes_inj:
  assumes "codecs_ok R" and "key_fits key" and "key_fits key'"
  shows "key_bytes key @ field_bytes R f = key_bytes key' @ field_bytes R f' \<longleftrightarrow> key = key' \<and> f = f'"
  using parse_key_key_bytes [OF assms(2), of "field_bytes R f"] parse_key_key_bytes [OF assms(3), of "field_bytes R f'"]
  by (auto simp: field_bytes_inj [OF assms(1)])

section \<open>The map as a last-writer-wins store\<close>

datatype map_write =
    WSet Pair UnixTimestampSecs UnixTimestampMicros
  | WSetVal Pair UnixTimestampMicros
  | WDel "u8 list" UnixTimestampMicros
  | WSetExp "u8 list" UnixTimestampSecs UnixTimestampMicros

fun map_write_run :: "'d rocks \<Rightarrow> UnixTimestampSecs \<Rightarrow> Column \<Rightarrow> GenericKey \<Rightarrow> map_write \<Rightarrow> 'd \<Rightarrow> (RocksError, 'd) outcome" where
  "map_write_run R now C key (WSet pair e t) d = hset R C key pair e t d"
| "map_write_run R now C key (WSetVal pair t) d = hset_val R C key pair t d"
| "map_write_run R now C key (WDel f t) d = hdel R now C key f t d"
| "map_write_run R now C key (WSetExp f e t) d = hset_exp R C key f e t d"

text \<open>The abstract write: a field and an operation on its context.\<close>

fun map_write_field :: "map_write \<Rightarrow> u8 list" where
  "map_write_field (WSet pair e t) = pair_field pair"
| "map_write_field (WSetVal pair t) = pair_field pair"
| "map_write_field (WDel f t) = f"
| "map_write_field (WSetExp f e t) = f"

fun map_write_op :: "UnixTimestampSecs \<Rightarrow> map_write \<Rightarrow> u8 list MergeOp" where
  "map_write_op now (WSet pair e t) = op_set (pair_value pair) e t"
| "map_write_op now (WSetVal pair t) = op_set_val (pair_value pair) t"
| "map_write_op now (WDel f t) = op_del now t"
| "map_write_op now (WSetExp f e t) = op_set_exp e t"

lemma map_write_run_eq:
  "codecs_ok R \<Longrightarrow> map_write_run R now C key w d =
     and_then (serialize (op_codec R) (map_write_op now w))
       (\<lambda>v. backend_merge R (col_name C) (key_bytes key @ field_bytes R (map_write_field w)) v d)"
  by (cases w) (simp_all add: hset_def hset_val_def hdel_def hset_exp_def)

text \<open>The maps of a column as one abstract store, from key and field to the context.\<close>

definition map_store :: "'d rocks \<Rightarrow> Column \<Rightarrow> contents \<Rightarrow> GenericKey \<Rightarrow> u8 list \<Rightarrow> u8 list DataContext option" where
  "map_store R C c key f = store_of R c (col_name C) (key_bytes key @ field_bytes R f)"

text \<open>
  The map operations implement a last-writer-wins store. Every write succeeds, keeps the database
  well-formed, and changes exactly the context of the field it names, by merging its operation; a read
  returns what the store has for the field.
\<close>

theorem map_write_refines:
  assumes "db_ok R valid contents d" and "map_family (col_name C)" and "key_fits key"
  shows "\<exists>d'. map_write_run R now C key w d = Ok d' \<and> db_ok R valid contents d'
           \<and> (\<forall>key' f now'. key_fits key' \<longrightarrow>
                hget R (Ok ()) now' C d' key' f =
                  Ok (visible now' (if key' = key \<and> f = map_write_field w
                        then Some (merge_ctx (ctx_or_default (map_store R C (contents d) key f)) (map_write_op now w))
                        else map_store R C (contents d) key' f)))"
proof -
  have cod: "codecs_ok R" by (rule db_okD(1) [OF assms(1)])
  obtain d' where d': "map_write_run R now C key w d = Ok d'" "db_ok R valid contents d'"
    and store: "store_of R (contents d') =
      store_write [(col_name C, key_bytes key @ field_bytes R (map_write_field w), map_write_op now w)] (store_of R (contents d))"
    using write_op_store [OF assms(1) map_key_form [OF assms(2,3)]] by (auto simp: map_write_run_eq [OF cod])
  have "hget R (Ok ()) now' C d' key' f =
          Ok (visible now' (if key' = key \<and> f = map_write_field w
                then Some (merge_ctx (ctx_or_default (map_store R C (contents d) key f)) (map_write_op now w))
                else map_store R C (contents d) key' f))"
    if "key_fits key'" for key' f now'
    using map_key_bytes_inj [OF cod that assms(3), of f "map_write_field w"]
    by (auto simp: hget_store [OF d'(2)] store map_store_def)
  with d' show ?thesis by blast
qed

section \<open>Listing a map\<close>

text \<open>The visible fields of a map, in the order of the iterator.\<close>

definition kv_record :: "'d rocks \<Rightarrow> UnixTimestampSecs \<Rightarrow> kv \<Rightarrow> MapRecord option" where
  "kv_record R now data = (case map_records_map R now data of Ok r \<Rightarrow> r | _ \<Rightarrow> None)"

definition map_entries :: "'d rocks \<Rightarrow> Column \<Rightarrow> 'd \<Rightarrow> GenericKey \<Rightarrow> kv list" where
  "map_entries R C d key =
     List.map_filter (\<lambda>r. case r of Ok data \<Rightarrow> Some data | _ \<Rightarrow> None) (rdb_iter_from R d (col_name C) (key_bytes key))"

definition map_records :: "'d rocks \<Rightarrow> UnixTimestampSecs \<Rightarrow> Column \<Rightarrow> 'd \<Rightarrow> GenericKey \<Rightarrow> MapRecord list" where
  "map_records R now C d key = List.map_filter (kv_record R now) (map_entries R C d key)"

definition with_field :: "u8 list \<Rightarrow> RocksRecord \<Rightarrow> MapRecord" where
  "with_field f r =
     \<lparr>mrec_field = f, mrec_value = rocks_value r, mrec_expiration = rocks_expiration r, mrec_version = rocks_version r\<rparr>"

definition field_less :: "'d rocks \<Rightarrow> u8 list \<Rightarrow> u8 list \<Rightarrow> bool" where
  "field_less R f g \<longleftrightarrow> bytes_less (field_bytes R f) (field_bytes R g)"

text \<open>One page of \<open>n\<close> records; the code returns one record when asked for none.\<close>

definition page :: "nat \<Rightarrow> MapRecord list \<Rightarrow> ScanResult" where
  "page n xs = \<lparr>scan_items = take (max 1 n) xs, scan_has_next = (max 1 n < length xs)\<rparr>"

lemma sorted_wrt_same_set:
  assumes "sorted_wrt bytes_less (map fst xs)" and "sorted_wrt bytes_less (map fst ys)" and "set xs = set ys"
  shows "xs = ys"
  using assms
proof (induction xs arbitrary: ys)
  case Nil
  then show ?case by simp
next
  case (Cons x xs)
  then obtain y ys' where ys: "ys = y # ys'" by (cases ys) auto
  have "x = y"
  proof (rule ccontr)
    assume "x \<noteq> y"
    then have "y \<in> set xs" "x \<in> set ys'"
      using Cons.prems(3) ys by auto
    then have "bytes_less (fst x) (fst y)" "bytes_less (fst y) (fst x)"
      using Cons.prems(1,2) ys by auto
    then show False using bytes_less_asym by blast
  qed
  moreover have "x \<notin> set xs" "y \<notin> set ys'"
    using Cons.prems(1,2) ys by auto
  ultimately have "set xs = set ys'"
    using Cons.prems(3) ys by auto
  with Cons.IH Cons.prems(1,2) ys \<open>x = y\<close> show ?case by auto
qed

lemma not_less_append [simp]: "\<not> bytes_less (xs @ ys) xs"
  by (induction xs) auto

lemma map_ok_flatten_Ok [simp]: "map_ok_flatten f (map Ok kvs) = map f kvs"
  by (simp add: map_ok_flatten_def List.map_filter_def)

lemma map_filter_cong_set: "(\<And>x. x \<in> set xs \<Longrightarrow> f x = g x) \<Longrightarrow> List.map_filter f xs = List.map_filter g xs"
  by (induction xs) (auto simp: List.map_filter_simps split: option.splits)

lemma sorted_wrt_map_filter:
  assumes "sorted_wrt P xs" and "\<And>x y r s. x \<in> set xs \<Longrightarrow> y \<in> set xs \<Longrightarrow> P x y \<Longrightarrow> g x = Some r \<Longrightarrow> g y = Some s \<Longrightarrow> Q r s"
  shows "sorted_wrt Q (List.map_filter g xs)"
  using assms
proof (induction xs)
  case (Cons x xs)
  then have IH: "sorted_wrt Q (List.map_filter g xs)" by auto
  show ?case
  proof (cases "g x")
    case None
    with IH show ?thesis by (simp add: List.map_filter_simps)
  next
    case (Some r)
    have "Q r s" if "s \<in> set (List.map_filter g xs)" for s
    proof -
      from that obtain y where "y \<in> set xs" "g y = Some s"
        by (auto simp: List.map_filter_def)
      with Cons.prems(1) Some show ?thesis by (intro Cons.prems(2) [of x y]) auto
    qed
    with IH Some show ?thesis by (simp add: List.map_filter_simps)
  qed
qed (simp add: List.map_filter_simps)

lemma transpose_filter_Ok: "transpose_filter (map (\<lambda>x. Ok (g x)) xs) = map Ok (List.map_filter g xs)"
  by (induction xs) (auto simp: transpose_filter_def List.map_filter_simps split: option.splits)

lemma filter_map_filter:
  "filter Q (List.map_filter g xs) = List.map_filter (\<lambda>x. case g x of Some r \<Rightarrow> if Q r then Some r else None | None \<Rightarrow> None) xs"
  by (induction xs) (auto simp: List.map_filter_simps split: option.splits)

lemma map_filter_filter: "List.map_filter g (filter P xs) = List.map_filter (\<lambda>x. if P x then g x else None) xs"
  by (induction xs) (auto simp: List.map_filter_simps split: option.splits)

text \<open>The entries of a map in a well-formed database.\<close>

lemma map_entries_iter:
  assumes "db_ok R valid contents d" and "map_family (col_name C)" and "key_fits key"
  shows "rdb_iter_from R d (col_name C) (key_bytes key) = map Ok (map_entries R C d key)"
    and "sorted_wrt bytes_less (map fst (map_entries R C d key))"
    and "set (map_entries R C d key) = {(k, v). contents d (col_name C) k = Some v \<and> (\<exists>f. k = key_bytes key @ field_bytes R f)}"
    and "rdb_iter_from R d (col_name C) (key_bytes key @ field_bytes R c) =
           map Ok (filter (\<lambda>kv. \<not> bytes_less (fst kv) (key_bytes key @ field_bytes R c)) (map_entries R C d key))"
proof -
  let ?m = "contents d (col_name C)"
  have laws: "yields (rdb_iter_from R d (col_name C) start) ?m
      (\<lambda>k. \<not> bytes_less k start \<and> dynamic_prefix_extractor k = dynamic_prefix_extractor start)" for start
    using assms(1,2) unfolding db_ok_def rocks_documented_def by blast
  have dpe: "dynamic_prefix_extractor (key_bytes key) = key_bytes key"
    using prefix_extractor_key_bytes [OF assms(3), of "[]"] by simp
  have own: "(dynamic_prefix_extractor k = key_bytes key) = (\<exists>f. k = key_bytes key @ field_bytes R f)"
    if some: "?m k = Some v" for k v
  proof -
    have "key_form R (col_name C) k"
      using db_okD(2) [OF assms(1)] some by (auto simp: stored_wf_def)
    then obtain key' f where k: "key_fits key'" "k = key_bytes key' @ field_bytes R f"
      using assms(2) by (auto simp: key_form_def)
    then show ?thesis
      using assms(3) key_bytes_inj [OF k(1) assms(3)] map_key_bytes_inj [OF db_okD(1) [OF assms(1)] k(1) assms(3)] by auto
  qed
  have pre: "(?m k = Some v \<and> \<not> bytes_less k (key_bytes key) \<and> dynamic_prefix_extractor k = dynamic_prefix_extractor (key_bytes key))
      = (?m k = Some v \<and> (\<exists>f. k = key_bytes key @ field_bytes R f))" for k v
    using own [of k v] by (auto simp: dpe)
  obtain kvs where kvs: "rdb_iter_from R d (col_name C) (key_bytes key) = map Ok kvs" "sorted_wrt bytes_less (map fst kvs)"
      "set kvs = {(k, v). ?m k = Some v \<and> (\<exists>f. k = key_bytes key @ field_bytes R f)}"
    using laws [of "key_bytes key"] unfolding yields_def pre by blast
  then have entries: "map_entries R C d key = kvs"
    by (simp add: map_entries_def List.map_filter_def comp_def)
  show "rdb_iter_from R d (col_name C) (key_bytes key) = map Ok (map_entries R C d key)"
    and "sorted_wrt bytes_less (map fst (map_entries R C d key))"
    and "set (map_entries R C d key) = {(k, v). ?m k = Some v \<and> (\<exists>f. k = key_bytes key @ field_bytes R f)}"
    unfolding entries by (rule kvs)+
  show "rdb_iter_from R d (col_name C) (key_bytes key @ field_bytes R c) =
      map Ok (filter (\<lambda>kv. \<not> bytes_less (fst kv) (key_bytes key @ field_bytes R c)) (map_entries R C d key))"
  proof -
    let ?start = "key_bytes key @ field_bytes R c"
    obtain ws where ws: "rdb_iter_from R d (col_name C) ?start = map Ok ws" "sorted_wrt bytes_less (map fst ws)"
      "set ws = {(k, v). ?m k = Some v \<and> \<not> bytes_less k ?start \<and> dynamic_prefix_extractor k = dynamic_prefix_extractor ?start}"
      using laws [of ?start] unfolding yields_def by blast
    have "set ws = set (filter (\<lambda>kv. \<not> bytes_less (fst kv) ?start) kvs)"
      using own assms(3) by (auto simp: ws(3) kvs(3))
    moreover have "sorted_wrt bytes_less (map fst (filter (\<lambda>kv. \<not> bytes_less (fst kv) ?start) kvs))"
      using kvs(2) by (simp add: sorted_wrt_map sorted_wrt_filter)
    ultimately have "ws = filter (\<lambda>kv. \<not> bytes_less (fst kv) ?start) kvs"
      by (intro sorted_wrt_same_set ws(2))
    with ws(1) entries show ?thesis by simp
  qed
qed

lemma kv_record_map:
  assumes "db_ok R valid contents d" and "key_fits key"
    and "contents d (col_name C) k = Some v" and "k = key_bytes key @ field_bytes R f"
  shows "map_records_map R now (k, v) = Ok (kv_record R now (k, v))"
    and "kv_record R now (k, v) =
      map_option (with_field f) (visible now (map_store R C (contents d) key f))"
proof -
  have dec: "deserialize (ctx_codec R) v = Ok (the (map_store R C (contents d) key f))" "map_store R C (contents d) key f \<noteq> None"
    using stored_decodes [OF db_okD(2) [OF assms(1)] assms(3)] by (simp_all add: assms(4) map_store_def store_of_def)
  then have "map_records_map R now (k, v) =
      Ok (map_option (with_field f) (visible now (map_store R C (contents d) key f)))"
    using assms(2) db_okD(1) [OF assms(1)]
    by (auto simp: map_records_map_def assms(4) visible_def record_of_def option.map_comp comp_def with_field_def)
  then show "map_records_map R now (k, v) = Ok (kv_record R now (k, v))"
    and "kv_record R now (k, v) =
      map_option (with_field f) (visible now (map_store R C (contents d) key f))"
    by (simp_all add: kv_record_def)
qed

lemma scan_loop_page:
  "length acc < max 1 n \<Longrightarrow> scan_loop n acc (map Ok xs) =
     Ok \<lparr>scan_items = acc @ take (max 1 n - length acc) xs, scan_has_next = (max 1 n < length acc + length xs)\<rparr>"
proof (induction xs arbitrary: acc)
  case Nil
  then show ?case by (auto simp: less_max_iff_disj)
next
  case (Cons x xs)
  show ?case
  proof (cases "n \<le> Suc (length acc)")
    case True
    then have eq: "max 1 n = Suc (length acc)"
      using Cons.prems by (auto simp: max_def split: if_splits)
    show ?thesis
      using True unfolding eq by simp
  next
    case False
    then have "max 1 n - length acc = Suc (max 1 n - length (acc @ [x]))"
      by simp
    with False Cons.IH [of "acc @ [x]"] show ?thesis by simp
  qed
qed

lemma field_less_linear: "codecs_ok R \<Longrightarrow> f \<noteq> g \<Longrightarrow> field_less R f g \<or> field_less R g f"
  unfolding field_less_def by (intro bytes_less_linear) (simp add: field_bytes_inj)

lemma field_less_order: "\<not> field_less R f f" "field_less R f g \<Longrightarrow> field_less R g h \<Longrightarrow> field_less R f h"
  "field_less R f g \<Longrightarrow> \<not> field_less R g f"
  unfolding field_less_def by (simp, rule bytes_less_trans, assumption+) (rule bytes_less_asym)

lemma skip_same_cursor_sorted:
  assumes "codecs_ok R" and "sorted_wrt (\<lambda>r s. field_less R (mrec_field r) (mrec_field s)) L"
  shows "skip_same_cursor (Some c) (map Ok (filter (\<lambda>r. \<not> field_less R (mrec_field r) c) L))
       = map Ok (filter (\<lambda>r. field_less R c (mrec_field r)) L)"
proof -
  let ?M = "filter (\<lambda>r. \<not> field_less R (mrec_field r) c) L"
  have gt: "filter (\<lambda>r. field_less R c (mrec_field r)) L = filter (\<lambda>r. field_less R c (mrec_field r)) ?M"
    using field_less_order(3) by (auto intro!: filter_cong)
  show ?thesis
  proof (cases ?M)
    case Nil
    then show ?thesis unfolding gt by simp
  next
    case (Cons r M)
    have sorted: "sorted_wrt (\<lambda>r s. field_less R (mrec_field r) (mrec_field s)) (r # M)"
      using sorted_wrt_filter [OF assms(2)] Cons by metis
    have "\<not> field_less R (mrec_field r) c"
      using Cons by (auto dest!: filter_eq_ConsD)
    then have "mrec_field r = c \<or> field_less R c (mrec_field r)"
      using field_less_linear [OF assms(1)] by blast
    moreover have "field_less R c (mrec_field s)" if "s \<in> set M" "mrec_field r = c \<or> field_less R c (mrec_field r)" for s
    proof -
      have "field_less R (mrec_field r) (mrec_field s)"
        using sorted that(1) by simp
      with that(2) field_less_order(2) [of R c "mrec_field r"] show ?thesis by auto
    qed
    ultimately show ?thesis
      unfolding gt Cons using field_less_order(1) [of R c] by (auto simp: filter_id_conv)
  qed
qed

text \<open>What the iterators of a map give, with and without a cursor.\<close>

lemma kv_record_entries:
  assumes "db_ok R valid contents d" and "map_family (col_name C)" and "key_fits key" and "kv \<in> set (map_entries R C d key)"
  shows "map_records_map R now kv = Ok (kv_record R now kv)"
    and "kv_record R now kv = Some r \<Longrightarrow> fst kv = key_bytes key @ field_bytes R (mrec_field r)"
    and "kv_record R now kv = Some r \<Longrightarrow> \<exists>f r'. r = with_field f r' \<and> visible now (map_store R C (contents d) key f) = Some r'"
proof -
  obtain k v f where kv: "kv = (k, v)" "contents d (col_name C) k = Some v" "k = key_bytes key @ field_bytes R f"
    using assms(4) map_entries_iter(3) [OF assms(1-3)] by auto
  note entry = kv_record_map [OF assms(1,3) kv(2,3), of now]
  show "map_records_map R now kv = Ok (kv_record R now kv)"
    using entry(1) kv(1) by simp
  have rec: "\<exists>r'. r = with_field f r' \<and> visible now (map_store R C (contents d) key f) = Some r'" if "kv_record R now kv = Some r"
    using that unfolding kv(1) entry(2) by auto
  show "fst kv = key_bytes key @ field_bytes R (mrec_field r)" if "kv_record R now kv = Some r"
    using rec [OF that] kv(1,3) by (auto simp: with_field_def)
  show "\<exists>f r'. r = with_field f r' \<and> visible now (map_store R C (contents d) key f) = Some r'" if "kv_record R now kv = Some r"
    using rec [OF that] by blast
qed

lemma transpose_filter_entries:
  assumes "\<And>kv. kv \<in> set kvs \<Longrightarrow> map_records_map R now kv = Ok (kv_record R now kv)"
  shows "transpose_filter (map_ok_flatten (map_records_map R now) (map Ok kvs)) = map Ok (List.map_filter (kv_record R now) kvs)"
proof -
  have "map (map_records_map R now) kvs = map (\<lambda>kv. Ok (kv_record R now kv)) kvs"
    using assms by (intro map_cong) simp_all
  then show ?thesis by (simp only: map_ok_flatten_Ok transpose_filter_Ok)
qed

lemma map_records_iter:
  assumes "db_ok R valid contents d" and "map_family (col_name C)" and "key_fits key"
  shows "transpose_filter (map_ok_flatten (map_records_map R now) (rdb_iter_from R d (col_name C) (key_bytes key)))
       = map Ok (map_records R now C d key)"
  unfolding map_entries_iter(1) [OF assms] map_records_def
  by (rule transpose_filter_entries) (rule kv_record_entries(1) [OF assms])

lemma map_records_iter_cursor:
  assumes "db_ok R valid contents d" and "map_family (col_name C)" and "key_fits key"
  shows "transpose_filter (map_ok_flatten (map_records_map R now) (rdb_iter_from R d (col_name C) (key_bytes key @ field_bytes R c)))
       = map Ok (filter (\<lambda>r. \<not> field_less R (mrec_field r) c) (map_records R now C d key))"
proof -
  let ?P = "\<lambda>kv. \<not> bytes_less (fst kv) (key_bytes key @ field_bytes R c)"
  have "List.map_filter (kv_record R now) (filter ?P (map_entries R C d key))
      = filter (\<lambda>r. \<not> field_less R (mrec_field r) c) (map_records R now C d key)"
    unfolding map_records_def map_filter_filter filter_map_filter
  proof (rule map_filter_cong_set)
    fix kv
    assume kv: "kv \<in> set (map_entries R C d key)"
    show "(if ?P kv then kv_record R now kv else None) =
        (case kv_record R now kv of Some r \<Rightarrow> if \<not> field_less R (mrec_field r) c then Some r else None | None \<Rightarrow> None)"
      using kv_record_entries(2) [OF assms kv, of now]
      by (cases "kv_record R now kv") (simp_all add: field_less_def)
  qed
  moreover have "transpose_filter (map_ok_flatten (map_records_map R now) (map Ok (filter ?P (map_entries R C d key))))
      = map Ok (List.map_filter (kv_record R now) (filter ?P (map_entries R C d key)))"
    by (rule transpose_filter_entries) (simp add: kv_record_entries(1) [OF assms])
  ultimately show ?thesis
    by (simp only: map_entries_iter(4) [OF assms])
qed

lemma map_records_sorted:
  assumes "db_ok R valid contents d" and "map_family (col_name C)" and "key_fits key"
  shows "sorted_wrt (\<lambda>r s. field_less R (mrec_field r) (mrec_field s)) (map_records R now C d key)"
  unfolding map_records_def
proof (rule sorted_wrt_map_filter)
  show "sorted_wrt (\<lambda>x y. bytes_less (fst x) (fst y)) (map_entries R C d key)"
    using map_entries_iter(2) [OF assms] by (simp add: sorted_wrt_map)
  fix x y r t
  assume "x \<in> set (map_entries R C d key)" "y \<in> set (map_entries R C d key)" "bytes_less (fst x) (fst y)"
    and "kv_record R now x = Some r" "kv_record R now y = Some t"
  then show "field_less R (mrec_field r) (mrec_field t)"
    using kv_record_entries(2) [OF assms] by (simp add: field_less_def)
qed

lemma set_map_records:
  assumes "db_ok R valid contents d" and "map_family (col_name C)" and "key_fits key"
  shows "set (map_records R now C d key) = {with_field f r | f r. visible now (map_store R C (contents d) key f) = Some r}"
proof (intro equalityI subsetI)
  fix x
  assume "x \<in> set (map_records R now C d key)"
  then obtain kv where "kv \<in> set (map_entries R C d key)" "kv_record R now kv = Some x"
    by (auto simp: map_records_def List.map_filter_def)
  from kv_record_entries(3) [OF assms this]
  show "x \<in> {with_field f r | f r. visible now (map_store R C (contents d) key f) = Some r}" by blast
next
  fix x
  assume "x \<in> {with_field f r | f r. visible now (map_store R C (contents d) key f) = Some r}"
  then obtain f r where x: "x = with_field f r" and vis: "visible now (map_store R C (contents d) key f) = Some r"
    by blast
  let ?k = "key_bytes key @ field_bytes R f"
  obtain v where v: "contents d (col_name C) ?k = Some v"
    using vis by (cases "contents d (col_name C) ?k") (auto simp: visible_def map_store_def store_of_def ctx_at_def)
  then have "(?k, v) \<in> set (map_entries R C d key)"
    using map_entries_iter(3) [OF assms] by blast
  moreover have "kv_record R now (?k, v) = Some x"
    using kv_record_map(2) [OF assms(1,3) v refl] vis x by simp
  ultimately show "x \<in> set (map_records R now C d key)"
    by (force simp: map_records_def List.map_filter_def)
qed

section \<open>Paged scans\<close>

lemma scan_page:
  assumes "db_ok R valid contents d" and "map_family (col_name C)" and "key_fits key"
  shows "scan R now C d key \<lparr>scan_count = n, scan_cursor = None\<rparr> = Ok (page n (map_records R now C d key))"
    and "scan R now C d key \<lparr>scan_count = n, scan_cursor = Some c\<rparr> =
           Ok (page n (filter (\<lambda>r. field_less R c (mrec_field r)) (map_records R now C d key)))"
proof -
  show "scan R now C d key \<lparr>scan_count = n, scan_cursor = None\<rparr> = Ok (page n (map_records R now C d key))"
    by (simp add: scan_def scan_iter_def map_records_iter [OF assms] scan_loop_page page_def)
  have "skip_same_cursor (Some c) (map Ok (filter (\<lambda>r. \<not> field_less R (mrec_field r) c) (map_records R now C d key)))
      = map Ok (filter (\<lambda>r. field_less R c (mrec_field r)) (map_records R now C d key))"
    by (rule skip_same_cursor_sorted [OF db_okD(1) [OF assms(1)] map_records_sorted [OF assms]])
  then show "scan R now C d key \<lparr>scan_count = n, scan_cursor = Some c\<rparr> =
           Ok (page n (filter (\<lambda>r. field_less R c (mrec_field r)) (map_records R now C d key)))"
    using db_okD(1) [OF assms(1)]
    by (simp add: scan_def scan_iter_def ext_key_from_slice_def map_records_iter_cursor [OF assms] scan_loop_page page_def)
qed

text \<open>
  A client that reads a map page by page, with the field of the last record as the next cursor, until
  a page has no successor. \<open>fuel\<close> bounds the number of pages.
\<close>

fun scan_pages ::
  "'d rocks \<Rightarrow> UnixTimestampSecs \<Rightarrow> Column \<Rightarrow> 'd \<Rightarrow> GenericKey \<Rightarrow> nat \<Rightarrow> nat \<Rightarrow> u8 list option \<Rightarrow> MapRecord list option" where
  "scan_pages R now C d key n 0 cursor = None"
| "scan_pages R now C d key n (Suc fuel) cursor =
     (case hscan R (Ok ()) now C d key \<lparr>scan_count = n, scan_cursor = cursor\<rparr> of
        Ok res \<Rightarrow>
          if scan_has_next res
          then map_option (append (scan_items res)) (scan_pages R now C d key n fuel (Some (mrec_field (last (scan_items res)))))
          else Some (scan_items res)
      | _ \<Rightarrow> None)"

lemma scan_pages_rest:
  assumes "db_ok R valid contents d" and "map_family (col_name C)" and "key_fits key"
    and "map_records R now C d key = pre @ rest" and "length rest < fuel"
    and "cursor = (if pre = [] then None else Some (mrec_field (last pre)))"
  shows "scan_pages R now C d key n fuel cursor = Some rest"
  using assms(4-6)
proof (induction fuel arbitrary: pre rest cursor)
  case 0
  then show ?case by simp
next
  case (Suc fuel)
  have sorted: "sorted_wrt (\<lambda>r s. field_less R (mrec_field r) (mrec_field s)) (pre @ rest)"
    using map_records_sorted [OF assms(1-3)] Suc.prems(1) by metis
  have after: "filter (\<lambda>r. field_less R (mrec_field (last pre)) (mrec_field r)) (pre @ rest) = rest" if ne: "pre \<noteq> []"
  proof -
    obtain ini x where pre: "pre = ini @ [x]"
      using ne by (cases pre rule: rev_cases) auto
    have "\<not> field_less R (mrec_field x) (mrec_field r)" if "r \<in> set pre" for r
      using sorted that by (auto simp: pre sorted_wrt_append field_less_order(1) dest: field_less_order(3))
    moreover have "field_less R (mrec_field x) (mrec_field r)" if "r \<in> set rest" for r
      using sorted that by (auto simp: pre sorted_wrt_append)
    ultimately show ?thesis
      by (simp add: pre filter_id_conv filter_empty_conv)
  qed
  define m where "m = max 1 n"
  then have "0 < m" by simp
  have res: "hscan R (Ok ()) now C d key \<lparr>scan_count = n, scan_cursor = cursor\<rparr>
      = Ok \<lparr>scan_items = take m rest, scan_has_next = (m < length rest)\<rparr>"
    using after Suc.prems(1,3) by (auto simp: hscan_def scan_page [OF assms(1-3)] page_def m_def)
  show ?case
  proof (cases "m < length rest")
    case False
    then show ?thesis by (simp add: res)
  next
    case True
    then have "take m rest \<noteq> []"
      using \<open>0 < m\<close> by auto
    then have "scan_pages R now C d key n fuel (Some (mrec_field (last (take m rest)))) = Some (drop m rest)"
      using Suc.prems(1,2) True \<open>0 < m\<close> by (intro Suc.IH [of "pre @ take m rest"]) auto
    then show ?thesis
      using True by (simp add: res)
  qed
qed

text \<open>
  C9. Paging through a map ends and is complete. Whatever the page size, at most one more page than the
  map has records is read, and the pages together are the visible fields of the map, each once and in
  order: exactly the fields and records that \<open>hget\<close> returns.
\<close>

theorem hscan_pages_complete:
  assumes "db_ok R valid contents d" and "map_family (col_name C)" and "key_fits key"
  shows "\<exists>records. scan_pages R now C d key n (length records + 1) None = Some records
           \<and> distinct (map mrec_field records)
           \<and> (\<forall>f r. with_field f r \<in> set records \<longleftrightarrow> hget R (Ok ()) now C d key f = Ok (Some r))"
proof (intro exI conjI allI)
  let ?L = "map_records R now C d key"
  show "scan_pages R now C d key n (length ?L + 1) None = Some ?L"
    by (rule scan_pages_rest [OF assms, where pre = "[]"]) simp_all
  show "distinct (map mrec_field ?L)"
    unfolding distinct_conv_nth
    using sorted_wrt_nth_less [OF map_records_sorted [OF assms, of now]] field_less_order(1)
    by (metis length_map nth_map nat_neq_iff)
  fix f r
  have inj: "with_field f r = with_field f' r' \<longleftrightarrow> f = f' \<and> r = r'" for f' r'
    by (cases r; cases r') (simp add: with_field_def)
  show "with_field f r \<in> set ?L \<longleftrightarrow> hget R (Ok ()) now C d key f = Ok (Some r)"
    by (auto simp: set_map_records [OF assms] inj hget_store [OF assms(1)] map_store_def)
qed

section \<open>What the iterators leave out\<close>

text \<open>
  \<open>map_ok(..).flatten()\<close> drops the errors of the database iterator: a map whose iteration fails at once
  is listed and counted as empty, without an error.
\<close>

theorem iterator_errors_dropped:
  assumes "rdb_iter_from R d (col_name C) (key_bytes key) = [Err e]"
  shows "hcard R (Ok ()) now C d key = Ok 0" and "hvals R (Ok ()) now C d key = Ok []"
    and "hscan R (Ok ()) now C d key \<lparr>scan_count = n, scan_cursor = None\<rparr> = Ok \<lparr>scan_items = [], scan_has_next = False\<rparr>"
  by (simp_all add: assms hcard_def hvals_def hscan_def scan_def scan_iter_def iter_values_def map_ok_flatten_def
      transpose_filter_def List.map_filter_simps)

text \<open>The fields of a map are listed even when they are deleted or expired, unlike its values.\<close>

theorem hfields_lists_deleted:
  assumes "codecs_ok R" and "key_fits key" and "rdb_iter_from R d (col_name C) (key_bytes key) = [Ok (key_bytes key @ field_bytes R f, v)]"
    and "deserialize (ctx_codec R) v = Ok ctx" and "ctx_payload ctx = NoPayload"
  shows "hfields R (Ok ()) C d key = Ok [f]" and "hvals R (Ok ()) now C d key = Ok []"
  using assms
  by (simp_all add: hfields_def hvals_def iter_subkeys_def iter_values_def map_ok_flatten_def transpose_filter_def
      List.map_filter_simps parse_subkey_def parse_ext_key_def parse_key_key_bytes parse_value_def into_payload_def)

section \<open>A concrete database\<close>

text \<open>A database that satisfies the laws: one sorted association list per column family.\<close>

type_synonym sample_db = "ColumnFamilyName \<Rightarrow> kv list"

fun put_kv :: "u8 list \<Rightarrow> u8 list \<Rightarrow> kv list \<Rightarrow> kv list" where
  "put_kv k v [] = [(k, v)]"
| "put_kv k v ((k', v') # kvs) =
     (if k = k' then (k, v) # kvs else if bytes_less k k' then (k, v) # (k', v') # kvs else (k', v') # put_kv k v kvs)"

fun sample_write :: "(ColumnFamilyName \<times> u8 list \<times> u8 list) list \<Rightarrow> sample_db \<Rightarrow> (native_error, sample_db) outcome" where
  "sample_write [] d = Ok d"
| "sample_write ((cf, k, v) # batch) d =
     (case merge_callback (asymmetric_full_merge sample_op_codec sample_ctx_codec (map_of (d cf) k) [v]) of
        None \<Rightarrow> Err (''Corruption'', ''merge failed'')
      | Some bs \<Rightarrow> sample_write batch (d(cf := put_kv k bs (d cf))))"

definition sample_rocks :: "sample_db rocks" where
  "sample_rocks =
     \<lparr>rdb_get = (\<lambda>d cf k. Ok (map_of (d cf) k)),
      rdb_write = sample_write,
      rdb_iter_from = (\<lambda>d cf start.
        map Ok (filter (\<lambda>(k, _). \<not> bytes_less k start \<and> dynamic_prefix_extractor k = dynamic_prefix_extractor start) (d cf))),
      rdb_iter_range = (\<lambda>d cf left right.
        map Ok (filter (\<lambda>(k, _). (case left of Some l \<Rightarrow> \<not> bytes_less k l | None \<Rightarrow> True)
                                \<and> (case right of Some r \<Rightarrow> bytes_less k r | None \<Rightarrow> True)) (d cf))),
      op_codec = sample_op_codec, ctx_codec = sample_ctx_codec,
      field_codec = \<lparr>codec_ser = Ok, codec_de = Ok\<rparr>\<rparr>"

definition sample_contents :: "sample_db \<Rightarrow> contents" where
  "sample_contents d = (\<lambda>cf. map_of (d cf))"

definition sample_valid :: "sample_db \<Rightarrow> bool" where
  "sample_valid d \<longleftrightarrow> (\<forall>cf. sorted_wrt bytes_less (map fst (d cf)))"

lemma sample_rocks_codecs [simp]:
  "op_codec sample_rocks = sample_op_codec" "ctx_codec sample_rocks = sample_ctx_codec"
  "field_codec sample_rocks = \<lparr>codec_ser = Ok, codec_de = Ok\<rparr>"
  by (simp_all add: sample_rocks_def)

lemma fst_put_kv: "fst ` set (put_kv k v kvs) = insert k (fst ` set kvs)"
  by (induction k v kvs rule: put_kv.induct) auto

lemma sorted_put_kv: "sorted_wrt bytes_less (map fst kvs) \<Longrightarrow> sorted_wrt bytes_less (map fst (put_kv k v kvs))"
proof (induction k v kvs rule: put_kv.induct)
  case (1 k v)
  then show ?case by simp
next
  case (2 k v k' v' kvs)
  show ?case
  proof (cases "k = k' \<or> bytes_less k k'")
    case True
    with 2 bytes_less_trans [of k k'] show ?thesis by auto
  next
    case False
    then have less: "bytes_less k' k"
      using bytes_less_linear by blast
    have "sorted_wrt bytes_less (map fst (put_kv k v kvs))"
      using 2 False by auto
    moreover have "\<forall>x \<in> fst ` set (put_kv k v kvs). bytes_less k' x"
      using 2 less unfolding fst_put_kv by auto
    ultimately show ?thesis
      using False by auto
  qed
qed

lemma map_of_put_kv:
  "sorted_wrt bytes_less (map fst kvs) \<Longrightarrow> map_of (put_kv k v kvs) = (map_of kvs)(k \<mapsto> v)"
proof (induction k v kvs rule: put_kv.induct)
  case (1 k v)
  then show ?case by auto
next
  case (2 k v k' v' kvs)
  then show ?case by (auto simp: fun_eq_iff)
qed

lemma sorted_keys_distinct: "sorted_wrt bytes_less (map fst kvs) \<Longrightarrow> distinct (map fst kvs)"
  by (induction kvs) auto

lemma yields_filter:
  assumes "sorted_wrt bytes_less (map fst kvs)"
  shows "yields (map Ok (filter (\<lambda>(k, _). P k) kvs)) (map_of kvs) P"
  unfolding yields_def
proof (intro exI conjI)
  show "sorted_wrt bytes_less (map fst (filter (\<lambda>(k, _). P k) kvs))"
    using assms by (simp add: sorted_wrt_map sorted_wrt_filter)
  show "set (filter (\<lambda>(k, _). P k) kvs) = {(k, v). map_of kvs k = Some v \<and> P k}"
    using map_of_eq_Some_iff [OF sorted_keys_distinct [OF assms]] by auto
qed simp

lemma sample_write_law:
  "sample_valid d \<Longrightarrow> merge_batch sample_rocks batch (sample_contents d) = Some c
   \<Longrightarrow> \<exists>d'. sample_write batch d = Ok d' \<and> sample_valid d' \<and> sample_contents d' = c"
proof (induction batch arbitrary: d)
  case Nil
  then show ?case by simp
next
  case (Cons x batch)
  obtain cf k v where x: "x = (cf, k, v)" by (cases x) auto
  from Cons.prems(2) obtain bs where
    bs: "merge_callback (asymmetric_full_merge sample_op_codec sample_ctx_codec (map_of (d cf) k) [v]) = Some bs"
    and rest: "merge_batch sample_rocks batch ((sample_contents d)(cf := (sample_contents d cf)(k \<mapsto> bs))) = Some c"
    unfolding x by (auto simp: sample_contents_def split: option.splits)
  let ?d = "d(cf := put_kv k bs (d cf))"
  have "sample_valid ?d"
    using Cons.prems(1) sorted_put_kv by (auto simp: sample_valid_def)
  moreover have "sample_contents ?d = (sample_contents d)(cf := (sample_contents d cf)(k \<mapsto> bs))"
    using Cons.prems(1) map_of_put_kv by (intro ext) (simp add: sample_valid_def sample_contents_def)
  ultimately show ?case
    using Cons.IH [of ?d] rest bs by (simp add: x del: fun_upd_apply)
qed

lemma sample_rocks_documented: "rocks_documented sample_rocks sample_valid sample_contents"
  unfolding rocks_documented_def
proof (intro allI impI conjI)
  fix d cf
  assume valid: "sample_valid d"
  then have sorted: "sorted_wrt bytes_less (map fst (d cf))"
    by (simp add: sample_valid_def)
  show "rdb_get sample_rocks d cf k = Ok (sample_contents d cf k)" for k
    by (simp add: sample_rocks_def sample_contents_def)
  show "yields (rdb_iter_from sample_rocks d cf start) (sample_contents d cf)
      (\<lambda>k. \<not> bytes_less k start \<and> dynamic_prefix_extractor k = dynamic_prefix_extractor start)" for start
    using yields_filter [OF sorted] by (simp add: sample_rocks_def sample_contents_def)
  show "yields (rdb_iter_range sample_rocks d cf left right) (sample_contents d cf)
      (\<lambda>k. (case left of Some l \<Rightarrow> \<not> bytes_less k l | None \<Rightarrow> True) \<and> (case right of Some r \<Rightarrow> bytes_less k r | None \<Rightarrow> True))"
    for left right
    using yields_filter [OF sorted] by (simp add: sample_rocks_def sample_contents_def)
  show "\<exists>d'. rdb_write sample_rocks batch d = Ok d' \<and> sample_valid d' \<and> sample_contents d' = c"
    if "merge_batch sample_rocks batch (sample_contents d) = Some c" for batch c
    using sample_write_law [OF valid that] by (simp add: sample_rocks_def)
qed

lemma sample_codecs_ok: "codecs_ok sample_rocks"
  using sample_op_codec_reads_back sample_ctx_codec_reads_back by (simp add: codecs_ok_def sample_rocks_def codec_reads_back_def)

lemma sample_db_ok: "db_ok sample_rocks sample_valid sample_contents (\<lambda>_. [])"
  by (simp add: db_ok_def sample_rocks_documented sample_codecs_ok sample_valid_def stored_wf_def sample_contents_def)

definition sample_key :: GenericKey where
  "sample_key = GenericKey_new 7 [1, 2]"

lemma sample_key_fits: "key_fits sample_key"
  by (simp add: sample_key_def GenericKey_new_def key_fits_def)

text \<open>A database with one map of one field.\<close>

definition sample_ctx :: "u8 list DataContext" where
  "sample_ctx = \<lparr>ctx_payload = SomePayload [4], ctx_expires = 50, ctx_updated = Some 5, ctx_created = 0\<rparr>"

definition sample_ctx_bytes :: "u8 list" where
  "sample_ctx_bytes = (case codec_ser sample_ctx_codec sample_ctx of Ok bs \<Rightarrow> bs | _ \<Rightarrow> [])"

definition sample_db1 :: sample_db where
  "sample_db1 cf = (if cf = GenericMap then [(key_bytes sample_key @ [3], sample_ctx_bytes)] else [])"

lemma deserialize_sample_ctx [simp]: "deserialize sample_ctx_codec sample_ctx_bytes = Ok sample_ctx"
  using sample_ctx_codec_reads_back [of sample_ctx]
  by (auto simp: sample_ctx_bytes_def codec_reads_back_def deserialize_def split: outcome.splits)

lemma sample_field_bytes [simp]: "field_bytes sample_rocks f = f"
  by (simp add: field_bytes_def serialize_def)

lemma sample_db1_ok: "db_ok sample_rocks sample_valid sample_contents sample_db1"
proof -
  have "key_form sample_rocks GenericMap (key_bytes sample_key @ [3])"
    using sample_key_fits by (auto simp: key_form_def)
  then show ?thesis
    by (auto simp: db_ok_def sample_rocks_documented sample_codecs_ok sample_valid_def stored_wf_def sample_contents_def
        sample_db1_def split: if_splits)
qed

theorem hscan_pages_complete_witness:
  "\<exists>records. scan_pages sample_rocks 20 MapColumn sample_db1 sample_key 10 (length records + 1) None = Some records
     \<and> with_field [3] \<lparr>rocks_value = [4], rocks_expiration = 50, rocks_version = 5\<rparr> \<in> set records"
proof -
  have "map_family (col_name MapColumn)"
    by (simp add: MapColumn_def)
  moreover have "hget sample_rocks (Ok ()) 20 MapColumn sample_db1 sample_key [3] =
      Ok (Some \<lparr>rocks_value = [4], rocks_expiration = 50, rocks_version = 5\<rparr>)"
    by (simp add: hget_store [OF sample_db1_ok] store_of_def ctx_at_def sample_contents_def sample_db1_def MapColumn_def
        visible_def record_of_def into_payload_def expired_def sample_ctx_def ctx_timestamp_def)
  ultimately show ?thesis
    using hscan_pages_complete [OF sample_db1_ok _ sample_key_fits, of MapColumn 20 10] by blast
qed

end
