(* ===== verification/Rocks_Migration.thy ===== *)
theory Rocks_Migration
  imports Rocks_Laws
begin

text \<open>
  Model of \<open>crates/rocks/src/db/migration.rs\<close>: the export of the records of a range of positions as a
  stream of frames, and the import of such a stream in batches. The lemmas show that an import of an
  export carries every record of the range over, with the merge rules of \<open>Rocks_Context\<close>.
\<close>

definition IMPORTER_BATCH_SIZE :: u64 where
  "IMPORTER_BATCH_SIZE = 1024"

record ExportFrame =
  xframe_cf :: ColumnFamilyName
  xframe_key :: "u8 list"
  xframe_value :: "u8 list"

datatype ExportItem = ExportFrameItem "(RocksError, ExportFrame) outcome" | ExportDone u64

text \<open>The texts of the errors, made by the formatting of the standard library.\<close>

record 'e import_texts =
  text_stream :: "'e \<Rightarrow> string"
  text_exporter :: "RocksError \<Rightarrow> string"
  text_done :: "u64 \<Rightarrow> u64 \<Rightarrow> string"

section \<open>Import\<close>

definition import_frame :: "'d rocks \<Rightarrow> UnixTimestampSecs \<Rightarrow> ExportFrame \<Rightarrow> (RocksError, ColumnFamilyName \<times> u8 list \<times> u8 list) outcome" where
  "import_frame R now frame =
     and_then (deserialize (ctx_codec R) (xframe_value frame)) (\<lambda>ctx.
     and_then (serialize (op_codec R) (op_from_ctx now ctx)) (\<lambda>value.
       Ok (xframe_cf frame, xframe_key frame, value)))"

text \<open>
  The loop of \<open>import_all\<close> with its counters and the batch, and the state of the database: what was
  written before an error stays written.
\<close>

fun import_loop ::
  "'d rocks \<Rightarrow> 'e import_texts \<Rightarrow> UnixTimestampSecs \<Rightarrow> ('e, ExportItem) outcome list \<Rightarrow> u64 \<Rightarrow> u64
   \<Rightarrow> (ColumnFamilyName \<times> u8 list \<times> u8 list) list \<Rightarrow> 'd \<Rightarrow> (RocksError, unit) outcome \<times> 'd" where
  "import_loop R T now [] processed items batch d = (Err (Other ''Corrupted data stream: `Done` frame missing''), d)"
| "import_loop R T now (Err e # data) processed items batch d = (Err (Other (''Data stream errored: '' @ text_stream T e)), d)"
| "import_loop R T now (Panic # data) processed items batch d = (Panic, d)"
| "import_loop R T now (Ok (ExportDone n) # data) processed items batch d =
     (if n \<noteq> processed then (Err (Other (text_done T n processed)), d)
      else case backend_write_batch R batch d of Ok d' \<Rightarrow> (Ok (), d') | Err e \<Rightarrow> (Err e, d) | Panic \<Rightarrow> (Panic, d))"
| "import_loop R T now (Ok (ExportFrameItem (Err e)) # data) processed items batch d =
     (Err (Other (''Exporter errored: '' @ text_exporter T e)), d)"
| "import_loop R T now (Ok (ExportFrameItem Panic) # data) processed items batch d = (Panic, d)"
| "import_loop R T now (Ok (ExportFrameItem (Ok frame)) # data) processed items batch d =
     (case import_frame R now frame of
        Err e \<Rightarrow> (Err e, d)
      | Panic \<Rightarrow> (Panic, d)
      | Ok entry \<Rightarrow>
          if items + 1 \<ge> IMPORTER_BATCH_SIZE
          then (case backend_write_batch R (batch @ [entry]) d of
                  Ok d' \<Rightarrow> import_loop R T now data (processed + 1) 0 [] d'
                | Err e \<Rightarrow> (Err e, d)
                | Panic \<Rightarrow> (Panic, d))
          else import_loop R T now data (processed + 1) (items + 1) (batch @ [entry]) d)"

definition import_all ::
  "'d rocks \<Rightarrow> 'e import_texts \<Rightarrow> UnixTimestampSecs \<Rightarrow> ('e, ExportItem) outcome list \<Rightarrow> 'd \<Rightarrow> (RocksError, unit) outcome \<times> 'd" where
  "import_all R T now data d = import_loop R T now data 0 0 [] d"

section \<open>Export\<close>

definition scan_by_position ::
  "'d rocks \<Rightarrow> Column \<Rightarrow> 'd \<Rightarrow> u64 option \<Rightarrow> u64 option \<Rightarrow> (native_error, kv) outcome list" where
  "scan_by_position R C d left right =
     rdb_iter_range R d (col_name C) (map_option (to_be_bytes 8) left) (map_option (to_be_bytes 8) right)"

definition checked_succ :: "u64 \<Rightarrow> u64 option" where
  "checked_succ n = (if n = - 1 then None else Some (n + 1))"

text \<open>\<open>DbIterator\<close>.\<close>

definition db_iterator :: "ColumnFamilyName \<Rightarrow> (native_error, kv) outcome list \<Rightarrow> (RocksError, ExportFrame) outcome list" where
  "db_iterator cf iter =
     map (\<lambda>res. and_then (map_err from_native res) (\<lambda>(key, value). Ok \<lparr>xframe_cf = cf, xframe_key = key, xframe_value = value\<rparr>)) iter"

definition export :: "'d rocks \<Rightarrow> 'd \<Rightarrow> u64 \<times> u64 \<Rightarrow> ExportItem list" where
  "export R d positions =
     (let start = Some (fst positions); end' = checked_succ (snd positions);
          string_iter = db_iterator (col_name StringColumn) (scan_by_position R StringColumn d start end');
          map_iter = db_iterator (col_name MapColumn) (scan_by_position R MapColumn d start end') in
      map ExportFrameItem (string_iter @ map_iter) @ [ExportDone (of_nat (length string_iter + length map_iter))])"

section \<open>What an import writes\<close>

definition frame_op :: "'d rocks \<Rightarrow> UnixTimestampSecs \<Rightarrow> ExportFrame \<Rightarrow> ColumnFamilyName \<times> u8 list \<times> u8 list MergeOp" where
  "frame_op R now frame =
     (xframe_cf frame, xframe_key frame,
      op_from_ctx now (case deserialize (ctx_codec R) (xframe_value frame) of Ok ctx \<Rightarrow> ctx | _ \<Rightarrow> ctx_default))"

definition good_frame :: "'d rocks \<Rightarrow> ExportFrame \<Rightarrow> bool" where
  "good_frame R frame \<longleftrightarrow>
     key_form R (xframe_cf frame) (xframe_key frame) \<and> (\<exists>ctx. deserialize (ctx_codec R) (xframe_value frame) = Ok ctx)"

lemma store_write_append: "store_write (xs @ ys) s = store_write ys (store_write xs s)"
  by (induction xs s rule: store_write.induct) (simp_all del: fun_upd_apply)

lemma store_write_Cons: "store_write (x # xs) s = store_write xs (store_write [x] s)"
  by (cases x) simp

lemma import_frame_ok:
  assumes "codecs_ok R" and "good_frame R frame"
  obtains v where "import_frame R now frame = Ok (xframe_cf frame, xframe_key frame, v)"
    and "batch_of R [frame_op R now frame] [(xframe_cf frame, xframe_key frame, v)]"
proof -
  obtain ctx where ctx: "deserialize (ctx_codec R) (xframe_value frame) = Ok ctx"
    using assms(2) by (auto simp: good_frame_def)
  obtain v where "serialize (op_codec R) (op_from_ctx now ctx) = Ok v"
    using codec_okE [OF codecs_okD(1) [OF assms(1)]] by blast
  with ctx that show ?thesis
    by (auto simp: import_frame_def frame_op_def batch_of_def)
qed

lemma import_loop_frames:
  assumes "\<forall>frame \<in> set frames. good_frame R frame" and "db_ok R valid contents d"
    and "batch_of R ops batch" and "\<forall>(cf, k, op) \<in> set ops. key_form R cf k"
    and "n = processed + of_nat (length frames)"
  shows "\<exists>d'. import_loop R T now (map (\<lambda>f. Ok (ExportFrameItem (Ok f))) frames @ [Ok (ExportDone n)]) processed items batch d = (Ok (), d')
           \<and> db_ok R valid contents d'
           \<and> store_of R (contents d') = store_write (ops @ map (frame_op R now) frames) (store_of R (contents d))"
  using assms
proof (induction frames arbitrary: processed items batch ops d)
  case Nil
  then show ?case
    using write_batch_store [OF Nil.prems(2-4)] by auto
next
  case (Cons frame frames)
  have cod: "codecs_ok R" and good: "good_frame R frame"
    using db_okD(1) [OF Cons.prems(2)] Cons.prems(1) by auto
  obtain v where v: "import_frame R now frame = Ok (xframe_cf frame, xframe_key frame, v)"
    and one: "batch_of R [frame_op R now frame] [(xframe_cf frame, xframe_key frame, v)]"
    using import_frame_ok [OF cod good] by blast
  let ?batch = "batch @ [(xframe_cf frame, xframe_key frame, v)]" and ?ops = "ops @ [frame_op R now frame]"
  have batch: "batch_of R ?ops ?batch"
    using Cons.prems(3) one unfolding batch_of_def by (rule list_all2_appendI)
  have form: "\<forall>(cf, k, op) \<in> set ?ops. key_form R cf k"
    using Cons.prems(4) good by (auto simp: good_frame_def frame_op_def)
  have n: "n = (processed + 1) + of_nat (length frames)"
    using Cons.prems(5) by simp
  have rest: "\<forall>frame \<in> set frames. good_frame R frame"
    using Cons.prems(1) by simp
  show ?case
  proof (cases "items + 1 \<ge> IMPORTER_BATCH_SIZE")
    case False
    from Cons.IH [OF rest Cons.prems(2) batch form n, of "items + 1"] False v show ?thesis by simp
  next
    case True
    from write_batch_store [OF Cons.prems(2) batch form]
    obtain d1 where d1: "backend_write_batch R ?batch d = Ok d1" "db_ok R valid contents d1"
      "store_of R (contents d1) = store_write ?ops (store_of R (contents d))"
      by blast
    have "batch_of R [] []" "\<forall>(cf, k, op) \<in> set []. key_form R cf k"
      by (simp_all add: batch_of_def)
    from Cons.IH [OF rest d1(2) this n, of 0] True v d1(1,3) show ?thesis
      by (auto simp: store_write_append store_write_Cons [of "frame_op R now frame" "map (frame_op R now) frames"])
  qed
qed

section \<open>Positions\<close>

definition raw_position :: "u8 list \<Rightarrow> u64" where
  "raw_position k = from_be_bytes (take 8 k)"

lemma bytes_less_position: "8 \<le> length k \<Longrightarrow> bytes_less k (to_be_bytes 8 pos) \<longleftrightarrow> raw_position k < (pos :: u64)"
  using bytes_less_to_be_bytes [of 8 "raw_position k" "drop 8 k" pos] by (simp add: raw_position_def)

lemma key_form_length: "key_form R cf k \<Longrightarrow> 8 \<le> length k"
  by (auto simp: key_form_def length_key_bytes split: if_splits)

lemma in_positions:
  assumes "8 \<le> length k"
  shows "(\<not> bytes_less k (to_be_bytes 8 lo)
          \<and> (case map_option (to_be_bytes 8) (checked_succ hi) of Some r \<Rightarrow> bytes_less k r | None \<Rightarrow> True))
       \<longleftrightarrow> lo \<le> raw_position k \<and> raw_position k \<le> hi"
proof -
  have "raw_position k < hi + 1 \<longleftrightarrow> raw_position k \<le> hi" if "hi \<noteq> - 1"
  proof -
    have "unat (1 + hi) = Suc (unat hi)"
      using that by (intro unatSuc) (simp add: eq_neg_iff_add_eq_0 add.commute)
    then show ?thesis
      by (simp add: word_less_nat_alt word_le_nat_alt add.commute less_Suc_eq_le)
  qed
  moreover have "raw_position k \<le> - 1"
    by simp
  ultimately show ?thesis
    using assms by (auto simp: checked_succ_def bytes_less_position)
qed

section \<open>Export followed by import\<close>

lemma store_write_other: "(cf, k) \<notin> (\<lambda>(cf, k, op). (cf, k)) ` set ops \<Longrightarrow> store_write ops s cf k = s cf k"
  by (induction ops s rule: store_write.induct) auto

lemma store_write_distinct:
  "distinct (map (\<lambda>(cf, k, op). (cf, k)) ops) \<Longrightarrow> (cf, k, op) \<in> set ops
   \<Longrightarrow> store_write ops s cf k = Some (merge_ctx (ctx_or_default (s cf k)) op)"
proof (induction ops s rule: store_write.induct)
  case (1 s)
  then show ?case by simp
next
  case (2 cf' k' op' ops s)
  show ?case
  proof (cases "(cf, k, op) = (cf', k', op')")
    case True
    with 2(2) have "(cf, k) \<notin> (\<lambda>(cf, k, op). (cf, k)) ` set ops" by auto
    with True show ?thesis by (simp add: store_write_other)
  next
    case False
    with 2(2,3) have mem: "(cf, k, op) \<in> set ops" and ne: "\<not> (cf = cf' \<and> k = k')" by force+
    let ?s = "s(cf' := (s cf')(k' \<mapsto> merge_ctx (ctx_or_default (s cf' k')) op'))"
    have same: "?s cf k = s cf k"
      using ne by auto
    have "store_write ops ?s cf k = Some (merge_ctx (ctx_or_default (?s cf k)) op)"
      using 2(2) mem by (intro 2(1)) auto
    then show ?thesis
      unfolding same by (simp del: fun_upd_apply)
  qed
qed

text \<open>The frames of one column family.\<close>

definition range_frames :: "'d rocks \<Rightarrow> Column \<Rightarrow> 'd \<Rightarrow> u64 \<times> u64 \<Rightarrow> ExportFrame list" where
  "range_frames R C d positions =
     List.map_filter (\<lambda>r. case r of Ok (k, v) \<Rightarrow> Some \<lparr>xframe_cf = col_name C, xframe_key = k, xframe_value = v\<rparr> | _ \<Rightarrow> None)
       (scan_by_position R C d (Some (fst positions)) (checked_succ (snd positions)))"

lemma rocks_range_law:
  assumes "db_ok R valid contents d"
  shows "yields (rdb_iter_range R d cf left right) (contents d cf)
    (\<lambda>k. (case left of Some l \<Rightarrow> \<not> bytes_less k l | None \<Rightarrow> True) \<and> (case right of Some r \<Rightarrow> bytes_less k r | None \<Rightarrow> True))"
  using assms unfolding db_ok_def rocks_documented_def by blast

lemma range_frames_iter:
  assumes "db_ok R valid contents d"
  shows "db_iterator (col_name C) (scan_by_position R C d (Some lo) (checked_succ hi)) = map Ok (range_frames R C d (lo, hi))"
    and "distinct (map xframe_key (range_frames R C d (lo, hi)))"
    and "set (range_frames R C d (lo, hi)) =
      {\<lparr>xframe_cf = col_name C, xframe_key = k, xframe_value = v\<rparr> | k v.
         contents d (col_name C) k = Some v \<and> lo \<le> raw_position k \<and> raw_position k \<le> hi}"
proof -
  let ?iter = "scan_by_position R C d (Some lo) (checked_succ hi)" and ?m = "contents d (col_name C)"
  have law: "yields ?iter ?m (\<lambda>k. \<not> bytes_less k (to_be_bytes 8 lo)
      \<and> (case map_option (to_be_bytes 8) (checked_succ hi) of Some r \<Rightarrow> bytes_less k r | None \<Rightarrow> True))"
    using rocks_range_law [OF assms, of "col_name C" "Some (to_be_bytes 8 lo)" "map_option (to_be_bytes 8) (checked_succ hi)"]
    by (simp add: scan_by_position_def)
  have pos: "(?m k = Some v \<and> \<not> bytes_less k (to_be_bytes 8 lo)
      \<and> (case map_option (to_be_bytes 8) (checked_succ hi) of Some r \<Rightarrow> bytes_less k r | None \<Rightarrow> True))
    = (?m k = Some v \<and> lo \<le> raw_position k \<and> raw_position k \<le> hi)" for k v
  proof (cases "?m k = Some v")
    case True
    then have "key_form R (col_name C) k"
      using db_okD(2) [OF assms] by (auto simp: stored_wf_def)
    from in_positions [OF key_form_length [OF this]] show ?thesis by (rule conj_cong [OF refl])
  qed simp
  obtain kvs where kvs: "?iter = map Ok kvs" "sorted_wrt bytes_less (map fst kvs)"
      "set kvs = {(k, v). ?m k = Some v \<and> lo \<le> raw_position k \<and> raw_position k \<le> hi}"
    using law unfolding yields_def pos by blast
  have frames: "range_frames R C d (lo, hi) = map (\<lambda>(k, v). \<lparr>xframe_cf = col_name C, xframe_key = k, xframe_value = v\<rparr>) kvs"
    by (simp add: range_frames_def kvs(1) List.map_filter_def comp_def case_prod_beta)
  show "db_iterator (col_name C) ?iter = map Ok (range_frames R C d (lo, hi))"
    by (simp add: db_iterator_def kvs(1) frames case_prod_beta)
  show "distinct (map xframe_key (range_frames R C d (lo, hi)))"
    using sorted_keys_distinct [OF kvs(2)] by (simp add: frames comp_def case_prod_beta)
  show "set (range_frames R C d (lo, hi)) =
      {\<lparr>xframe_cf = col_name C, xframe_key = k, xframe_value = v\<rparr> | k v.
         ?m k = Some v \<and> lo \<le> raw_position k \<and> raw_position k \<le> hi}"
    by (auto simp: frames kvs(3))
qed

definition all_frames :: "'d rocks \<Rightarrow> 'd \<Rightarrow> u64 \<times> u64 \<Rightarrow> ExportFrame list" where
  "all_frames R d positions = range_frames R StringColumn d positions @ range_frames R MapColumn d positions"

lemma column_names [simp]: "col_name StringColumn = GenericString" "col_name MapColumn = GenericMap"
  by (simp_all add: StringColumn_def MapColumn_def)

lemma export_frames:
  assumes "db_ok R valid contents d"
  shows "export R d (lo, hi) =
    map (\<lambda>f. ExportFrameItem (Ok f)) (all_frames R d (lo, hi)) @ [ExportDone (of_nat (length (all_frames R d (lo, hi))))]"
  using range_frames_iter(1) [OF assms, of StringColumn lo hi] range_frames_iter(1) [OF assms, of MapColumn lo hi]
  by (simp add: export_def all_frames_def)

lemma all_frames_good:
  assumes "db_ok R valid contents d"
  shows "\<forall>frame \<in> set (all_frames R d (lo, hi)). good_frame R frame"
  using db_okD(2) [OF assms]
  by (auto simp: all_frames_def range_frames_iter(3) [OF assms] good_frame_def stored_wf_def)

lemma all_frames_distinct:
  assumes "db_ok R valid contents d"
  shows "distinct (map (\<lambda>(cf, k, op). (cf, k)) (map (frame_op R now) (all_frames R d (lo, hi))))"
proof -
  have "distinct (map (\<lambda>f. (xframe_cf f, xframe_key f)) (range_frames R C d (lo, hi)))" for C
    using range_frames_iter(2) [OF assms, of C lo hi] by (auto simp: distinct_map inj_on_def)
  moreover have "xframe_cf f = col_name C" if "f \<in> set (range_frames R C d (lo, hi))" for f C
    using that range_frames_iter(3) [OF assms, of C lo hi] by auto
  ultimately show ?thesis
    by (fastforce simp: all_frames_def comp_def frame_op_def)
qed

lemma set_all_frames:
  assumes "db_ok R valid contents d"
  shows "f \<in> set (all_frames R d (lo, hi)) \<longleftrightarrow>
    xframe_cf f \<in> {GenericString, GenericMap} \<and> contents d (xframe_cf f) (xframe_key f) = Some (xframe_value f)
    \<and> lo \<le> raw_position (xframe_key f) \<and> raw_position (xframe_key f) \<le> hi"
  by (cases f) (auto simp: all_frames_def range_frames_iter(3) [OF assms])

lemma set_frame_ops:
  assumes "db_ok R valid contents d"
  shows "(cf, k, op) \<in> set (map (frame_op R now) (all_frames R d (lo, hi))) \<longleftrightarrow>
    (\<exists>ctx. store_of R (contents d) cf k = Some ctx \<and> cf \<in> {GenericString, GenericMap}
         \<and> lo \<le> raw_position k \<and> raw_position k \<le> hi \<and> op = op_from_ctx now ctx)" (is "?l \<longleftrightarrow> ?r")
proof
  assume ?l
  then obtain f where f: "f \<in> set (all_frames R d (lo, hi))" "frame_op R now f = (cf, k, op)"
    by auto
  then have keys: "xframe_cf f = cf" "xframe_key f = k"
    by (simp_all add: frame_op_def)
  have some: "contents d cf k = Some (xframe_value f)"
    using f(1) unfolding set_all_frames [OF assms] keys by blast
  note decoded = stored_decodes [OF db_okD(2) [OF assms] some]
  from decoded f(2) have "op = op_from_ctx now (the (store_of R (contents d) cf k))"
    by (simp add: frame_op_def store_of_def)
  with decoded(2) f(1) show ?r
    unfolding set_all_frames [OF assms] keys by (auto simp: store_of_def)
next
  assume ?r
  then obtain ctx where ctx: "store_of R (contents d) cf k = Some ctx" "op = op_from_ctx now ctx"
    and sel: "cf \<in> {GenericString, GenericMap}" "lo \<le> raw_position k" "raw_position k \<le> hi"
    by blast
  then obtain v where v: "contents d cf k = Some v" "deserialize (ctx_codec R) v = Ok ctx"
    by (auto simp: store_of_def ctx_at_def split: option.splits outcome.splits)
  let ?f = "\<lparr>xframe_cf = cf, xframe_key = k, xframe_value = v\<rparr>"
  have "?f \<in> set (all_frames R d (lo, hi))"
    using v(1) sel by (simp add: set_all_frames [OF assms])
  moreover have "frame_op R now ?f = (cf, k, op)"
    using v(2) ctx(2) by (simp add: frame_op_def)
  ultimately show ?l
    by (metis image_eqI set_map)
qed

text \<open>The store of the receiver after the records of a range were merged into it.\<close>

definition imported :: "UnixTimestampSecs \<Rightarrow> u64 \<times> u64 \<Rightarrow> store \<Rightarrow> store \<Rightarrow> store" where
  "imported now positions src dst cf k =
     (case src cf k of
        Some ctx \<Rightarrow>
          if cf \<in> {GenericString, GenericMap} \<and> fst positions \<le> raw_position k \<and> raw_position k \<le> snd positions
          then Some (merge_ctx (ctx_or_default (dst cf k)) (op_from_ctx now ctx))
          else dst cf k
      | None \<Rightarrow> dst cf k)"

lemma store_write_frames:
  assumes "db_ok R valid contents d"
  shows "store_write (map (frame_op R now) (all_frames R d (lo, hi))) s = imported now (lo, hi) (store_of R (contents d)) s"
proof (intro ext)
  fix cf k
  let ?ops = "map (frame_op R now) (all_frames R d (lo, hi))"
  show "store_write ?ops s cf k = imported now (lo, hi) (store_of R (contents d)) s cf k"
  proof (cases "\<exists>op. (cf, k, op) \<in> set ?ops")
    case True
    then obtain op where op: "(cf, k, op) \<in> set ?ops" by blast
    then obtain ctx where "store_of R (contents d) cf k = Some ctx" "cf \<in> {GenericString, GenericMap}"
        "lo \<le> raw_position k" "raw_position k \<le> hi" "op = op_from_ctx now ctx"
      unfolding set_frame_ops [OF assms] by blast
    then show ?thesis
      using store_write_distinct [OF all_frames_distinct [OF assms] op] by (simp add: imported_def)
  next
    case False
    then have "(cf, k) \<notin> (\<lambda>(cf, k, op). (cf, k)) ` set ?ops" by force
    moreover have "imported now (lo, hi) (store_of R (contents d)) s cf k = s cf k"
      using False unfolding set_frame_ops [OF assms] by (auto simp: imported_def split: option.splits)
    ultimately show ?thesis by (simp add: store_write_other)
  qed
qed

text \<open>
  A range of positions that is exported from one database and imported into another is carried over
  completely. The import succeeds; every record of the two columns whose position lies in the range is
  merged, with the version and expiration it was exported with, into what the receiver had, and
  nothing else changes.
\<close>

lemma import_of_export:
  assumes "db_ok R valid contents src" and "db_ok R valid contents dst"
  shows "\<exists>d'. import_all R T now (map Ok (export R src positions)) dst = (Ok (), d') \<and> db_ok R valid contents d'
    \<and> store_of R (contents d') = imported now positions (store_of R (contents src)) (store_of R (contents dst))"
proof -
  obtain lo hi where positions: "positions = (lo, hi)" by (cases positions) auto
  let ?frames = "all_frames R src (lo, hi)"
  have "\<exists>d'. import_loop R T now (map (\<lambda>f. Ok (ExportFrameItem (Ok f))) ?frames @ [Ok (ExportDone (of_nat (length ?frames)))]) 0 0 [] dst = (Ok (), d')
      \<and> db_ok R valid contents d'
      \<and> store_of R (contents d') = store_write ([] @ map (frame_op R now) ?frames) (store_of R (contents dst))"
    by (rule import_loop_frames [OF all_frames_good [OF assms(1)] assms(2)]) (simp_all add: batch_of_def)
  then show ?thesis
    by (simp add: positions import_all_def export_frames [OF assms(1)] comp_def store_write_frames [OF assms(1)])
qed

text \<open>
  What that means for a reader: a visible record of the range, at least as new as what the receiver
  had, is read from the receiver with its value, expiration and version.
\<close>

lemma imported_visible:
  assumes "src cf k = Some ctx" and "cf \<in> {GenericString, GenericMap}"
    and "fst positions \<le> raw_position k" and "raw_position k \<le> snd positions"
    and "ctx_timestamp (ctx_or_default (dst cf k)) < ctx_timestamp ctx" and "ctx_payload ctx \<noteq> NoPayload"
  shows "visible now' (imported now positions src dst cf k) = visible now' (Some ctx)"
proof -
  have "record_of now' (merge_ctx (ctx_or_default (dst cf k)) (op_from_ctx now ctx)) = record_of now' ctx"
    using assms(5,6)
    by (cases "ctx_payload ctx")
      (auto simp: record_of_def op_from_ctx_def merge_ctx_def into_payload_def expired_def op_set_def merge_op_new_def ctx_timestamp_def)
  then show ?thesis
    using assms(1-4) by (simp add: imported_def visible_def)
qed

text \<open>Texts of errors, as an instance of the parameter.\<close>

definition sample_texts :: "'e import_texts" where
  "sample_texts = \<lparr>text_stream = (\<lambda>_. ''closed''), text_exporter = (\<lambda>_. ''failed''), text_done = (\<lambda>_ _. ''count'')\<rparr>"

end
