(* ===== verification/Database_Server.thy ===== *)
theory Database_Server
  imports Rocks_Migration
begin

text \<open>
  Model of \<open>crates/db/src/server.rs\<close>: the database process answers storage operations from the two
  columns of the storage engine, and reads and writes ranges of positions for data transfers. The
  lemmas show that it implements a last-writer-wins store with answers of the type of the operation.
  The hash function, RocksDB, \<open>postcard\<close> and the printing of errors are parameters.
\<close>

definition MAX_HSCAN_COUNT :: u32 where
  "MAX_HSCAN_COUNT = 5000"

definition map_record :: "RocksRecord \<Rightarrow> Record" where
  "map_record rec =
     \<lparr>record_value = rocks_value rec, record_expiration = \<lparr>unix_timestamp_secs = rocks_expiration rec\<rparr>,
      record_version = \<lparr>unix_timestamp_micros = rocks_version rec\<rparr>\<rparr>"

fun map_expiration :: "(RocksError, UnixTimestampSecs) outcome \<Rightarrow> (RocksError, RecordExpiration option) outcome" where
  "map_expiration (Ok timestamp) = Ok (Some \<lparr>unix_timestamp_secs = timestamp\<rparr>)"
| "map_expiration (Err EntryNotFound) = Ok None"
| "map_expiration (Err err) = Err err"
| "map_expiration Panic = Panic"

definition map_entry_of :: "MapRecord \<Rightarrow> MapEntry" where
  "map_entry_of rec =
     \<lparr>entry_field = mrec_field rec,
      entry_record = \<lparr>record_value = mrec_value rec, record_expiration = \<lparr>unix_timestamp_secs = mrec_expiration rec\<rparr>,
                      record_version = \<lparr>unix_timestamp_micros = mrec_version rec\<rparr>\<rparr>\<rparr>"

definition map_page_of :: "ScanResult \<Rightarrow> MapPage" where
  "map_page_of res = \<lparr>page_entries = map map_entry_of (scan_items res), page_has_next = scan_has_next res\<rparr>"

text \<open>A write changes the database when it succeeds and answers \<open>Output::None\<close>; a read leaves it.\<close>

definition write_result :: "(RocksError, 'd) outcome \<Rightarrow> 'd \<Rightarrow> (RocksError, Output) outcome \<times> 'd" where
  "write_result res d = (case res of Ok d' \<Rightarrow> (Ok OutNone, d') | Err e \<Rightarrow> (Err e, d) | Panic \<Rightarrow> (Panic, d))"

definition read_result :: "('a \<Rightarrow> Output) \<Rightarrow> (RocksError, 'a) outcome \<Rightarrow> 'd \<Rightarrow> (RocksError, Output) outcome \<times> 'd" where
  "read_result f res d = (and_then res (\<lambda>x. Ok (f x)), d)"

text \<open>The clock in seconds, and the fate of a request in the queues of the reader.\<close>

record db_env =
  env_now :: UnixTimestampSecs
  env_sent :: "(RocksError, unit) outcome"
  env_xxh3 :: "u8 list \<Rightarrow> u64"

fun server_result :: "'d rocks \<Rightarrow> db_env \<Rightarrow> Owned \<Rightarrow> 'd \<Rightarrow> (RocksError, Output) outcome \<times> 'd" where
  "server_result R env (OpGet op) d =
     read_result (\<lambda>res. OutRecord (map_option map_record res))
       (string_get R (env_sent env) (env_now env) StringColumn d (db_key (env_xxh3 env) (get_namespace op) (get_key op))) d"
| "server_result R env (OpSet op) d =
     write_result (string_set R StringColumn (db_key (env_xxh3 env) (set_namespace op) (set_key op)) (record_value (set_record op))
       (unix_timestamp_secs (record_expiration (set_record op))) (unix_timestamp_micros (record_version (set_record op))) d) d"
| "server_result R env (OpDel op) d =
     write_result (string_del R (env_now env) StringColumn (db_key (env_xxh3 env) (del_namespace op) (del_key op))
       (unix_timestamp_micros (del_version op)) d) d"
| "server_result R env (OpGetExp op) d =
     read_result OutExpiration (map_expiration
       (string_get_exp R (env_sent env) (env_now env) StringColumn d (db_key (env_xxh3 env) (getexp_namespace op) (getexp_key op)))) d"
| "server_result R env (OpSetExp op) d =
     write_result (string_set_exp R StringColumn (db_key (env_xxh3 env) (setexp_namespace op) (setexp_key op))
       (unix_timestamp_secs (setexp_expiration op)) (unix_timestamp_micros (setexp_version op)) d) d"
| "server_result R env (OpHGet op) d =
     read_result (\<lambda>res. OutRecord (map_option map_record res))
       (hget R (env_sent env) (env_now env) MapColumn d (db_key (env_xxh3 env) (hget_namespace op) (hget_key op)) (hget_field op)) d"
| "server_result R env (OpHSet op) d =
     (let entry = hset_entry op; record = entry_record entry in
      write_result (hset R MapColumn (db_key (env_xxh3 env) (hset_namespace op) (hset_key op))
        \<lparr>pair_field = entry_field entry, pair_value = record_value record\<rparr>
        (unix_timestamp_secs (record_expiration record)) (unix_timestamp_micros (record_version record)) d) d)"
| "server_result R env (OpHDel op) d =
     write_result (hdel R (env_now env) MapColumn (db_key (env_xxh3 env) (hdel_namespace op) (hdel_key op)) (hdel_field op)
       (unix_timestamp_micros (hdel_version op)) d) d"
| "server_result R env (OpHGetExp op) d =
     read_result OutExpiration (map_expiration
       (hget_exp R (env_sent env) (env_now env) MapColumn d (db_key (env_xxh3 env) (hgetexp_namespace op) (hgetexp_key op))
         (hgetexp_field op))) d"
| "server_result R env (OpHSetExp op) d =
     write_result (hset_exp R MapColumn (db_key (env_xxh3 env) (hsetexp_namespace op) (hsetexp_key op)) (hsetexp_field op)
       (unix_timestamp_secs (hsetexp_expiration op)) (unix_timestamp_micros (hsetexp_version op)) d) d"
| "server_result R env (OpHCard op) d =
     read_result (\<lambda>card. OutCardinality (of_nat card))
       (hcard R (env_sent env) (env_now env) MapColumn d (db_key (env_xxh3 env) (hcard_namespace op) (hcard_key op))) d"
| "server_result R env (OpHScan op) d =
     read_result (\<lambda>res. OutMapPage (map_page_of res))
       (hscan R (env_sent env) (env_now env) MapColumn d (db_key (env_xxh3 env) (hscan_namespace op) (hscan_key op))
         \<lparr>scan_count = unat (hscan_count op), scan_cursor = hscan_cursor op\<rparr>) d"

fun scan_too_large :: "Owned \<Rightarrow> bool" where
  "scan_too_large (OpHScan op) = (hscan_count op > MAX_HSCAN_COUNT)"
| "scan_too_large _ = False"

definition server_execute ::
  "'d rocks \<Rightarrow> (RocksError \<Rightarrow> string) \<Rightarrow> db_env \<Rightarrow> Operation \<Rightarrow> 'd \<Rightarrow> (StorageError, Output) outcome \<times> 'd" where
  "server_execute R show_err env op d =
     (let op = operation_into_owned op in
      if scan_too_large op then (Err error_invalid_argument, d)
      else let (res, d') = server_result R env op d in
           (map_err (\<lambda>err. with_message (show_err err) (Error_new Internal)) res, d'))"

section \<open>Data transfer\<close>

definition data_frame :: "(RocksError \<Rightarrow> string) \<Rightarrow> (RocksError, ExportFrame) outcome \<Rightarrow> (StorageError, DataFrame) outcome" where
  "data_frame show_err res =
     and_then (map_err (\<lambda>err. with_message (show_err err) error_internal) res) (\<lambda>frame.
       case xframe_cf frame of
         GenericString \<Rightarrow> Ok \<lparr>frame_data_type = Kv, frame_key = xframe_key frame, frame_value = xframe_value frame\<rparr>
       | GenericMap \<Rightarrow> Ok \<lparr>frame_data_type = Map, frame_key = xframe_key frame, frame_value = xframe_value frame\<rparr>
       | _ \<Rightarrow> Err error_internal)"

fun export_item :: "DataItem \<Rightarrow> ExportItem" where
  "export_item (Frame frame) =
     ExportFrameItem (Ok \<lparr>xframe_cf = (case frame_data_type frame of Kv \<Rightarrow> GenericString | Map \<Rightarrow> GenericMap),
                          xframe_key = frame_key frame, xframe_value = frame_value frame\<rparr>)"
| "export_item (Done n) = ExportDone n"

fun data_item :: "(RocksError \<Rightarrow> string) \<Rightarrow> ExportItem \<Rightarrow> (StorageError, DataItem) outcome" where
  "data_item show_err (ExportFrameItem res) = and_then (data_frame show_err res) (\<lambda>f. Ok (Frame f))"
| "data_item show_err (ExportDone n) = Ok (Done n)"

definition server_read_data ::
  "'d rocks \<Rightarrow> (RocksError \<Rightarrow> string) \<Rightarrow> u64 \<times> u64 \<Rightarrow> 'd \<Rightarrow> (StorageError, DataItem) outcome list" where
  "server_read_data R show_err keyrange d = map (data_item show_err) (export R d keyrange)"

definition server_write_data ::
  "'d rocks \<Rightarrow> (RocksError \<Rightarrow> string) \<Rightarrow> StorageError import_texts \<Rightarrow> UnixTimestampSecs \<Rightarrow> (StorageError, DataItem) outcome list \<Rightarrow> 'd
   \<Rightarrow> (StorageError, unit) outcome \<times> 'd" where
  "server_write_data R show_err T now stream d =
     (let (res, d') = import_all R T now (map (\<lambda>r. and_then r (\<lambda>i. Ok (export_item i))) stream) d in
      (map_err (\<lambda>err. with_message (show_err err) error_internal) res, d'))"

section \<open>The store behind the server\<close>

text \<open>The database key of an operation.\<close>

definition op_key :: "db_env \<Rightarrow> Owned \<Rightarrow> GenericKey" where
  "op_key env op = db_key (env_xxh3 env) (owned_namespace op) (owned_key op)"

text \<open>What an operation merges into the store.\<close>

fun store_ops :: "'d rocks \<Rightarrow> db_env \<Rightarrow> Owned \<Rightarrow> (ColumnFamilyName \<times> u8 list \<times> u8 list MergeOp) list" where
  "store_ops R env (OpSet op) =
     [(GenericString, key_bytes (op_key env (OpSet op)),
       op_set (record_value (set_record op)) (unix_timestamp_secs (record_expiration (set_record op)))
         (unix_timestamp_micros (record_version (set_record op))))]"
| "store_ops R env (OpDel op) =
     [(GenericString, key_bytes (op_key env (OpDel op)), op_del (env_now env) (unix_timestamp_micros (del_version op)))]"
| "store_ops R env (OpSetExp op) =
     [(GenericString, key_bytes (op_key env (OpSetExp op)),
       op_set_exp (unix_timestamp_secs (setexp_expiration op)) (unix_timestamp_micros (setexp_version op)))]"
| "store_ops R env (OpHSet op) =
     [(GenericMap, key_bytes (op_key env (OpHSet op)) @ field_bytes R (entry_field (hset_entry op)),
       op_set (record_value (entry_record (hset_entry op)))
         (unix_timestamp_secs (record_expiration (entry_record (hset_entry op))))
         (unix_timestamp_micros (record_version (entry_record (hset_entry op)))))]"
| "store_ops R env (OpHDel op) =
     [(GenericMap, key_bytes (op_key env (OpHDel op)) @ field_bytes R (hdel_field op),
       op_del (env_now env) (unix_timestamp_micros (hdel_version op)))]"
| "store_ops R env (OpHSetExp op) =
     [(GenericMap, key_bytes (op_key env (OpHSetExp op)) @ field_bytes R (hsetexp_field op),
       op_set_exp (unix_timestamp_secs (hsetexp_expiration op)) (unix_timestamp_micros (hsetexp_version op)))]"
| "store_ops R env _ = []"

text \<open>What an operation answers, from the store and the listing of the visible fields of a map.\<close>

definition after_cursor :: "'d rocks \<Rightarrow> u8 list option \<Rightarrow> MapRecord list \<Rightarrow> MapRecord list" where
  "after_cursor R cursor xs = (case cursor of None \<Rightarrow> xs | Some c \<Rightarrow> filter (\<lambda>r. field_less R c (mrec_field r)) xs)"

definition visible_expiration :: "UnixTimestampSecs \<Rightarrow> u8 list DataContext option \<Rightarrow> RecordExpiration option" where
  "visible_expiration now x = map_option (\<lambda>r. \<lparr>unix_timestamp_secs = rocks_expiration r\<rparr>) (visible now x)"

fun store_output :: "'d rocks \<Rightarrow> db_env \<Rightarrow> store \<Rightarrow> (GenericKey \<Rightarrow> MapRecord list) \<Rightarrow> Owned \<Rightarrow> Output" where
  "store_output R env s listing (OpGet op) =
     OutRecord (map_option map_record (visible (env_now env) (s GenericString (key_bytes (op_key env (OpGet op))))))"
| "store_output R env s listing (OpHGet op) =
     OutRecord (map_option map_record
       (visible (env_now env) (s GenericMap (key_bytes (op_key env (OpHGet op)) @ field_bytes R (hget_field op)))))"
| "store_output R env s listing (OpGetExp op) =
     OutExpiration (visible_expiration (env_now env) (s GenericString (key_bytes (op_key env (OpGetExp op)))))"
| "store_output R env s listing (OpHGetExp op) =
     OutExpiration (visible_expiration (env_now env)
       (s GenericMap (key_bytes (op_key env (OpHGetExp op)) @ field_bytes R (hgetexp_field op))))"
| "store_output R env s listing (OpHCard op) = OutCardinality (of_nat (length (listing (op_key env (OpHCard op)))))"
| "store_output R env s listing (OpHScan op) =
     OutMapPage (map_page_of (page (unat (hscan_count op)) (after_cursor R (hscan_cursor op) (listing (op_key env (OpHScan op))))))"
| "store_output R env s listing _ = OutNone"

text \<open>The type of the output that an operation promises.\<close>

fun output_typed :: "Owned \<Rightarrow> Output \<Rightarrow> bool" where
  "output_typed (OpGet _) out = (\<exists>r. out = OutRecord r)"
| "output_typed (OpHGet _) out = (\<exists>r. out = OutRecord r)"
| "output_typed (OpGetExp _) out = (\<exists>e. out = OutExpiration e)"
| "output_typed (OpHGetExp _) out = (\<exists>e. out = OutExpiration e)"
| "output_typed (OpHCard _) out = (\<exists>n. out = OutCardinality n)"
| "output_typed (OpHScan _) out = (\<exists>p. out = OutMapPage p)"
| "output_typed _ out = (out = OutNone)"

section \<open>Lemmas\<close>

lemma op_key_fits: "length (owned_key op) < 2 ^ 31 \<Longrightarrow> key_fits (op_key env op)"
  by (simp add: op_key_def db_key_def GenericKey_new_def KeyWrapper_private_def key_fits_def ns_as_bytes_def)

lemma string_key_form: "key_fits key \<Longrightarrow> key_form R GenericString (key_bytes key)"
  by (auto simp: key_form_def)

lemma column_expiration_store:
  assumes "db_ok R valid contents d"
  shows "map_expiration (column_expiration R (Ok ()) now C d key None)
       = Ok (visible_expiration now (store_of R (contents d) (col_name C) (key_bytes key)))"
    and "map_expiration (column_expiration R (Ok ()) now C d key (Some f))
       = Ok (visible_expiration now (store_of R (contents d) (col_name C) (key_bytes key @ field_bytes R f)))"
  using db_okD(1) [OF assms]
  by (auto simp: column_expiration_def backend_get_store [OF assms] visible_expiration_def visible_def record_of_def
      into_payload_def ok_or_def split: option.splits)

lemma count_values_Ok: "count_values (map Ok xs) n = Ok (n + length xs)"
  by (induction xs arbitrary: n) auto

lemma parse_value_record: "map_records_map R now kv = Ok r \<Longrightarrow> parse_value R now kv = Ok (map_option mrec_value r)"
  by (auto simp: map_records_map_def parse_value_def outcome_simps option.map_comp comp_def option.map_ident)

lemma iter_values_records:
  assumes "db_ok R valid contents d" and "map_family (col_name C)" and "key_fits key"
  shows "iter_values R now (rdb_iter_from R d (col_name C) (key_bytes key)) = map Ok (map mrec_value (map_records R now C d key))"
proof -
  have parsed: "parse_value R now kv = Ok (map_option mrec_value (kv_record R now kv))" if "kv \<in> set (map_entries R C d key)" for kv
    by (rule parse_value_record [OF kv_record_entries(1) [OF assms that]])
  have "map (parse_value R now) (map_entries R C d key) = map (\<lambda>kv. Ok (map_option mrec_value (kv_record R now kv))) (map_entries R C d key)"
    using parsed by (intro map_cong) simp_all
  moreover have "List.map_filter (\<lambda>kv. map_option mrec_value (kv_record R now kv)) xs = map mrec_value (List.map_filter (kv_record R now) xs)" for xs
    by (induction xs) (auto simp: List.map_filter_simps split: option.splits)
  ultimately show ?thesis
    by (simp only: iter_values_def map_entries_iter(1) [OF assms] map_ok_flatten_Ok transpose_filter_Ok map_records_def)
qed

lemma hcard_records:
  assumes "db_ok R valid contents d" and "map_family (col_name C)" and "key_fits key"
  shows "hcard R (Ok ()) now C d key = Ok (length (map_records R now C d key))"
  by (simp add: hcard_def iter_values_records [OF assms] count_values_Ok [of "map mrec_value (map_records R now C d key)", simplified])

lemma hscan_records:
  assumes "db_ok R valid contents d" and "map_family (col_name C)" and "key_fits key"
  shows "hscan R (Ok ()) now C d key \<lparr>scan_count = n, scan_cursor = cursor\<rparr> = Ok (page n (after_cursor R cursor (map_records R now C d key)))"
  by (cases cursor) (simp_all add: hscan_def scan_page [OF assms] after_cursor_def)

lemma write_result_store:
  assumes "db_ok R valid contents d" and "key_form R cf k"
    and "res = and_then (serialize (op_codec R) op) (\<lambda>v. backend_merge R cf k v d)"
  shows "\<exists>d'. write_result res d = (Ok OutNone, d') \<and> db_ok R valid contents d'
           \<and> store_of R (contents d') = store_write [(cf, k, op)] (store_of R (contents d))"
proof -
  obtain d' where "res = Ok d'" "db_ok R valid contents d'"
    "store_of R (contents d') = store_write [(cf, k, op)] (store_of R (contents d))"
    using write_op_store [OF assms(1,2), of op] assms(3) by blast
  then show ?thesis by (simp add: write_result_def)
qed

text \<open>One operation on a well-formed database.\<close>

lemma server_result_store:
  assumes "db_ok R valid contents d" and "length (owned_key op) < 2 ^ 31" and "env_sent env = Ok ()"
  shows "\<exists>d'. server_result R env op d = (Ok (store_output R env (store_of R (contents d)) (map_records R (env_now env) MapColumn d) op), d')
           \<and> db_ok R valid contents d'
           \<and> store_of R (contents d') = store_write (store_ops R env op) (store_of R (contents d))"
proof -
  have fits: "key_fits (op_key env op)"
    by (rule op_key_fits [OF assms(2)])
  have map: "map_family (col_name MapColumn)" by simp
  note form = string_key_form [OF fits] map_key_form [OF map fits, unfolded column_names]
  note cod = db_okD(1) [OF assms(1)]
  show ?thesis
  proof (cases op)
    case (OpSet x)
    show ?thesis
      unfolding OpSet server_result.simps store_output.simps store_ops.simps
      by (rule write_result_store [OF assms(1)]) (use form OpSet in \<open>simp_all add: string_set_def op_key_def\<close>)
  next
    case (OpDel x)
    show ?thesis
      unfolding OpDel server_result.simps store_output.simps store_ops.simps
      by (rule write_result_store [OF assms(1)]) (use form OpDel in \<open>simp_all add: string_del_def op_key_def\<close>)
  next
    case (OpSetExp x)
    show ?thesis
      unfolding OpSetExp server_result.simps store_output.simps store_ops.simps
      by (rule write_result_store [OF assms(1)]) (use form OpSetExp in \<open>simp_all add: string_set_exp_def op_key_def\<close>)
  next
    case (OpHSet x)
    show ?thesis
      unfolding OpHSet server_result.simps store_output.simps store_ops.simps Let_def
      by (rule write_result_store [OF assms(1)]) (use form cod OpHSet in \<open>simp_all add: hset_def op_key_def\<close>)
  next
    case (OpHDel x)
    show ?thesis
      unfolding OpHDel server_result.simps store_output.simps store_ops.simps
      by (rule write_result_store [OF assms(1)]) (use form cod OpHDel in \<open>simp_all add: hdel_def op_key_def\<close>)
  next
    case (OpHSetExp x)
    show ?thesis
      unfolding OpHSetExp server_result.simps store_output.simps store_ops.simps
      by (rule write_result_store [OF assms(1)]) (use form cod OpHSetExp in \<open>simp_all add: hset_exp_def op_key_def\<close>)
  next
    case (OpHCard x)
    with hcard_records [OF assms(1) map fits] assms(1,3) show ?thesis
      by (simp add: read_result_def op_key_def)
  next
    case (OpHScan x)
    with hscan_records [OF assms(1) map fits] assms(1,3) show ?thesis
      by (simp add: read_result_def op_key_def)
  qed (use assms(1,3) in \<open>simp_all add: read_result_def op_key_def string_get_store [OF assms(1)] hget_store [OF assms(1)]
      string_get_exp_def hget_exp_def column_expiration_store [OF assms(1)]\<close>)
qed



lemma export_through_stream:
  assumes "db_ok R valid contents d"
  shows "map (\<lambda>r. and_then r (\<lambda>i. Ok (export_item i))) (server_read_data R show_err positions d) = map Ok (export R d positions)"
proof -
  obtain lo hi where positions: "positions = (lo, hi)" by (cases positions) auto
  have "and_then (data_item show_err (ExportFrameItem (Ok f))) (\<lambda>i. Ok (export_item i)) = Ok (ExportFrameItem (Ok f))"
    if "f \<in> set (all_frames R d (lo, hi))" for f
    using that set_all_frames [OF assms, of f lo hi] by (auto simp: data_frame_def)
  then show ?thesis
    unfolding positions server_read_data_def export_frames [OF assms] by (simp del: data_item.simps(1))
qed


section \<open>Concrete instances\<close>

definition sample_db_env :: db_env where
  "sample_db_env = \<lparr>env_now = 20, env_sent = Ok (), env_xxh3 = (\<lambda>_. 7)\<rparr>"

definition sample_show :: "RocksError \<Rightarrow> string" where
  "sample_show err = ''storage error''"

definition sample_hset :: Operation where
  "sample_hset = OwnedOperation (OpHSet
     \<lparr>hset_namespace = 1, hset_key = [1],
      hset_entry = \<lparr>entry_field = [3], entry_record = \<lparr>record_value = [4], record_expiration = \<lparr>unix_timestamp_secs = 50\<rparr>,
        record_version = \<lparr>unix_timestamp_micros = 5\<rparr>\<rparr>\<rparr>,
      hset_keyspace_version = Some 0\<rparr>)"

definition sample_hscan :: Operation where
  "sample_hscan = OwnedOperation (OpHScan
     \<lparr>hscan_namespace = 1, hscan_key = [1], hscan_count = 6000, hscan_cursor = None, hscan_keyspace_version = Some 0\<rparr>)"




end
