(* ===== verification/Spec2Isabelle.thy ===== *)
theory Spec2Isabelle
  imports Sharding Replica Request_Acceptance Database_Server
begin

text \<open>
  Verification library of the WalletConnect Network node (the Rust workspace under
  \<open>src/crates\<close>).
\<close>

end
